(* ===== verification/Prelude.thy ===== *)
theory Prelude
  imports Main "HOL-Library.Word" "HOL-Library.AList"
begin

text \<open>
  Shared vocabulary of the development: the machine integers of the Go sources, Go maps,
  the decimal rendering of \<^verbatim>\<open>strconv.Itoa\<close>, and the generic lemmas the components use.

  A Go map (\<^verbatim>\<open>map[K]V\<close> or \<^verbatim>\<open>sync.Map\<close>) is an association list; the entry that counts
  is the first one of a key, so that every operation below has the expected effect on
  \<open>gm_get\<close> whatever the list looks like. The order of the list stands for one iteration
  order of Go's \<^verbatim>\<open>range\<close>; results that do not depend on it are stated through \<open>gm_get\<close>.
\<close>

named_theorems go_map \<open>laws of Go maps\<close>

type_synonym u64 = "64 word"
type_synonym u8 = "8 word"
type_synonym bytes = "u8 list"
type_synonym time = int
type_synonym ('k, 'v) gomap = "('k \<times> 'v) list"

section \<open>Go maps\<close>

definition gm_empty :: "('k, 'v) gomap" where
  "gm_empty = []"

definition gm_get :: "('k, 'v) gomap \<Rightarrow> 'k \<Rightarrow> 'v option" where
  "gm_get m k = map_of m k"

definition gm_has :: "('k, 'v) gomap \<Rightarrow> 'k \<Rightarrow> bool" where
  "gm_has m k = (case gm_get m k of None \<Rightarrow> False | Some _ \<Rightarrow> True)"

definition gm_put :: "('k, 'v) gomap \<Rightarrow> 'k \<Rightarrow> 'v \<Rightarrow> ('k, 'v) gomap" where
  "gm_put m k v = AList.update k v m"

definition gm_del :: "('k, 'v) gomap \<Rightarrow> 'k \<Rightarrow> ('k, 'v) gomap" where
  "gm_del m k = AList.delete k m"

text \<open>
  \<open>gm_filter P m\<close> is a \<^verbatim>\<open>range\<close> loop that deletes every entry failing \<open>P\<close>.
\<close>

definition gm_filter :: "('k \<Rightarrow> 'v \<Rightarrow> bool) \<Rightarrow> ('k, 'v) gomap \<Rightarrow> ('k, 'v) gomap" where
  "gm_filter P m = filter (\<lambda>(k, v). case gm_get m k of None \<Rightarrow> False | Some w \<Rightarrow> P k w) m"

definition gm_len :: "('k, 'v) gomap \<Rightarrow> nat" where
  "gm_len m = length (remdups (map fst m))"

lemma gm_get_empty [simp, go_map]: "gm_get gm_empty k = None"
  by (simp add: gm_get_def gm_empty_def)

lemma gm_get_put [simp, go_map]:
  "gm_get (gm_put m k v) j = (if j = k then Some v else gm_get m j)"
  by (simp add: gm_get_def gm_put_def update_conv')

lemma gm_get_del [simp, go_map]:
  "gm_get (gm_del m k) j = (if j = k then None else gm_get m j)"
  by (simp add: gm_get_def gm_del_def delete_conv')

lemma map_of_filter_key:
  "map_of (filter (\<lambda>(k, v). Q k) m) j = (if Q j then map_of m j else None)"
  by (induction m) auto

lemma gm_get_filter [simp, go_map]:
  "gm_get (gm_filter P m) j =
     (case gm_get m j of None \<Rightarrow> None | Some v \<Rightarrow> if P j v then Some v else None)"
  using map_of_filter_key [of "\<lambda>k. case gm_get m k of None \<Rightarrow> False | Some w \<Rightarrow> P k w" m j]
  by (simp add: gm_get_def gm_filter_def split: option.splits)

lemma gm_has_iff: "gm_has m k \<longleftrightarrow> (\<exists>v. gm_get m k = Some v)"
  by (simp add: gm_has_def split: option.splits)

lemma gm_has_empty [simp]: "\<not> gm_has gm_empty k"
  by (simp add: gm_has_iff)

lemma gm_has_put [simp]: "gm_has (gm_put m k v) j \<longleftrightarrow> j = k \<or> gm_has m j"
  by (simp add: gm_has_iff)

lemma gm_has_del [simp]: "gm_has (gm_del m k) j \<longleftrightarrow> j \<noteq> k \<and> gm_has m j"
  by (simp add: gm_has_iff)

lemma gm_empty_iff: "m = gm_empty \<longleftrightarrow> (\<forall>k. gm_get m k = None)"
proof
  assume a: "\<forall>k. gm_get m k = None"
  show "m = gm_empty"
  proof (cases m)
    case (Cons e es)
    have "gm_get m (fst e) \<noteq> None" by (cases e) (simp add: Cons gm_get_def)
    with a show ?thesis by simp
  qed (simp add: gm_empty_def)
qed simp

lemma gm_len_eq_0 [simp]: "gm_len m = 0 \<longleftrightarrow> m = gm_empty"
  by (simp add: gm_len_def gm_empty_def)

lemma gm_len_card: "gm_len m = card {k. gm_has m k}"
proof -
  have "{k. gm_has m k} = fst ` set m"
    by (simp add: gm_has_iff gm_get_def dom_map_of_conv_image_fst [symmetric] dom_def)
  then show ?thesis
    by (simp add: gm_len_def length_remdups_card_conv)
qed

text \<open>
  A list without repeated keys, which is what the operations build from the empty map: then a
  \<^verbatim>\<open>range\<close> loop over the list visits exactly the entries \<open>gm_get\<close> finds.
\<close>

definition gm_ok :: "('k, 'v) gomap \<Rightarrow> bool" where
  "gm_ok m = distinct (map fst m)"

lemma gm_ok_empty [simp, intro]: "gm_ok gm_empty"
  by (simp add: gm_ok_def gm_empty_def)

lemma gm_ok_put [simp, intro]: "gm_ok m \<Longrightarrow> gm_ok (gm_put m k v)"
  by (simp add: gm_ok_def gm_put_def distinct_update)

lemma gm_ok_del [simp, intro]: "gm_ok m \<Longrightarrow> gm_ok (gm_del m k)"
  by (simp add: gm_ok_def gm_del_def distinct_delete)

lemma gm_ok_filter [simp, intro]: "gm_ok m \<Longrightarrow> gm_ok (gm_filter P m)"
  by (simp add: gm_ok_def gm_filter_def distinct_map_filter)

lemma gm_ok_member: "gm_ok m \<Longrightarrow> (k, v) \<in> set m \<longleftrightarrow> gm_get m k = Some v"
  by (auto simp: gm_ok_def gm_get_def dest: map_of_SomeD)

lemma gm_key: "k \<in> fst ` set m \<longleftrightarrow> gm_has m k"
  by (simp add: gm_has_iff gm_get_def dom_map_of_conv_image_fst [symmetric] dom_def)

text \<open>
  What a client of a Go map may rely on, and what follows from it alone.
\<close>

locale keyed_store =
  fixes lookup :: "'m \<Rightarrow> 'k \<Rightarrow> 'v option"
    and store :: "'m \<Rightarrow> 'k \<Rightarrow> 'v \<Rightarrow> 'm"
    and remove :: "'m \<Rightarrow> 'k \<Rightarrow> 'm"
    and sweep :: "('k \<Rightarrow> 'v \<Rightarrow> bool) \<Rightarrow> 'm \<Rightarrow> 'm"
  assumes lookup_store: "lookup (store m k v) j = (if j = k then Some v else lookup m j)"
    and lookup_remove: "lookup (remove m k) j = (if j = k then None else lookup m j)"
    and lookup_sweep: "lookup (sweep P m) j =
          (case lookup m j of None \<Rightarrow> None | Some v \<Rightarrow> if P j v then Some v else None)"
begin

lemma store_keeps: "lookup m j = Some w \<Longrightarrow> \<exists>u. lookup (store m k v) j = Some u"
  by (simp add: lookup_store)

lemma sweep_sub: "lookup (sweep P m) j = Some v \<Longrightarrow> lookup m j = Some v \<and> P j v"
  by (auto simp: lookup_sweep split: option.splits if_splits)

lemma sweep_all: "\<forall>j v. lookup m j = Some v \<longrightarrow> Q j v \<Longrightarrow>
    lookup (sweep P m) j = Some v \<Longrightarrow> Q j v"
  by (auto dest: sweep_sub)

lemma store_all: "\<forall>j v. lookup m j = Some v \<longrightarrow> Q j v \<Longrightarrow> Q k u \<Longrightarrow>
    lookup (store m k u) j = Some v \<Longrightarrow> Q j v"
  by (auto simp: lookup_store split: if_splits)

lemma remove_all: "\<forall>j v. lookup m j = Some v \<longrightarrow> Q j v \<Longrightarrow>
    lookup (remove m k) j = Some v \<Longrightarrow> Q j v"
  by (auto simp: lookup_remove split: if_splits)

end

interpretation gm: keyed_store gm_get gm_put gm_del gm_filter
  by unfold_locales (simp_all add: go_map)

section \<open>Machine words\<close>

lemma unat_u8_less: "unat (b :: u8) < 256"
  using unsigned_less [of b, where ?'a = nat] by simp

lemma sint_eq_sint [simp]: "sint (a :: 'a :: len word) = sint b \<longleftrightarrow> a = b"
  by (auto intro: signed_word_eqI)

lemma unat_u64_less: "unat (w :: u64) < 2 ^ 64"
  using unsigned_less [of w, where ?'a = nat] by simp

text \<open>An increment below some other value of the type does not wrap around.\<close>

lemma unat_Suc_below: "(a :: 'a::len word) < b \<Longrightarrow> unat (a + 1) = Suc (unat a)"
proof -
  assume l: "a < b"
  have "1 + a \<noteq> 0"
  proof
    assume "1 + a = 0"
    then have "a = - 1" by (simp add: eq_neg_iff_add_eq_0 add.commute)
    with l show False by (simp add: word_not_simps)
  qed
  then show "unat (a + 1) = Suc (unat a)" by (simp add: unatSuc add.commute)
qed

section \<open>Decimal rendering\<close>

definition digit_char :: "nat \<Rightarrow> char" where
  "digit_char d = char_of (48 + d)"

fun udec :: "nat \<Rightarrow> string" where
  "udec n = (if n < 10 then [digit_char n] else udec (n div 10) @ [digit_char (n mod 10)])"

declare udec.simps [simp del]

definition itoa :: "int \<Rightarrow> string" where
  "itoa i = (if i < 0 then CHR ''-'' # udec (nat (- i)) else udec (nat i))"

definition digit_val :: "char \<Rightarrow> nat" where
  "digit_val c = of_char c - 48"

definition read_dec :: "string \<Rightarrow> nat" where
  "read_dec s = foldl (\<lambda>a c. 10 * a + digit_val c) 0 s"

lemma digit_val_char [simp]: "d < 10 \<Longrightarrow> digit_val (digit_char d) = d"
  by (simp add: digit_val_def digit_char_def)

lemma read_udec [simp]: "read_dec (udec n) = n"
proof (induction n rule: udec.induct)
  case (1 n)
  show ?case
  proof (cases "n < 10")
    case True
    then show ?thesis by (subst udec.simps) (simp add: read_dec_def)
  next
    case False
    with "1" show ?thesis by (subst udec.simps) (simp add: read_dec_def)
  qed
qed

lemma udec_inject [simp]: "udec m = udec n \<longleftrightarrow> m = n"
proof
  assume "udec m = udec n"
  then have "read_dec (udec m) = read_dec (udec n)" by simp
  then show "m = n" by simp
qed simp

lemma udec_hd: "\<exists>d r. d < 10 \<and> udec n = digit_char d # r"
proof (induction n rule: udec.induct)
  case (1 n)
  show ?case
  proof (cases "n < 10")
    case True
    then show ?thesis by (subst udec.simps) auto
  next
    case False
    with "1" obtain d r where "d < 10" "udec (n div 10) = digit_char d # r" by blast
    with False show ?thesis by (subst udec.simps) auto
  qed
qed

lemma digit_not_minus: "d < 10 \<Longrightarrow> digit_char d \<noteq> CHR ''-''"
proof
  assume d: "d < 10" and "digit_char d = CHR ''-''"
  then have "(of_char (digit_char d) :: nat) = of_char (CHR ''-'')" by simp
  with d show False by (simp add: digit_char_def)
qed

lemma udec_not_minus [simp]: "udec n \<noteq> CHR ''-'' # s" "CHR ''-'' # s \<noteq> udec n"
  using udec_hd [of n] by (auto simp: digit_not_minus digit_not_minus [symmetric])

lemma itoa_inject [simp]: "itoa i = itoa j \<longleftrightarrow> i = j"
  by (auto simp: itoa_def)

end
