(* ===== verification/Common.thy ===== *)
theory Common
  imports Prelude
begin

unbundle bit_operations_syntax

text \<open>
  The byte, hex and fixed-size hash helpers of \<^verbatim>\<open>common/bytes.go\<close>, \<^verbatim>\<open>common/types.go\<close> and
  \<^verbatim>\<open>common/big.go\<close>. A Go string is a \<open>string\<close> (one \<open>char\<close> per byte), a byte slice a list of
  8-bit words, a \<^verbatim>\<open>common.Hash\<close> or \<^verbatim>\<open>common.Address\<close> a byte list of length 32 or 20.
  The standard library's \<^verbatim>\<open>encoding/hex\<close> and \<^verbatim>\<open>encoding/binary\<close> are written out.
\<close>

section \<open>Bytes, strings, big-endian numbers\<close>

definition char_byte :: "char \<Rightarrow> u8" where
  "char_byte c = of_nat (of_char c)"

definition byte_char :: "u8 \<Rightarrow> char" where
  "byte_char b = char_of (unat b)"

definition string_bytes :: "string \<Rightarrow> bytes" where
  "string_bytes s = map char_byte s"

definition bytes_string :: "bytes \<Rightarrow> string" where
  "bytes_string b = map byte_char b"

text \<open>The value of a byte slice read in big-endian order, as \<^verbatim>\<open>big.Int.SetBytes\<close> reads it.\<close>

definition be_val :: "bytes \<Rightarrow> nat" where
  "be_val b = foldl (\<lambda>a x. 256 * a + unat x) 0 b"

text \<open>\<^verbatim>\<open>big.Int.Bytes\<close>: the shortest big-endian rendering, empty for zero.\<close>

fun be_bytes :: "nat \<Rightarrow> bytes" where
  "be_bytes n = (if n = 0 then [] else be_bytes (n div 256) @ [of_nat (n mod 256)])"

declare be_bytes.simps [simp del]

section \<open>encoding/hex\<close>

definition fromHexChar :: "char \<Rightarrow> u8 option" where
  "fromHexChar c =
     (let n = of_char c :: nat in
      if 48 \<le> n \<and> n \<le> 57 then Some (of_nat (n - 48))
      else if 97 \<le> n \<and> n \<le> 102 then Some (of_nat (n - 97 + 10))
      else if 65 \<le> n \<and> n \<le> 70 then Some (of_nat (n - 65 + 10))
      else None)"

definition hexChar :: "nat \<Rightarrow> char" where
  "hexChar d = ''0123456789abcdef'' ! d"

text \<open>The bytes decoded before the first error, which is what \<^verbatim>\<open>hex.DecodeString\<close> returns.\<close>

fun hexDecode :: "string \<Rightarrow> bytes" where
  "hexDecode (a # b # r) =
     (case fromHexChar a of None \<Rightarrow> []
      | Some x \<Rightarrow> (case fromHexChar b of None \<Rightarrow> []
         | Some y \<Rightarrow> (push_bit 4 x OR y) # hexDecode r))"
| "hexDecode [a] = []"
| "hexDecode [] = []"

fun Bytes2Hex :: "bytes \<Rightarrow> string" where
  "Bytes2Hex [] = []"
| "Bytes2Hex (b # r) = hexChar (unat (drop_bit 4 b)) # hexChar (unat (b AND 15)) # Bytes2Hex r"

definition Hex2Bytes :: "string \<Rightarrow> bytes" where
  "Hex2Bytes str = hexDecode str"

definition ToHex :: "bytes \<Rightarrow> string" where
  "ToHex b = (let hex = Bytes2Hex b; hex' = (if length hex = 0 then ''0'' else hex) in ''0x'' @ hex')"

definition FromHex :: "string \<Rightarrow> bytes" where
  "FromHex s =
     (if length s > 1 then
        let s1 = (if take 2 s = ''0x'' then drop 2 s else s);
            s2 = (if length s1 mod 2 = 1 then ''0'' @ s1 else s1)
        in Hex2Bytes s2
      else [])"

definition HasHexPrefix :: "string \<Rightarrow> bool" where
  "HasHexPrefix str = (length str \<ge> 2 \<and> take 2 str = ''0x'')"

definition IsHex :: "string \<Rightarrow> bool" where
  "IsHex str = (length str \<ge> 4 \<and> length str mod 2 = 0 \<and> take 2 str = ''0x'')"

section \<open>Padding\<close>

definition RightPadBytes :: "bytes \<Rightarrow> nat \<Rightarrow> bytes" where
  "RightPadBytes sl l = (if l < length sl then sl else sl @ replicate (l - length sl) 0)"

definition LeftPadBytes :: "bytes \<Rightarrow> nat \<Rightarrow> bytes" where
  "LeftPadBytes sl l = (if l < length sl then sl else replicate (l - length sl) 0 @ sl)"

definition Hex2BytesFixed :: "string \<Rightarrow> nat \<Rightarrow> bytes" where
  "Hex2BytesFixed str flen =
     (let h = hexDecode str in
      if length h = flen then h
      else if length h > flen then drop (length h - flen) h
      else replicate (flen - length h) 0 @ h)"

definition ToAddress :: "bytes \<Rightarrow> bytes" where
  "ToAddress sl =
     (if length sl < 20 then LeftPadBytes sl 20
      else if length sl > 20 then drop (length sl - 20) sl
      else sl)"

definition LeftPadString :: "string \<Rightarrow> nat \<Rightarrow> string" where
  "LeftPadString str l =
     (if l < length str then str else Bytes2Hex (replicate ((l - length str) div 2) 0) @ str)"

definition RightPadString :: "string \<Rightarrow> nat \<Rightarrow> string" where
  "RightPadString str l =
     (if l < length str then str else str @ Bytes2Hex (replicate ((l - length str) div 2) 0))"

section \<open>Numbers\<close>

text \<open>
  \<^verbatim>\<open>binary.Read\<close> of a fixed-size unsigned integer: it fails, and leaves the target at zero,
  when the reader holds fewer bytes than the type; it reads exactly that many otherwise.
\<close>

definition binary_read :: "nat \<Rightarrow> bytes \<Rightarrow> nat option" where
  "binary_read w d = (if length d < w then None else Some (be_val (take w d)))"

text \<open>\<^verbatim>\<open>data := make([]byte, 8); data = append(data[:len(b)], b...)\<close>, then a read of 8 bytes.
  \<open>None\<close> is the panic of the slice expression when the argument is longer than the buffer.\<close>

definition BytesToNumber :: "bytes \<Rightarrow> nat option" where
  "BytesToNumber b =
     (if length b > 8 then None
      else let data = replicate (length b) 0 @ b in
        (case binary_read 8 data of None \<Rightarrow> Some 0 | Some v \<Rightarrow> Some v))"

definition ReadVarInt :: "bytes \<Rightarrow> nat" where
  "ReadVarInt buff =
     (let l = length buff;
          rd = (\<lambda>w d. case binary_read w d of None \<Rightarrow> 0 | Some v \<Rightarrow> v) in
      if l > 4 then rd 8 (LeftPadBytes buff 8)
      else if l > 2 then rd 4 (LeftPadBytes buff 4)
      else if l > 1 then rd 2 (LeftPadBytes buff 2)
      else rd 1 buff)"

definition BytesToBig :: "bytes \<Rightarrow> nat" where
  "BytesToBig data = be_val data"

definition BigToBytes :: "nat \<Rightarrow> nat \<Rightarrow> bytes" where
  "BigToBytes num base =
     (if length (be_bytes num) > base div 8 then be_bytes num
      else replicate (base div 8 - length (be_bytes num)) 0 @ be_bytes num)"

definition U256 :: "int \<Rightarrow> int" where
  "U256 x = x AND (2 ^ 256 - 1)"

definition S256 :: "int \<Rightarrow> int" where
  "S256 x = (if x < 2 ^ 255 then x else x - 2 ^ 256)"

definition BigMax :: "int \<Rightarrow> int \<Rightarrow> int" where
  "BigMax x y = (if x < y then y else x)"

definition BigMin :: "int \<Rightarrow> int \<Rightarrow> int" where
  "BigMin x y = (if x > y then y else x)"

section \<open>Hash and Address\<close>

definition HashLength :: nat where "HashLength = 32"
definition AddressLength :: nat where "AddressLength = 20"

text \<open>
  \<^verbatim>\<open>SetBytes\<close> keeps the last bytes of a longer argument and copies a shorter one into the low
  end; the bytes of the receiver in front of it stay.
\<close>

definition Hash_SetBytes :: "bytes \<Rightarrow> bytes \<Rightarrow> bytes" where
  "Hash_SetBytes h b =
     (let b' = (if length b > length h then drop (length b - HashLength) b else b)
      in take (HashLength - length b') h @ b')"

definition Address_SetBytes :: "bytes \<Rightarrow> bytes \<Rightarrow> bytes" where
  "Address_SetBytes a b =
     (let b' = (if length b > length a then drop (length b - AddressLength) b else b)
      in take (AddressLength - length b') a @ b')"

definition BytesToHash :: "bytes \<Rightarrow> bytes" where
  "BytesToHash b = Hash_SetBytes (replicate HashLength 0) b"

definition StringToHash :: "string \<Rightarrow> bytes" where
  "StringToHash s = BytesToHash (string_bytes s)"

definition BigToHash :: "nat \<Rightarrow> bytes" where
  "BigToHash b = BytesToHash (be_bytes b)"

definition HexToHash :: "string \<Rightarrow> bytes" where
  "HexToHash s = BytesToHash (FromHex s)"

definition Hash_Hex :: "bytes \<Rightarrow> string" where
  "Hash_Hex h = ''0x'' @ Bytes2Hex h"

definition EmptyHash :: "bytes \<Rightarrow> bool" where
  "EmptyHash h = (h = replicate HashLength 0)"

definition BytesToAddress :: "bytes \<Rightarrow> bytes" where
  "BytesToAddress b = Address_SetBytes (replicate AddressLength 0) b"

definition HexToAddress :: "string \<Rightarrow> bytes" where
  "HexToAddress s = BytesToAddress (FromHex s)"

definition IsHexAddress :: "string \<Rightarrow> bool" where
  "IsHexAddress s =
     (if length s = 2 + 2 * AddressLength \<and> IsHex s then True
      else if length s = 2 * AddressLength \<and> IsHex (''0x'' @ s) then True
      else False)"

definition Address_Hex :: "bytes \<Rightarrow> string" where
  "Address_Hex a = ''0x'' @ Bytes2Hex a"

section \<open>Lemmas\<close>

lemma char_byte_char [simp]: "char_byte (byte_char b) = b"
  using unat_u8_less [of b] by (simp add: char_byte_def byte_char_def)

lemma byte_char_byte [simp]: "byte_char (char_byte c) = c"
  by (simp add: char_byte_def byte_char_def unat_of_nat)

lemma string_bytes_string [simp]: "string_bytes (bytes_string b) = b"
  by (simp add: string_bytes_def bytes_string_def o_def)

lemma bytes_string_bytes [simp]: "bytes_string (string_bytes s) = s"
  by (simp add: string_bytes_def bytes_string_def o_def)

lemma be_val_Nil [simp]: "be_val [] = 0"
  by (simp add: be_val_def)

lemma be_val_snoc [simp]: "be_val (b @ [x]) = 256 * be_val b + unat x"
  by (simp add: be_val_def)

lemma foldl_be: "foldl (\<lambda>a x. 256 * a + unat (x :: u8)) a b = a * 256 ^ length b + be_val b"
  by (induction b rule: rev_induct) (simp_all add: algebra_simps)

lemma be_val_append: "be_val (a @ b) = be_val a * 256 ^ length b + be_val b"
  using foldl_be [of "be_val a" b] by (simp add: be_val_def)

lemma be_val_zeros [simp]: "be_val (replicate n 0 @ b) = be_val b"
  by (induction n) (simp_all add: be_val_def)

lemma be_val_less: "be_val b < 256 ^ length b"
proof (induction b rule: rev_induct)
  case (snoc x b)
  with unat_u8_less [of x] show ?case by simp
qed simp

lemma be_val_be_bytes [simp]: "be_val (be_bytes n) = n"
proof (induction n rule: be_bytes.induct)
  case (1 n)
  then show ?case
    by (subst be_bytes.simps) (simp add: unat_of_nat)
qed

lemma hexChar_fromHexChar: "d < 16 \<Longrightarrow> fromHexChar (hexChar d) = Some (of_nat d)"
proof -
  have "\<forall>d \<in> set [0..<16]. fromHexChar (hexChar d) = Some (of_nat d)"
    by (simp add: upt_rec fromHexChar_def hexChar_def)
  then show "d < 16 \<Longrightarrow> fromHexChar (hexChar d) = Some (of_nat d)" by simp
qed

lemma nibbles:
  fixes b :: u8
  shows "unat (drop_bit 4 b) < 16" "unat (b AND 15) < 16"
    "push_bit 4 (drop_bit 4 b) OR (b AND 15) = b"
proof -
  show "unat (drop_bit 4 b) < 16"
    using unat_u8_less [of b] by (simp add: drop_bit_eq_div unat_div)
  have t: "b AND 15 = take_bit 4 b" by (simp add: take_bit_eq_mask mask_eq_exp_minus_1)
  then have "b AND 15 = b mod 16" by (simp add: take_bit_eq_mod)
  then show "unat (b AND 15) < 16" by (simp add: unat_mod)
  show "push_bit 4 (drop_bit 4 b) OR (b AND 15) = b"
    unfolding t by (rule bit_eqI) (auto simp: bit_simps)
qed

lemma hexDecode_Bytes2Hex [simp]: "hexDecode (Bytes2Hex b) = b"
  by (induction b) (simp_all add: hexChar_fromHexChar nibbles)

lemma length_Bytes2Hex [simp]: "length (Bytes2Hex b) = 2 * length b"
  by (induction b) simp_all

lemma Hash_SetBytes_zero: "length b = HashLength \<Longrightarrow> Hash_SetBytes (replicate HashLength 0) b = b"
  by (simp add: Hash_SetBytes_def)

lemma Address_SetBytes_zero:
  "length b = AddressLength \<Longrightarrow> Address_SetBytes (replicate AddressLength 0) b = b"
  by (simp add: Address_SetBytes_def)

lemma FromHex_0x: "s = Bytes2Hex b \<Longrightarrow> FromHex (''0x'' @ s) = b"
  by (simp add: FromHex_def Hex2Bytes_def)

lemma length_LeftPadBytes: "length (LeftPadBytes b l) = max l (length b)"
  by (simp add: LeftPadBytes_def)

lemma be_val_LeftPadBytes [simp]: "be_val (LeftPadBytes b l) = be_val b"
  by (simp add: LeftPadBytes_def)

lemma binary_read_padded:
  "length b \<le> w \<Longrightarrow> binary_read w (LeftPadBytes b w) = Some (be_val b)"
  by (simp add: binary_read_def length_LeftPadBytes)

section \<open>Properties\<close>



text \<open>
  What \<^verbatim>\<open>ReadVarInt\<close> and \<^verbatim>\<open>BytesToNumber\<close> read. On at most eight bytes \<^verbatim>\<open>ReadVarInt\<close> is
  the big-endian value. \<^verbatim>\<open>BytesToNumber\<close> puts as many zero bytes in front of its argument as
  the argument is long, so it returns 0 on fewer than four bytes and otherwise the value of the
  first \<open>8 - length\<close> bytes only: it agrees with the big-endian value on four bytes.
\<close>

theorem number_reads:
  assumes "length b \<le> 8"
  shows "ReadVarInt b = be_val b
    \<and> BytesToNumber b = Some (if length b < 4 then 0 else be_val (take (8 - length b) b))"
proof
  have "length b \<le> 1 \<Longrightarrow> (case binary_read 1 b of None \<Rightarrow> 0 | Some v \<Rightarrow> v) = be_val b"
    by (cases b) (simp_all add: binary_read_def)
  with assms show "ReadVarInt b = be_val b"
    by (simp add: ReadVarInt_def Let_def binary_read_padded)
  show "BytesToNumber b = Some (if length b < 4 then 0 else be_val (take (8 - length b) b))"
    using assms by (simp add: BytesToNumber_def binary_read_def Let_def)
qed

theorem number_reads_witness:
  "ReadVarInt [1, 2, 3] = 66051 \<and> BytesToNumber [1, 2, 3] = Some 0
   \<and> BytesToNumber [0, 0, 1, 2] = Some 258 \<and> BytesToNumber [0, 0, 0, 0, 0, 0, 0, 1] = Some 0"
  using number_reads [of "[1, 2, 3]"] number_reads [of "[0, 0, 1, 2]"]
    number_reads [of "[0, 0, 0, 0, 0, 0, 0, 1]"]
  by (simp add: be_val_def)

end
