(* ===== verification/Json.thy ===== *)
theory Json
  imports Common
begin

text \<open>
  JSON documents as the consensus messages use them (\<^verbatim>\<open>encoding/json\<close>).

  A document is a value of \<open>json\<close>. Go writes a \<^verbatim>\<open>time.Time\<close> as its RFC 3339 string and a
  \<^verbatim>\<open>[]byte\<close> as its base64 string; those two strings are kept as the leaves \<open>JTime\<close> and
  \<open>JB64\<close>, so that no date or base64 arithmetic is needed to read them back. Decoding a struct
  follows \<^verbatim>\<open>json.Unmarshal\<close>: the members of the object are assigned one after the other to the
  field whose name they match without regard to case, unknown members are skipped, \<^verbatim>\<open>null\<close>
  leaves a value as it is and sets a pointer to nil, and a member of the wrong kind makes the call
  return an error.
\<close>

datatype json =
    JNull
  | JBool bool
  | JNum int
  | JStr string
  | JTime time
  | JB64 bytes
  | JArr "json list"
  | JObj "(string \<times> json) list"

section \<open>Field names\<close>

definition lower_char :: "char \<Rightarrow> char" where
  "lower_char c =
     (if 65 \<le> (of_char c :: nat) \<and> (of_char c :: nat) \<le> 90 then char_of ((of_char c :: nat) + 32) else c)"

text \<open>\<^verbatim>\<open>strings.EqualFold\<close> on the ASCII names of the struct fields.\<close>

definition eq_fold :: "string \<Rightarrow> string \<Rightarrow> bool" where
  "eq_fold s t = (map lower_char s = map lower_char t)"

section \<open>Assigning a member to a field\<close>

text \<open>
  Each function gets the member and the present value of the field and returns the new value,
  or \<open>None\<close> for an \<^verbatim>\<open>UnmarshalTypeError\<close>.
\<close>

fun dec_string :: "json \<Rightarrow> string \<Rightarrow> string option" where
  "dec_string JNull old = Some old"
| "dec_string (JStr s) old = Some s"
| "dec_string _ old = None"

fun dec_bool :: "json \<Rightarrow> bool \<Rightarrow> bool option" where
  "dec_bool JNull old = Some old"
| "dec_bool (JBool b) old = Some b"
| "dec_bool _ old = None"

fun dec_u64 :: "json \<Rightarrow> u64 \<Rightarrow> u64 option" where
  "dec_u64 JNull old = Some old"
| "dec_u64 (JNum i) old = (if 0 \<le> i \<and> i < 2 ^ 64 then Some (word_of_int i) else None)"
| "dec_u64 _ old = None"

fun dec_int :: "json \<Rightarrow> int \<Rightarrow> int option" where
  "dec_int JNull old = Some old"
| "dec_int (JNum i) old = (if - (2 ^ 63) \<le> i \<and> i < 2 ^ 63 then Some i else None)"
| "dec_int _ old = None"

fun dec_time :: "json \<Rightarrow> time \<Rightarrow> time option" where
  "dec_time JNull old = Some old"
| "dec_time (JTime t) old = Some t"
| "dec_time _ old = None"

fun dec_bytes :: "json \<Rightarrow> bytes \<Rightarrow> bytes option" where
  "dec_bytes JNull old = Some []"
| "dec_bytes (JB64 b) old = Some b"
| "dec_bytes _ old = None"

fun dec_big :: "json \<Rightarrow> int option \<Rightarrow> int option option" where
  "dec_big JNull old = Some None"
| "dec_big (JNum i) old = Some (Some i)"
| "dec_big _ old = None"

text \<open>A pointer to a struct: the pointed-to value is reused when there is one.\<close>

fun dec_ptr :: "(json \<Rightarrow> 'a \<Rightarrow> 'a option) \<Rightarrow> 'a \<Rightarrow> json \<Rightarrow> 'a option \<Rightarrow> 'a option option" where
  "dec_ptr dec zero JNull old = Some None"
| "dec_ptr dec zero j old =
     map_option Some (dec j (case old of None \<Rightarrow> zero | Some a \<Rightarrow> a))"

fun dec_all :: "(json \<Rightarrow> 'a option) \<Rightarrow> json list \<Rightarrow> 'a list option" where
  "dec_all dec [] = Some []"
| "dec_all dec (j # js) =
     (case dec j of None \<Rightarrow> None | Some a \<Rightarrow> map_option ((#) a) (dec_all dec js))"

fun dec_slice :: "(json \<Rightarrow> 'a option) \<Rightarrow> json \<Rightarrow> 'a list \<Rightarrow> 'a list option" where
  "dec_slice dec JNull old = Some []"
| "dec_slice dec (JArr js) old = dec_all dec js"
| "dec_slice dec _ old = None"

text \<open>A fixed-size array keeps its length: extra elements are dropped, missing ones are zero.\<close>

fun dec_array :: "nat \<Rightarrow> json \<Rightarrow> int list \<Rightarrow> int list option" where
  "dec_array n JNull old = Some old"
| "dec_array n (JArr js) old =
     map_option (\<lambda>xs. take n (xs @ replicate n 0)) (dec_all (\<lambda>j. dec_int j 0) (take n js))"
| "dec_array n _ old = None"

text \<open>An object: its members in order, through the assignment \<open>asg\<close> of the struct.\<close>

fun dec_members :: "(string \<Rightarrow> json \<Rightarrow> 'a \<Rightarrow> 'a option) \<Rightarrow> (string \<times> json) list \<Rightarrow> 'a \<Rightarrow> 'a option" where
  "dec_members asg [] a = Some a"
| "dec_members asg ((k, j) # ms) a =
     (case asg k j a of None \<Rightarrow> None | Some a' \<Rightarrow> dec_members asg ms a')"

fun dec_struct :: "(string \<Rightarrow> json \<Rightarrow> 'a \<Rightarrow> 'a option) \<Rightarrow> json \<Rightarrow> 'a \<Rightarrow> 'a option" where
  "dec_struct asg JNull old = Some old"
| "dec_struct asg (JObj ms) old = dec_members asg ms old"
| "dec_struct asg _ old = None"

section \<open>Struct fields\<close>

text \<open>
  A struct is described by its exported fields in declaration order: the name, how the field is
  written, and how a member is assigned to it.
\<close>

type_synonym 'a field = "string \<times> ('a \<Rightarrow> json) \<times> (json \<Rightarrow> 'a \<Rightarrow> 'a option)"

fun assign :: "'a field list \<Rightarrow> string \<Rightarrow> json \<Rightarrow> 'a \<Rightarrow> 'a option" where
  "assign [] k j a = Some a"
| "assign ((n, w, r) # fs) k j a = (if eq_fold k n then r j a else assign fs k j a)"

definition Marshal :: "'a field list \<Rightarrow> 'a \<Rightarrow> json" where
  "Marshal fs a = JObj (map (\<lambda>(n, w, r). (n, w a)) fs)"

definition Unmarshal :: "'a field list \<Rightarrow> json \<Rightarrow> 'a \<Rightarrow> 'a option" where
  "Unmarshal fs j a = dec_struct (assign fs) j a"

fun read_fields :: "'a field list \<Rightarrow> 'a \<Rightarrow> 'a \<Rightarrow> 'a option" where
  "read_fields [] src a = Some a"
| "read_fields ((n, w, r) # fs) src a =
     (case r (w src) a of None \<Rightarrow> None | Some b \<Rightarrow> read_fields fs src b)"

definition distinct_names :: "'a field list \<Rightarrow> bool" where
  "distinct_names fs = distinct (map (map lower_char \<circ> fst) fs)"

section \<open>Writing\<close>

definition enc_u64 :: "u64 \<Rightarrow> json" where
  "enc_u64 w = JNum (uint w)"

definition enc_bytes :: "bytes \<Rightarrow> json" where
  "enc_bytes b = JB64 b"

fun enc_ptr :: "('a \<Rightarrow> json) \<Rightarrow> 'a option \<Rightarrow> json" where
  "enc_ptr enc None = JNull"
| "enc_ptr enc (Some a) = enc a"

definition enc_slice :: "('a \<Rightarrow> json) \<Rightarrow> 'a list \<Rightarrow> json" where
  "enc_slice enc xs = JArr (map enc xs)"

text \<open>\<^verbatim>\<open>common.Address\<close> has its own \<^verbatim>\<open>MarshalJSON\<close> and \<^verbatim>\<open>UnmarshalJSON\<close>.\<close>

definition Address_MarshalJSON :: "bytes \<Rightarrow> json" where
  "Address_MarshalJSON a = JStr (Address_Hex a)"

text \<open>
  The method gets the text of the member: a quoted string without its quotes, or the digits of a
  number; every other text fails its length check or \<^verbatim>\<open>hex.Decode\<close>.
\<close>

definition Address_UnmarshalJSON_text :: "string \<Rightarrow> bytes option" where
  "Address_UnmarshalJSON_text s =
     (let d = (if length s > 2 \<and> s ! 0 = CHR ''0'' \<and> s ! 1 = CHR ''x'' then drop 2 s else s) in
      if length d \<noteq> 2 * AddressLength then None
      else if list_all (\<lambda>c. fromHexChar c \<noteq> None) d then Some (HexToAddress d) else None)"

fun Address_UnmarshalJSON :: "json \<Rightarrow> bytes \<Rightarrow> bytes option" where
  "Address_UnmarshalJSON (JStr s) old = Address_UnmarshalJSON_text s"
| "Address_UnmarshalJSON (JNum i) old = Address_UnmarshalJSON_text (itoa i)"
| "Address_UnmarshalJSON _ old = None"

section \<open>Reading back what was written\<close>

named_theorems json_simps \<open>reading a written field\<close>

lemma dec_u64_enc [json_simps]: "dec_u64 (enc_u64 w) old = Some w"
proof -
  have "uint w < 2 ^ 64" using uint_lt2p [of w] by simp
  then show ?thesis by (simp add: enc_u64_def)
qed

lemma dec_bytes_enc [json_simps]: "dec_bytes (enc_bytes b) old = Some b"
  by (simp add: enc_bytes_def)

lemma dec_ptr_enc:
  assumes "\<And>a old. p = Some a \<Longrightarrow> dec (enc a) old = Some a" and "\<And>a. enc a \<noteq> JNull"
  shows "dec_ptr dec zero (enc_ptr enc p) old = Some p"
proof (cases p)
  case (Some a)
  then show ?thesis using assms [of a] by (cases "enc a") simp_all
qed simp

lemma dec_big_enc [json_simps]: "dec_big (enc_ptr JNum p) old = Some p"
  by (cases p) simp_all

lemma dec_all_map: "(\<And>a. a \<in> set xs \<Longrightarrow> dec (enc a) = Some a) \<Longrightarrow> dec_all dec (map enc xs) = Some xs"
  by (induction xs) simp_all

lemma dec_slice_enc:
  "(\<And>a. a \<in> set xs \<Longrightarrow> dec (enc a) = Some a) \<Longrightarrow> dec_slice dec (enc_slice enc xs) old = Some xs"
  by (simp add: enc_slice_def dec_all_map)

lemma dec_array_enc:
  assumes "length xs = n" and "\<forall>i \<in> set xs. - (2 ^ 63) \<le> i \<and> i < 2 ^ 63"
  shows "dec_array n (enc_slice JNum xs) old = Some xs"
proof -
  have "dec_all (\<lambda>j. dec_int j 0) (map JNum xs) = Some xs"
    using assms(2) by (intro dec_all_map) simp
  then show ?thesis using assms(1) by (simp add: enc_slice_def)
qed

lemma Bytes2Hex_hex: "list_all (\<lambda>c. fromHexChar c \<noteq> None) (Bytes2Hex b)"
  by (induction b) (simp_all add: hexChar_fromHexChar nibbles)

lemma Bytes2Hex_no_x: "c \<in> set (Bytes2Hex b) \<Longrightarrow> c \<noteq> CHR ''x''"
  using Bytes2Hex_hex [of b] by (auto simp: list_all_iff fromHexChar_def)

lemma Bytes2Hex_not_0x: "take 2 (Bytes2Hex b) \<noteq> ''0x''"
proof
  assume "take 2 (Bytes2Hex b) = ''0x''"
  then have "CHR ''x'' \<in> set (take 2 (Bytes2Hex b))" by simp
  then show False using Bytes2Hex_no_x in_set_takeD by metis
qed

lemma FromHex_bare: "FromHex (Bytes2Hex b) = b"
proof (cases b)
  case (Cons c r)
  then show ?thesis
    using Bytes2Hex_not_0x [of b] length_Bytes2Hex [of b] hexDecode_Bytes2Hex [of b]
    by (simp add: FromHex_def Hex2Bytes_def Let_def)
qed (simp add: FromHex_def)

lemma Address_json [json_simps]:
  "length a = AddressLength \<Longrightarrow> Address_UnmarshalJSON (Address_MarshalJSON a) old = Some a"
  using Bytes2Hex_hex [of a]
  by (simp add: Address_MarshalJSON_def Address_UnmarshalJSON_text_def Address_Hex_def
      AddressLength_def length_Bytes2Hex HexToAddress_def FromHex_bare BytesToAddress_def
      Address_SetBytes_def)

lemma assign_found:
  "distinct_names fs \<Longrightarrow> (n, w, r) \<in> set fs \<Longrightarrow> assign fs n j a = r j a"
proof (induction fs)
  case (Cons f fs)
  obtain m v q where f: "f = (m, v, q)" by (cases f)
  have d: "distinct_names fs" and m: "\<And>g. g \<in> set fs \<Longrightarrow> map lower_char m \<noteq> map lower_char (fst g)"
    using Cons.prems(1) by (auto simp: distinct_names_def f)
  show ?case
  proof (cases "(n, w, r) = f")
    case False
    then have "(n, w, r) \<in> set fs" using Cons.prems(2) by simp
    then show ?thesis using Cons.IH d m [of "(n, w, r)"] by (auto simp: f eq_fold_def)
  qed (simp add: f eq_fold_def)
qed simp

lemma dec_members_fields:
  assumes "distinct_names fs" and "set gs \<subseteq> set fs"
  shows "dec_members (assign fs) (map (\<lambda>(n, w, r). (n, w src)) gs) a = read_fields gs src a"
  using assms(2)
proof (induction gs arbitrary: a)
  case (Cons g gs)
  obtain n w r where "g = (n, w, r)" by (cases g)
  then show ?case using Cons assign_found [OF assms(1)] by (auto split: option.splits)
qed simp

lemma Unmarshal_Marshal:
  "distinct_names fs \<Longrightarrow> Unmarshal fs (Marshal fs src) a = read_fields fs src a"
  by (simp add: Unmarshal_def Marshal_def dec_members_fields)

lemma Marshal_not_JNull [json_simps]: "Marshal fs a \<noteq> JNull"
  by (simp add: Marshal_def)

end
