(* ===== verification/Pbft_Types.thy ===== *)
theory Pbft_Types
  imports Json
begin

text \<open>
  The data of the consensus engine: blocks, the five protocol messages, the two envelopes they
  travel in, the certificates, the state of a \<^verbatim>\<open>worker\<close> and what a handler leaves behind
  besides the new state (messages posted, goroutines started, the error returned).
  Sources: \<^verbatim>\<open>src/eth/pbft-core.go\<close>, \<^verbatim>\<open>src/eth/worker.go\<close>.

  A Go pointer that is only read is an option of the value it points to. Struct fields that no
  live code reads (mutexes, channels, the unused stores) are left out. Every field name carries
  the initials of its struct.
\<close>

section \<open>Blocks\<close>

record Transaction =
  tx_String :: string

record Receipt =
  rc_String :: string

record Header =
  h_ParentHash :: string
  h_Number :: "int option"
  h_Coinbase :: bytes
  h_Extra :: bytes
  h_Time :: "int option"
  h_ChainName :: string
  h_Root :: string

record Block =
  b_Number :: u64
  b_Valid :: int
  b_Timee :: time
  b_Header :: "Header option"
  b_Txs :: "Transaction option list"
  b_Uncles :: "Header option list"
  b_Receipt :: "Receipt option list"

text \<open>\<^verbatim>\<open>int(self.Number)\<close> reads the 64 bits as a signed integer.\<close>

definition Block_Hash :: "Block \<Rightarrow> string" where
  "Block_Hash b = itoa (sint (b_Number b))"

definition Block_Time :: "Block \<Rightarrow> time" where
  "Block_Time b = b_Timee b"

definition Txs :: "Transaction option list" where "Txs = [None]"
definition Uncles :: "Header option list" where "Uncles = [None]"
definition Receipts :: "Receipt option list" where "Receipts = [None]"

definition currentblock :: "time \<Rightarrow> Block" where
  "currentblock start = \<lparr> b_Number = 1, b_Valid = 1, b_Timee = start, b_Header = None,
     b_Txs = Txs, b_Uncles = Uncles, b_Receipt = Receipts \<rparr>"

definition is_valid :: "Block \<Rightarrow> bool" where
  "is_valid b = (b_Valid b = 0)"

record TxsExeSequences =
  te_Objects_ExeSeqs :: "int list"
  te_Dependency_TX :: "int list"

definition unused_text :: string where
  "unused_text = map byte_char [0xE4, 0xB8, 0x80, 0xE4, 0xB8, 0xAA, 0xE8, 0xBF, 0x94, 0xE5, 0x9B, 0x9E,
     0xE5, 0x80, 0xBC, 0xEF, 0xBC, 0x8C, 0xE4, 0xBD, 0x86, 0xE6, 0x98, 0xAF, 0xE7, 0x94,
     0xA8, 0xE4, 0xB8, 0x8D, 0xE5, 0x88, 0xB0]"

definition Block_Transactions :: "Block \<Rightarrow> string \<times> int list \<times> int list" where
  "Block_Transactions b =
     (unused_text, map (\<lambda>i. int i + 1) [0..<50], map (\<lambda>i. 50 - int i) [0..<50])"

definition TxDependency :: "string \<times> int list \<times> int list \<Rightarrow> string \<times> int list \<times> int list" where
  "TxDependency abc = abc"

section \<open>Messages\<close>

record Request =
  rq_ReqID :: u64
  rq_Sender :: string
  rq_View :: u64
  rq_Timestamp :: time
  rq_BlockHeight :: u64
  rq_BlockHash :: string
  rq_BlockCreator :: bytes
  rq_Block :: bytes
  rq_Realblock :: "Block option"

definition newhashReq :: "Request \<Rightarrow> string" where
  "newhashReq req = itoa (sint (rq_ReqID req))"

record ConsensusMsg =
  cm_Msg :: json
  cm_Timestamp :: time
  cm_Type :: string
  cm_Sender :: string

record ConsensusMsg2 = ConsensusMsg +
  cm_Newsender :: string
  cm_Other :: string

record PrePrepare =
  pp_Sender :: string
  pp_View :: u64
  pp_Timestamp :: time
  pp_ReqID :: u64
  pp_RequestDigest :: string
  pp_Request :: "Request option"

record Prepare =
  p_Sender :: string
  p_View :: u64
  p_Timestamp :: time
  p_ReqID :: u64
  p_RequestDigest :: string
  p_TxsExeSeqs :: bytes
  p_RealTxsExeSeqs :: "TxsExeSequences option"

record ValidResultForBlock =
  vr_Sender :: string
  vr_BlockHeight :: u64
  vr_BlockHash :: string
  vr_BlockCreator :: bytes
  vr_Opinion :: bool
  vr_Sign :: string

record Commit =
  c_Sender :: string
  c_View :: u64
  c_Timestamp :: time
  c_ReqID :: u64
  c_RequestDigest :: string
  c_VR :: ValidResultForBlock

record Checkpoint =
  k_Sender :: string
  k_BlockHeight :: u64
  k_ReqID :: u64
  k_BlockHash :: string

record ConStatusRequest =
  cq_Timestamp :: time
  cq_Sender :: string

record Raaaa =
  ra_Block :: Block
  ra_Blockbyte :: bytes

section \<open>Certificates and the state of a worker\<close>

text \<open>A \<^verbatim>\<open>msgID\<close> is the pair of view and request number.\<close>

type_synonym msgID = "u64 \<times> u64"

record msgCert =
  mc_prePrepare :: "PrePrepare option"
  mc_sentPrepare :: bool
  mc_prepare :: "Prepare list"
  mc_sentCommit :: bool
  mc_commit :: "Commit list"
  mc_IsPrepre :: bool
  mc_IsPre :: bool
  mc_IsComitt :: bool

definition empty_msgCert :: msgCert where
  "empty_msgCert = \<lparr> mc_prePrepare = None, mc_sentPrepare = False, mc_prepare = [],
     mc_sentCommit = False, mc_commit = [], mc_IsPrepre = False, mc_IsPre = False,
     mc_IsComitt = False \<rparr>"

record uint64RingBuffer =
  rb_ints :: "u64 list"
  rb_next :: nat

record Work =
  wk_tcount :: int
  wk_localMinedBlocks :: "uint64RingBuffer option"
  wk_Block :: "Block option"
  wk_header :: "Header option"
  wk_txs :: "Transaction option list"
  wk_receipts :: "Receipt option list"
  wk_createdAt :: time

text \<open>
  The variables of package \<^verbatim>\<open>eth\<close> the engine uses. \<^verbatim>\<open>consensusCtx\<close> is \<open>None\<close> before the
  first consensus and otherwise whether the context has been cancelled.
\<close>

record pkg_vars =
  maxConsensusLifetime :: time
  evictionInterval :: time
  leaseBeat :: time
  consensusCtx :: "bool option"
  checkpointStore :: "(string, u64) gomap"
  checkpointBH :: u64
  commitStore :: "(u64, string) gomap"
  prepreflag :: int
  preflag :: int
  commitflag :: int

text \<open>
  The handlers are methods of \<^verbatim>\<open>worker\<close> that also act on the package variables, so the record
  of a worker extends theirs. \<open>CurrentBlock\<close> is \<^verbatim>\<open>chain.CurrentBlock\<close>,
  \<open>validators\<close> is \<^verbatim>\<open>N\<close>, \<open>w_checkpointStore\<close> the field \<^verbatim>\<open>checkpointStore\<close> of the struct,
  which is not the package variable of that name.
\<close>

record worker = pkg_vars +
  txNum_startconsens :: int
  CurrentBlock :: u64
  coinbase :: bytes
  extra :: bytes
  current_work :: "Work option"
  mining :: int
  activeView :: bool
  view :: u64
  reqStore :: "(string, Request) gomap"
  certStore :: "(msgID, msgCert) gomap"
  w_checkpointStore :: "(string, u64) gomap"
  validators :: int
  nodeID :: string
  leader :: string
  ready :: bool
  blockbeats :: "(string, time) gomap"
  possibleValidBlock :: "(u64, (string, Block) gomap) gomap"
  LastReqID :: u64
  hasUnDealTxs :: bool
  chainName :: string
  chkpt :: bool

section \<open>What a handler leaves behind\<close>

text \<open>
  The errors returned, one constructor per \<^verbatim>\<open>errors.New\<close> text (the tags \<^verbatim>\<open>A12\<close> etc.
  distinguish otherwise equal texts). \<open>CatchPanic\<close> is the error built by a deferred
  \<^verbatim>\<open>recover\<close>; \<open>Crash\<close> is a panic nobody recovers, which ends the process.
\<close>

datatype pbft_err =
    BeingSelection | WrongLeaderOrView | ReqExists | AlreadyOnchain
  | PrepareViewWrong | DuplicatePrepare | NoReq | CommitSent | CommitSent2 | AlreadyPrepared
  | VRSignErr | CommitViewWrong | DuplicateCommit | NoCommitReq | PlainError
  | CertNil | NoTxDepend | NonSuchBlock
  | CatchPanic | Crash

datatype task =
    TRecvRequest Request
  | TRecvPrePrepare PrePrepare
  | TRecvPrepare Prepare
  | TRecvPrepare_notTransfer Prepare
  | TRecvCommit Commit
  | TStartConsensus

datatype effect =
    Post ConsensusMsg
  | PostTransfer ConsensusMsg2
  | PostCheckpoint Checkpoint
  | PostForceSync
  | Spawn task

type_synonym outcome = "pbft_err option \<times> worker \<times> effect list"

abbreviation out_err :: "outcome \<Rightarrow> pbft_err option" where "out_err r \<equiv> fst r"
abbreviation out_state :: "outcome \<Rightarrow> worker" where "out_state r \<equiv> fst (snd r)"
abbreviation out_effects :: "outcome \<Rightarrow> effect list" where "out_effects r \<equiv> snd (snd r)"

section \<open>Digests\<close>

lemma newhashReq_eq_iff: "newhashReq r = newhashReq s \<longleftrightarrow> rq_ReqID r = rq_ReqID s"
  by (simp add: newhashReq_def)

lemma Block_Hash_eq_iff: "Block_Hash b = Block_Hash c \<longleftrightarrow> b_Number b = b_Number c"
  by (simp add: Block_Hash_def)

end
