(* ===== verification/Pbft_Codec.thy ===== *)
theory Pbft_Codec
  imports Pbft_Types
begin

text \<open>
  The JSON form of the blocks and protocol messages: what \<^verbatim>\<open>Tostring\<close> (that is,
  \<^verbatim>\<open>json.Marshal\<close>) writes and what \<^verbatim>\<open>json.Unmarshal\<close> reads back, one field table per
  struct with the fields in declaration order, the zero value each decoding starts from, and the
  round trip of every message.
  Sources: \<^verbatim>\<open>src/eth/pbft-core.go\<close> (the structs, \<^verbatim>\<open>Tostring\<close>), \<^verbatim>\<open>src/eth/handler.go\<close>
  (the calls of \<^verbatim>\<open>json.Unmarshal\<close>).
\<close>

section \<open>Zero values and fields\<close>

definition zero_Transaction :: Transaction where
  "zero_Transaction = \<lparr> tx_String = '''' \<rparr>"

definition Transaction_fields :: "Transaction field list" where
  "Transaction_fields =
     [(''String'', \<lambda>a. JStr (tx_String a),
        \<lambda>j a. map_option (\<lambda>v. a\<lparr>tx_String := v\<rparr>) (dec_string j (tx_String a)))]"

definition zero_Receipt :: Receipt where
  "zero_Receipt = \<lparr> rc_String = '''' \<rparr>"

definition Receipt_fields :: "Receipt field list" where
  "Receipt_fields =
     [(''String'', \<lambda>a. JStr (rc_String a),
        \<lambda>j a. map_option (\<lambda>v. a\<lparr>rc_String := v\<rparr>) (dec_string j (rc_String a)))]"

definition zero_Header :: Header where
  "zero_Header = \<lparr> h_ParentHash = '''', h_Number = None, h_Coinbase = replicate AddressLength 0, h_Extra =
    [], h_Time = None, h_ChainName = '''', h_Root = '''' \<rparr>"

definition Header_fields :: "Header field list" where
  "Header_fields =
     [(''ParentHash'', \<lambda>a. JStr (h_ParentHash a),
        \<lambda>j a. map_option (\<lambda>v. a\<lparr>h_ParentHash := v\<rparr>) (dec_string j (h_ParentHash a))),
      (''Number'', \<lambda>a. enc_ptr JNum (h_Number a),
        \<lambda>j a. map_option (\<lambda>v. a\<lparr>h_Number := v\<rparr>) (dec_big j (h_Number a))),
      (''Coinbase'', \<lambda>a. Address_MarshalJSON (h_Coinbase a),
        \<lambda>j a. map_option (\<lambda>v. a\<lparr>h_Coinbase := v\<rparr>) (Address_UnmarshalJSON j (h_Coinbase a))),
      (''Extra'', \<lambda>a. enc_bytes (h_Extra a),
        \<lambda>j a. map_option (\<lambda>v. a\<lparr>h_Extra := v\<rparr>) (dec_bytes j (h_Extra a))),
      (''Time'', \<lambda>a. enc_ptr JNum (h_Time a),
        \<lambda>j a. map_option (\<lambda>v. a\<lparr>h_Time := v\<rparr>) (dec_big j (h_Time a))),
      (''ChainName'', \<lambda>a. JStr (h_ChainName a),
        \<lambda>j a. map_option (\<lambda>v. a\<lparr>h_ChainName := v\<rparr>) (dec_string j (h_ChainName a))),
      (''Root'', \<lambda>a. JStr (h_Root a),
        \<lambda>j a. map_option (\<lambda>v. a\<lparr>h_Root := v\<rparr>) (dec_string j (h_Root a)))]"

definition zero_Block :: Block where
  "zero_Block = \<lparr> b_Number = 0, b_Valid = 0, b_Timee = 0, b_Header = None, b_Txs = [], b_Uncles = [],
    b_Receipt = [] \<rparr>"

definition Block_fields :: "Block field list" where
  "Block_fields =
     [(''Number'', \<lambda>a. enc_u64 (b_Number a),
        \<lambda>j a. map_option (\<lambda>v. a\<lparr>b_Number := v\<rparr>) (dec_u64 j (b_Number a))),
      (''Valid'', \<lambda>a. JNum (b_Valid a),
        \<lambda>j a. map_option (\<lambda>v. a\<lparr>b_Valid := v\<rparr>) (dec_int j (b_Valid a))),
      (''Timee'', \<lambda>a. JTime (b_Timee a),
        \<lambda>j a. map_option (\<lambda>v. a\<lparr>b_Timee := v\<rparr>) (dec_time j (b_Timee a))),
      (''Header'', \<lambda>a. enc_ptr (Marshal Header_fields) (b_Header a),
        \<lambda>j a. map_option (\<lambda>v. a\<lparr>b_Header := v\<rparr>) (dec_ptr (Unmarshal Header_fields) zero_Header j (b_Header a))),
      (''Txs'', \<lambda>a. enc_slice (enc_ptr (Marshal Transaction_fields)) (b_Txs a),
        \<lambda>j a. map_option (\<lambda>v. a\<lparr>b_Txs := v\<rparr>) (dec_slice (\<lambda>e. dec_ptr (Unmarshal Transaction_fields) zero_Transaction e None) j (b_Txs a))),
      (''Uncles'', \<lambda>a. enc_slice (enc_ptr (Marshal Header_fields)) (b_Uncles a),
        \<lambda>j a. map_option (\<lambda>v. a\<lparr>b_Uncles := v\<rparr>) (dec_slice (\<lambda>e. dec_ptr (Unmarshal Header_fields) zero_Header e None) j (b_Uncles a))),
      (''Receipt'', \<lambda>a. enc_slice (enc_ptr (Marshal Receipt_fields)) (b_Receipt a),
        \<lambda>j a. map_option (\<lambda>v. a\<lparr>b_Receipt := v\<rparr>) (dec_slice (\<lambda>e. dec_ptr (Unmarshal Receipt_fields) zero_Receipt e None) j (b_Receipt a)))]"

definition zero_TxsExeSequences :: TxsExeSequences where
  "zero_TxsExeSequences = \<lparr> te_Objects_ExeSeqs = replicate 50 0, te_Dependency_TX = replicate 50 0 \<rparr>"

definition TxsExeSequences_fields :: "TxsExeSequences field list" where
  "TxsExeSequences_fields =
     [(''Objects_ExeSeqs'', \<lambda>a. enc_slice JNum (te_Objects_ExeSeqs a),
        \<lambda>j a. map_option (\<lambda>v. a\<lparr>te_Objects_ExeSeqs := v\<rparr>) (dec_array 50 j (te_Objects_ExeSeqs a))),
      (''Dependency_TX'', \<lambda>a. enc_slice JNum (te_Dependency_TX a),
        \<lambda>j a. map_option (\<lambda>v. a\<lparr>te_Dependency_TX := v\<rparr>) (dec_array 50 j (te_Dependency_TX a)))]"

definition zero_Request :: Request where
  "zero_Request = \<lparr> rq_ReqID = 0, rq_Sender = '''', rq_View = 0, rq_Timestamp = 0, rq_BlockHeight = 0,
    rq_BlockHash = '''', rq_BlockCreator = replicate AddressLength 0, rq_Block = [],
    rq_Realblock = None \<rparr>"

definition Request_fields :: "Request field list" where
  "Request_fields =
     [(''ReqID'', \<lambda>a. enc_u64 (rq_ReqID a),
        \<lambda>j a. map_option (\<lambda>v. a\<lparr>rq_ReqID := v\<rparr>) (dec_u64 j (rq_ReqID a))),
      (''Sender'', \<lambda>a. JStr (rq_Sender a),
        \<lambda>j a. map_option (\<lambda>v. a\<lparr>rq_Sender := v\<rparr>) (dec_string j (rq_Sender a))),
      (''View'', \<lambda>a. enc_u64 (rq_View a),
        \<lambda>j a. map_option (\<lambda>v. a\<lparr>rq_View := v\<rparr>) (dec_u64 j (rq_View a))),
      (''Timestamp'', \<lambda>a. JTime (rq_Timestamp a),
        \<lambda>j a. map_option (\<lambda>v. a\<lparr>rq_Timestamp := v\<rparr>) (dec_time j (rq_Timestamp a))),
      (''BlockHeight'', \<lambda>a. enc_u64 (rq_BlockHeight a),
        \<lambda>j a. map_option (\<lambda>v. a\<lparr>rq_BlockHeight := v\<rparr>) (dec_u64 j (rq_BlockHeight a))),
      (''BlockHash'', \<lambda>a. JStr (rq_BlockHash a),
        \<lambda>j a. map_option (\<lambda>v. a\<lparr>rq_BlockHash := v\<rparr>) (dec_string j (rq_BlockHash a))),
      (''BlockCreator'', \<lambda>a. Address_MarshalJSON (rq_BlockCreator a),
        \<lambda>j a. map_option (\<lambda>v. a\<lparr>rq_BlockCreator := v\<rparr>) (Address_UnmarshalJSON j (rq_BlockCreator a))),
      (''Block'', \<lambda>a. enc_bytes (rq_Block a),
        \<lambda>j a. map_option (\<lambda>v. a\<lparr>rq_Block := v\<rparr>) (dec_bytes j (rq_Block a))),
      (''Realblock'', \<lambda>a. enc_ptr (Marshal Block_fields) (rq_Realblock a),
        \<lambda>j a. map_option (\<lambda>v. a\<lparr>rq_Realblock := v\<rparr>) (dec_ptr (Unmarshal Block_fields) zero_Block j (rq_Realblock a)))]"

definition zero_PrePrepare :: PrePrepare where
  "zero_PrePrepare = \<lparr> pp_Sender = '''', pp_View = 0, pp_Timestamp = 0, pp_ReqID = 0, pp_RequestDigest = '''',
    pp_Request = None \<rparr>"

definition PrePrepare_fields :: "PrePrepare field list" where
  "PrePrepare_fields =
     [(''Sender'', \<lambda>a. JStr (pp_Sender a),
        \<lambda>j a. map_option (\<lambda>v. a\<lparr>pp_Sender := v\<rparr>) (dec_string j (pp_Sender a))),
      (''View'', \<lambda>a. enc_u64 (pp_View a),
        \<lambda>j a. map_option (\<lambda>v. a\<lparr>pp_View := v\<rparr>) (dec_u64 j (pp_View a))),
      (''Timestamp'', \<lambda>a. JTime (pp_Timestamp a),
        \<lambda>j a. map_option (\<lambda>v. a\<lparr>pp_Timestamp := v\<rparr>) (dec_time j (pp_Timestamp a))),
      (''ReqID'', \<lambda>a. enc_u64 (pp_ReqID a),
        \<lambda>j a. map_option (\<lambda>v. a\<lparr>pp_ReqID := v\<rparr>) (dec_u64 j (pp_ReqID a))),
      (''RequestDigest'', \<lambda>a. JStr (pp_RequestDigest a),
        \<lambda>j a. map_option (\<lambda>v. a\<lparr>pp_RequestDigest := v\<rparr>) (dec_string j (pp_RequestDigest a))),
      (''Request'', \<lambda>a. enc_ptr (Marshal Request_fields) (pp_Request a),
        \<lambda>j a. map_option (\<lambda>v. a\<lparr>pp_Request := v\<rparr>) (dec_ptr (Unmarshal Request_fields) zero_Request j (pp_Request a)))]"

definition zero_Prepare :: Prepare where
  "zero_Prepare = \<lparr> p_Sender = '''', p_View = 0, p_Timestamp = 0, p_ReqID = 0, p_RequestDigest = '''',
    p_TxsExeSeqs = [], p_RealTxsExeSeqs = None \<rparr>"

definition Prepare_fields :: "Prepare field list" where
  "Prepare_fields =
     [(''Sender'', \<lambda>a. JStr (p_Sender a),
        \<lambda>j a. map_option (\<lambda>v. a\<lparr>p_Sender := v\<rparr>) (dec_string j (p_Sender a))),
      (''View'', \<lambda>a. enc_u64 (p_View a),
        \<lambda>j a. map_option (\<lambda>v. a\<lparr>p_View := v\<rparr>) (dec_u64 j (p_View a))),
      (''Timestamp'', \<lambda>a. JTime (p_Timestamp a),
        \<lambda>j a. map_option (\<lambda>v. a\<lparr>p_Timestamp := v\<rparr>) (dec_time j (p_Timestamp a))),
      (''ReqID'', \<lambda>a. enc_u64 (p_ReqID a),
        \<lambda>j a. map_option (\<lambda>v. a\<lparr>p_ReqID := v\<rparr>) (dec_u64 j (p_ReqID a))),
      (''RequestDigest'', \<lambda>a. JStr (p_RequestDigest a),
        \<lambda>j a. map_option (\<lambda>v. a\<lparr>p_RequestDigest := v\<rparr>) (dec_string j (p_RequestDigest a))),
      (''TxsExeSeqs'', \<lambda>a. enc_bytes (p_TxsExeSeqs a),
        \<lambda>j a. map_option (\<lambda>v. a\<lparr>p_TxsExeSeqs := v\<rparr>) (dec_bytes j (p_TxsExeSeqs a))),
      (''RealTxsExeSeqs'', \<lambda>a. enc_ptr (Marshal TxsExeSequences_fields) (p_RealTxsExeSeqs a),
        \<lambda>j a. map_option (\<lambda>v. a\<lparr>p_RealTxsExeSeqs := v\<rparr>) (dec_ptr (Unmarshal TxsExeSequences_fields) zero_TxsExeSequences j (p_RealTxsExeSeqs a)))]"

definition zero_ValidResultForBlock :: ValidResultForBlock where
  "zero_ValidResultForBlock = \<lparr> vr_Sender = '''', vr_BlockHeight = 0, vr_BlockHash = '''', vr_BlockCreator = replicate
    AddressLength 0, vr_Opinion = False, vr_Sign = '''' \<rparr>"

definition ValidResultForBlock_fields :: "ValidResultForBlock field list" where
  "ValidResultForBlock_fields =
     [(''Sender'', \<lambda>a. JStr (vr_Sender a),
        \<lambda>j a. map_option (\<lambda>v. a\<lparr>vr_Sender := v\<rparr>) (dec_string j (vr_Sender a))),
      (''BlockHeight'', \<lambda>a. enc_u64 (vr_BlockHeight a),
        \<lambda>j a. map_option (\<lambda>v. a\<lparr>vr_BlockHeight := v\<rparr>) (dec_u64 j (vr_BlockHeight a))),
      (''BlockHash'', \<lambda>a. JStr (vr_BlockHash a),
        \<lambda>j a. map_option (\<lambda>v. a\<lparr>vr_BlockHash := v\<rparr>) (dec_string j (vr_BlockHash a))),
      (''BlockCreator'', \<lambda>a. Address_MarshalJSON (vr_BlockCreator a),
        \<lambda>j a. map_option (\<lambda>v. a\<lparr>vr_BlockCreator := v\<rparr>) (Address_UnmarshalJSON j (vr_BlockCreator a))),
      (''Opinion'', \<lambda>a. JBool (vr_Opinion a),
        \<lambda>j a. map_option (\<lambda>v. a\<lparr>vr_Opinion := v\<rparr>) (dec_bool j (vr_Opinion a))),
      (''Sign'', \<lambda>a. JStr (vr_Sign a),
        \<lambda>j a. map_option (\<lambda>v. a\<lparr>vr_Sign := v\<rparr>) (dec_string j (vr_Sign a)))]"

definition zero_Commit :: Commit where
  "zero_Commit = \<lparr> c_Sender = '''', c_View = 0, c_Timestamp = 0, c_ReqID = 0, c_RequestDigest = '''', c_VR =
    zero_ValidResultForBlock \<rparr>"

definition Commit_fields :: "Commit field list" where
  "Commit_fields =
     [(''Sender'', \<lambda>a. JStr (c_Sender a),
        \<lambda>j a. map_option (\<lambda>v. a\<lparr>c_Sender := v\<rparr>) (dec_string j (c_Sender a))),
      (''View'', \<lambda>a. enc_u64 (c_View a),
        \<lambda>j a. map_option (\<lambda>v. a\<lparr>c_View := v\<rparr>) (dec_u64 j (c_View a))),
      (''Timestamp'', \<lambda>a. JTime (c_Timestamp a),
        \<lambda>j a. map_option (\<lambda>v. a\<lparr>c_Timestamp := v\<rparr>) (dec_time j (c_Timestamp a))),
      (''ReqID'', \<lambda>a. enc_u64 (c_ReqID a),
        \<lambda>j a. map_option (\<lambda>v. a\<lparr>c_ReqID := v\<rparr>) (dec_u64 j (c_ReqID a))),
      (''RequestDigest'', \<lambda>a. JStr (c_RequestDigest a),
        \<lambda>j a. map_option (\<lambda>v. a\<lparr>c_RequestDigest := v\<rparr>) (dec_string j (c_RequestDigest a))),
      (''VR'', \<lambda>a. Marshal ValidResultForBlock_fields (c_VR a),
        \<lambda>j a. map_option (\<lambda>v. a\<lparr>c_VR := v\<rparr>) (Unmarshal ValidResultForBlock_fields j (c_VR a)))]"

definition zero_Checkpoint :: Checkpoint where
  "zero_Checkpoint = \<lparr> k_Sender = '''', k_BlockHeight = 0, k_ReqID = 0, k_BlockHash = '''' \<rparr>"

definition Checkpoint_fields :: "Checkpoint field list" where
  "Checkpoint_fields =
     [(''Sender'', \<lambda>a. JStr (k_Sender a),
        \<lambda>j a. map_option (\<lambda>v. a\<lparr>k_Sender := v\<rparr>) (dec_string j (k_Sender a))),
      (''BlockHeight'', \<lambda>a. enc_u64 (k_BlockHeight a),
        \<lambda>j a. map_option (\<lambda>v. a\<lparr>k_BlockHeight := v\<rparr>) (dec_u64 j (k_BlockHeight a))),
      (''ReqID'', \<lambda>a. enc_u64 (k_ReqID a),
        \<lambda>j a. map_option (\<lambda>v. a\<lparr>k_ReqID := v\<rparr>) (dec_u64 j (k_ReqID a))),
      (''BlockHash'', \<lambda>a. JStr (k_BlockHash a),
        \<lambda>j a. map_option (\<lambda>v. a\<lparr>k_BlockHash := v\<rparr>) (dec_string j (k_BlockHash a)))]"

definition zero_ConStatusRequest :: ConStatusRequest where
  "zero_ConStatusRequest = \<lparr> cq_Timestamp = 0, cq_Sender = '''' \<rparr>"

definition ConStatusRequest_fields :: "ConStatusRequest field list" where
  "ConStatusRequest_fields =
     [(''Timestamp'', \<lambda>a. JTime (cq_Timestamp a),
        \<lambda>j a. map_option (\<lambda>v. a\<lparr>cq_Timestamp := v\<rparr>) (dec_time j (cq_Timestamp a))),
      (''Sender'', \<lambda>a. JStr (cq_Sender a),
        \<lambda>j a. map_option (\<lambda>v. a\<lparr>cq_Sender := v\<rparr>) (dec_string j (cq_Sender a)))]"

section \<open>The text of an execution sequence\<close>

text \<open>
  A prepare carries \<^verbatim>\<open>[]byte(Tostring(txsExe))\<close>, the bytes of the JSON text itself.
\<close>

fun int_list_text :: "int list \<Rightarrow> string" where
  "int_list_text [] = []"
| "int_list_text [i] = itoa i"
| "int_list_text (i # j # r) = itoa i @ '','' @ int_list_text (j # r)"

definition Tostring_TxsExeSequences :: "TxsExeSequences \<Rightarrow> string" where
  "Tostring_TxsExeSequences t =
     [CHR 0x7B, CHR 0x22] @ ''Objects_ExeSeqs'' @ [CHR 0x22] @ '':['' @ int_list_text (te_Objects_ExeSeqs t)
     @ ''],'' @ [CHR 0x22] @ ''Dependency_TX'' @ [CHR 0x22] @ '':['' @ int_list_text (te_Dependency_TX t)
     @ '']'' @ [CHR 0x7D]"

section \<open>Well-formed values\<close>

text \<open>
  What the Go types guarantee and the model's types do not: addresses have twenty bytes, the
  arrays fifty elements, and an \<^verbatim>\<open>int\<close> is a 64-bit signed number.
\<close>

definition wf_int :: "int \<Rightarrow> bool" where
  "wf_int i \<longleftrightarrow> - (2 ^ 63) \<le> i \<and> i < 2 ^ 63"

definition wf_Header :: "Header \<Rightarrow> bool" where
  "wf_Header h \<longleftrightarrow> length (h_Coinbase h) = AddressLength"

definition wf_Block :: "Block \<Rightarrow> bool" where
  "wf_Block b \<longleftrightarrow> wf_int (b_Valid b) \<and> pred_option wf_Header (b_Header b)
     \<and> list_all (pred_option wf_Header) (b_Uncles b)"

definition wf_TxsExe :: "TxsExeSequences \<Rightarrow> bool" where
  "wf_TxsExe t \<longleftrightarrow> length (te_Objects_ExeSeqs t) = 50 \<and> length (te_Dependency_TX t) = 50
     \<and> list_all wf_int (te_Objects_ExeSeqs t) \<and> list_all wf_int (te_Dependency_TX t)"

definition wf_Request :: "Request \<Rightarrow> bool" where
  "wf_Request r \<longleftrightarrow> length (rq_BlockCreator r) = AddressLength \<and> pred_option wf_Block (rq_Realblock r)"

definition wf_Commit :: "Commit \<Rightarrow> bool" where
  "wf_Commit c \<longleftrightarrow> length (vr_BlockCreator (c_VR c)) = AddressLength"

section \<open>Round trips\<close>

lemmas field_tables = Transaction_fields_def Receipt_fields_def Header_fields_def Block_fields_def
  TxsExeSequences_fields_def Request_fields_def PrePrepare_fields_def Prepare_fields_def
  ValidResultForBlock_fields_def Commit_fields_def Checkpoint_fields_def ConStatusRequest_fields_def

lemma names_distinct [simp]:
  "distinct_names Transaction_fields" "distinct_names Receipt_fields" "distinct_names Header_fields"
  "distinct_names Block_fields" "distinct_names TxsExeSequences_fields"
  "distinct_names Request_fields" "distinct_names PrePrepare_fields" "distinct_names Prepare_fields"
  "distinct_names ValidResultForBlock_fields" "distinct_names Commit_fields"
  "distinct_names Checkpoint_fields"
  by (simp_all add: field_tables distinct_names_def lower_char_def)

lemma Transaction_json: "Unmarshal Transaction_fields (Marshal Transaction_fields t) old = Some t"
  by (simp only: Unmarshal_Marshal names_distinct) (simp add: Transaction_fields_def)

lemma Receipt_json: "Unmarshal Receipt_fields (Marshal Receipt_fields t) old = Some t"
  by (simp only: Unmarshal_Marshal names_distinct) (simp add: Receipt_fields_def)

lemma Header_json:
  "wf_Header h \<Longrightarrow> Unmarshal Header_fields (Marshal Header_fields h) old = Some h"
  by (simp only: Unmarshal_Marshal names_distinct) (simp add: Header_fields_def json_simps wf_Header_def)

lemma ptr_json:
  assumes "\<And>a old. p = Some a \<Longrightarrow> Unmarshal fs (Marshal fs a) old = Some a"
  shows "dec_ptr (Unmarshal fs) zero (enc_ptr (Marshal fs) p) old = Some p"
  using assms by (intro dec_ptr_enc) (simp_all add: json_simps)

lemma ptr_json_wf:
  assumes "\<And>a old. ok a \<Longrightarrow> Unmarshal fs (Marshal fs a) old = Some a" and "pred_option ok p"
  shows "dec_ptr (Unmarshal fs) zero (enc_ptr (Marshal fs) p) old = Some p"
  using assms by (intro ptr_json) simp

lemma ptrs_json:
  assumes "\<And>a old. Some a \<in> set ps \<Longrightarrow> Unmarshal fs (Marshal fs a) old = Some a"
  shows "dec_slice (\<lambda>e. dec_ptr (Unmarshal fs) zero e None) (enc_slice (enc_ptr (Marshal fs)) ps) old
         = Some ps"
  using assms by (intro dec_slice_enc ptr_json) auto

lemma Block_json:
  assumes "wf_Block b"
  shows "Unmarshal Block_fields (Marshal Block_fields b) old = Some b"
proof -
  note w = assms [unfolded wf_Block_def wf_int_def list_all_iff]
  have h: "dec_ptr (Unmarshal Header_fields) zero_Header
             (enc_ptr (Marshal Header_fields) (b_Header b)) z = Some (b_Header b)" for z
    using w by (intro ptr_json Header_json) simp
  have u: "dec_slice (\<lambda>e. dec_ptr (Unmarshal Header_fields) zero_Header e None)
             (enc_slice (enc_ptr (Marshal Header_fields)) (b_Uncles b)) z = Some (b_Uncles b)" for z
    using w by (intro ptrs_json Header_json) force
  show ?thesis using w
    by (simp only: Unmarshal_Marshal names_distinct) (simp add: Block_fields_def json_simps h u
        ptrs_json Transaction_json Receipt_json)
qed

lemma TxsExe_json:
  "wf_TxsExe t \<Longrightarrow> Unmarshal TxsExeSequences_fields (Marshal TxsExeSequences_fields t) old = Some t"
  by (simp only: Unmarshal_Marshal names_distinct) (simp add: TxsExeSequences_fields_def wf_TxsExe_def wf_int_def list_all_iff
      dec_array_enc)

lemma Request_json:
  "wf_Request r \<Longrightarrow> Unmarshal Request_fields (Marshal Request_fields r) old = Some r"
  by (simp only: Unmarshal_Marshal names_distinct) (simp add: Request_fields_def json_simps wf_Request_def ptr_json_wf [OF Block_json])

lemma PrePrepare_json:
  "pred_option wf_Request (pp_Request p) \<Longrightarrow>
     Unmarshal PrePrepare_fields (Marshal PrePrepare_fields p) old = Some p"
  by (simp only: Unmarshal_Marshal names_distinct) (simp add: PrePrepare_fields_def json_simps ptr_json_wf [OF Request_json])

lemma Prepare_json:
  "pred_option wf_TxsExe (p_RealTxsExeSeqs p) \<Longrightarrow>
     Unmarshal Prepare_fields (Marshal Prepare_fields p) old = Some p"
  by (simp only: Unmarshal_Marshal names_distinct) (simp add: Prepare_fields_def json_simps ptr_json_wf [OF TxsExe_json])

lemma VR_json:
  "length (vr_BlockCreator v) = AddressLength \<Longrightarrow>
     Unmarshal ValidResultForBlock_fields (Marshal ValidResultForBlock_fields v) old = Some v"
  by (simp only: Unmarshal_Marshal names_distinct) (simp add: ValidResultForBlock_fields_def json_simps)

lemma Commit_json:
  "wf_Commit c \<Longrightarrow> Unmarshal Commit_fields (Marshal Commit_fields c) old = Some c"
  by (simp only: Unmarshal_Marshal names_distinct) (simp add: Commit_fields_def json_simps wf_Commit_def VR_json)

lemma Checkpoint_json: "Unmarshal Checkpoint_fields (Marshal Checkpoint_fields k) old = Some k"
  by (simp only: Unmarshal_Marshal names_distinct) (simp add: Checkpoint_fields_def json_simps)

end
