(* ===== verification/Quorum.thy ===== *)
theory Quorum
  imports Prelude
begin

text \<open>
  The two vote thresholds of \<^verbatim>\<open>eth/pbft-core_basic.go\<close> as functions of the number of
  consensus nodes \<^verbatim>\<open>instance.N\<close>, and the quorum contract they implement. The contract is a
  locale: what it promises (two quorums overlap in more than the tolerated number of faulty
  nodes, and the correct nodes alone form a quorum) is all the agreement argument needs.
\<close>

definition getQuorum :: "int \<Rightarrow> int" where
  "getQuorum currentCSNum =
     (if currentCSNum = 0 \<or> currentCSNum < 2 then 10000000
      else if currentCSNum = 2 then currentCSNum
      else if currentCSNum = 3 then currentCSNum - 1
      else let f = currentCSNum div 3 in currentCSNum - f)"

definition getElectionQuorum :: "int \<Rightarrow> int" where
  "getElectionQuorum currentCSNum =
     (if currentCSNum = 0 \<or> currentCSNum < 2 then 10000000
      else if currentCSNum = 2 then currentCSNum
      else if currentCSNum = 3 then currentCSNum - 1
      else let f = currentCSNum div 2 in f + 1)"

text \<open>The largest number of faulty nodes a network of \<open>n\<close> nodes is meant to tolerate.\<close>

definition max_faulty :: "nat \<Rightarrow> nat" where
  "max_faulty n = (n - 1) div 3"

section \<open>The contract\<close>

lemma card_inter_lower:
  assumes "finite M" "A \<subseteq> M" "B \<subseteq> M"
  shows "card A + card B \<le> card M + card (A \<inter> B)"
proof -
  have "card A + card B = card (A \<union> B) + card (A \<inter> B)"
    using assms by (intro card_Un_Int) (auto intro: finite_subset)
  moreover have "card (A \<union> B) \<le> card M"
    using assms by (intro card_mono) auto
  ultimately show ?thesis by simp
qed

locale quorum_system =
  fixes q :: "nat \<Rightarrow> nat" and f :: "nat \<Rightarrow> nat"
  assumes overlap: "2 \<le> n \<Longrightarrow> n + f n < 2 * q n"
    and available: "2 \<le> n \<Longrightarrow> q n + f n \<le> n"
begin

lemma quorum_le: "2 \<le> n \<Longrightarrow> q n \<le> n"
  using available [of n] by simp

lemma quorums_intersect:
  assumes "finite M" "2 \<le> card M" "A \<subseteq> M" "B \<subseteq> M" "q (card M) \<le> card A" "q (card M) \<le> card B"
  shows "f (card M) < card (A \<inter> B)"
  using card_inter_lower [OF assms(1,3,4)] overlap [OF assms(2)] assms(5,6) by linarith

lemma honest_in_both:
  assumes "finite M" "2 \<le> card M" "A \<subseteq> M" "B \<subseteq> M" "q (card M) \<le> card A" "q (card M) \<le> card B"
    and "card F \<le> f (card M)" "finite F"
  shows "\<exists>p \<in> A \<inter> B. p \<notin> F"
proof (rule ccontr)
  assume "\<not> ?thesis"
  then have "A \<inter> B \<subseteq> F" by blast
  then have "card (A \<inter> B) \<le> card F" using assms(8) by (rule card_mono [rotated])
  with quorums_intersect [OF assms(1-6)] assms(7) show False by simp
qed

lemma honest_form_quorum:
  assumes "finite M" "2 \<le> card M" "F \<subseteq> M" "card F \<le> f (card M)"
  shows "q (card M) \<le> card (M - F)"
proof -
  have "finite F" using assms(1,3) by (rule finite_subset [rotated])
  then have "card (M - F) = card M - card F" using assms(3) by (simp add: card_Diff_subset)
  with assms(4) available [OF assms(2)] show ?thesis by linarith
qed

end

lemma getQuorum_eq:
  assumes n: "2 \<le> n"
  shows "getQuorum (int n) = int (n - (if n = 2 then 0 else n div 3))"
proof -
  have "int (n - n div 3) = int n - int n div 3" by (simp add: zdiv_int)
  with n show ?thesis by (simp add: getQuorum_def Let_def)
qed

lemma nat_getQuorum: "2 \<le> n \<Longrightarrow> nat (getQuorum (int n)) = n - (if n = 2 then 0 else n div 3)"
  by (simp add: getQuorum_eq)

lemma max_faulty_bounds: "1 \<le> n \<Longrightarrow> 3 * max_faulty n < n \<and> max_faulty n \<le> n div 3"
  unfolding max_faulty_def by (auto simp: div_le_mono)

lemma getQuorum_overlap:
  assumes n: "2 \<le> n"
  shows "n + max_faulty n < 2 * nat (getQuorum (int n))"
proof -
  have "3 * (n div 3) \<le> n" by simp
  moreover have "3 * max_faulty n < n" "max_faulty n \<le> n div 3"
    using max_faulty_bounds [of n] n by auto
  ultimately have "max_faulty n + 2 * (n div 3) < n" by linarith
  with n show ?thesis by (auto simp: nat_getQuorum)
qed

lemma getQuorum_available:
  assumes n: "2 \<le> n"
  shows "nat (getQuorum (int n)) + max_faulty n \<le> n"
proof -
  have "max_faulty n \<le> n div 3" "n div 3 \<le> n" using max_faulty_bounds [of n] n by auto
  moreover have "n = 2 \<Longrightarrow> max_faulty n = 0" by (simp add: max_faulty_def)
  ultimately show ?thesis using n by (auto simp: nat_getQuorum)
qed

interpretation pbft_quorum: quorum_system "\<lambda>n. nat (getQuorum (int n))" max_faulty
  by unfold_locales (rule getQuorum_overlap getQuorum_available, assumption)+

lemma getQuorum_pos: "0 < getQuorum n"
  by (auto simp: getQuorum_def Let_def)

lemma nat_getElectionQuorum:
  assumes n: "2 \<le> n"
  shows "nat (getElectionQuorum (int n)) = (if n = 3 then 2 else n div 2 + 1)"
proof -
  have "nat (int n div 2 + 1) = n div 2 + 1" by (simp add: zdiv_int [symmetric] nat_add_distrib)
  with n show ?thesis by (auto simp: getElectionQuorum_def Let_def)
qed

interpretation election_quorum: quorum_system "\<lambda>n. nat (getElectionQuorum (int n))" "\<lambda>_. 0"
proof unfold_locales
  fix n :: nat
  assume n: "2 \<le> n"
  show "n + 0 < 2 * nat (getElectionQuorum (int n))"
    using n by (auto simp: nat_getElectionQuorum)
  show "nat (getElectionQuorum (int n)) + 0 \<le> n"
    using n by (auto simp: nat_getElectionQuorum)
qed

section \<open>What the thresholds give\<close>

text \<open>
  C8: the thresholds. In a network of at least two nodes of which at most \<^verbatim>\<open>(N-1)/3\<close> are
  faulty, any two sets of nodes that reach \<^verbatim>\<open>getQuorum\<close> have a correct node in common, and the
  correct nodes alone reach it. Two sets that reach \<^verbatim>\<open>getElectionQuorum\<close> have a node in common.
\<close>

theorem quorums_meet_in_correct_node:
  assumes "finite M" "2 \<le> card M" "A \<subseteq> M" "B \<subseteq> M" "F \<subseteq> M" "card F \<le> max_faulty (card M)"
  shows "(getQuorum (int (card M)) \<le> int (card A) \<and> getQuorum (int (card M)) \<le> int (card B)
            \<longrightarrow> (\<exists>p \<in> A \<inter> B. p \<notin> F))
    \<and> getQuorum (int (card M)) \<le> int (card (M - F))
    \<and> (getElectionQuorum (int (card M)) \<le> int (card A) \<and> getElectionQuorum (int (card M)) \<le> int (card B)
            \<longrightarrow> A \<inter> B \<noteq> {})"
proof -
  have F: "finite F" using assms(1,5) by (rule finite_subset [rotated])
  have "\<exists>p \<in> A \<inter> B. p \<notin> F"
    if "getQuorum (int (card M)) \<le> int (card A)" "getQuorum (int (card M)) \<le> int (card B)"
    using pbft_quorum.honest_in_both [OF assms(1-4) _ _ assms(6) F] that by simp
  moreover have "A \<inter> B \<noteq> {}"
    if "getElectionQuorum (int (card M)) \<le> int (card A)" "getElectionQuorum (int (card M)) \<le> int (card B)"
    using election_quorum.quorums_intersect [OF assms(1-4)] that by (auto simp: nat_le_iff)
  ultimately show ?thesis
    using pbft_quorum.honest_form_quorum [OF assms(1,2,5,6)] by auto
qed

theorem quorums_meet_in_correct_node_witness:
  "\<exists>p \<in> {0, 1, 2 :: nat} \<inter> {1, 2, 3}. p \<notin> {1}"
  using quorums_meet_in_correct_node [of "{0, 1, 2, 3 :: nat}" "{0, 1, 2}" "{1, 2, 3}" "{1}"]
  by (simp add: getQuorum_def max_faulty_def)

end
