(* ===== verification/Pbft_Basic.thy ===== *)
theory Pbft_Basic
  imports Pbft_Codec Quorum
begin

text \<open>
  The basic operations of the consensus engine (\<^verbatim>\<open>src/eth/pbft-core_basic.go\<close>, with the small
  accessors of \<^verbatim>\<open>src/eth/pbft-core.go\<close> and \<^verbatim>\<open>src/eth/worker.go\<close>): status, the pool of
  possible blocks with its clock readings, certificates, and the predicates \<^verbatim>\<open>prePrepared\<close>,
  \<^verbatim>\<open>prepared\<close>, \<^verbatim>\<open>committed\<close> with the vote counts behind them.

  An operation that reads the clock gets the reading as the argument \<open>now\<close>. Locks are not
  modelled: every operation below runs under its lock from beginning to end. Log output and the
  \<^verbatim>\<open>time.Sleep\<close> calls have no counterpart.
\<close>

section \<open>Status of a worker\<close>

definition GetConStatus :: "worker \<Rightarrow> string \<times> u64" where
  "GetConStatus w = (leader w, view w)"

definition GetSelfNodeID :: "worker \<Rightarrow> string" where
  "GetSelfNodeID w = nodeID w"

definition Ready :: "worker \<Rightarrow> bool" where
  "Ready w = ready w"

definition SetReady :: "bool \<Rightarrow> worker \<Rightarrow> worker" where
  "SetReady flag w = w\<lparr>ready := flag\<rparr>"

definition primary :: "worker \<Rightarrow> string" where
  "primary w = fst (GetConStatus w)"

definition ISLeader :: "worker \<Rightarrow> bool" where
  "ISLeader w = (fst (GetConStatus w) = GetSelfNodeID w)"

definition inV :: "u64 \<Rightarrow> worker \<Rightarrow> bool" where
  "inV v w = (snd (GetConStatus w) = v)"

definition GetActiveView :: "worker \<Rightarrow> bool" where
  "GetActiveView w = activeView w"

definition SetActiveView :: "bool \<Rightarrow> worker \<Rightarrow> worker" where
  "SetActiveView flag w = w\<lparr>activeView := flag\<rparr>"

definition setChkpt :: "bool \<Rightarrow> worker \<Rightarrow> worker" where
  "setChkpt flag w = w\<lparr>chkpt := flag\<rparr>"

definition getChkpt :: "worker \<Rightarrow> bool" where
  "getChkpt w = chkpt w"

definition getCurrentCSNum :: "worker \<Rightarrow> int" where
  "getCurrentCSNum w = validators w"

definition updateLeaseBeat :: "time \<Rightarrow> worker \<Rightarrow> worker" where
  "updateLeaseBeat now w = w\<lparr>leaseBeat := now\<rparr>"

definition getLeaseBeat :: "worker \<Rightarrow> time" where
  "getLeaseBeat w = leaseBeat w"

definition updateCheckpointBH :: "u64 \<Rightarrow> worker \<Rightarrow> worker" where
  "updateCheckpointBH bh w = (if checkpointBH w < bh then w\<lparr>checkpointBH := bh\<rparr> else w)"

definition getCheckpointBH :: "worker \<Rightarrow> u64" where
  "getCheckpointBH w = checkpointBH w"

definition ResetCommitStore :: "worker \<Rightarrow> worker" where
  "ResetCommitStore w = w\<lparr>commitStore := gm_empty\<rparr>"

definition SyncConStatus :: "time \<Rightarrow> worker \<Rightarrow> effect list" where
  "SyncConStatus now w =
     (let cq = \<lparr> cq_Timestamp = now, cq_Sender = GetSelfNodeID w \<rparr> in
      [Post \<lparr> cm_Msg = Marshal ConStatusRequest_fields cq, cm_Timestamp = now,
              cm_Type = ''ConStatusRequest'', cm_Sender = GetSelfNodeID w \<rparr>])"

text \<open>\<^verbatim>\<open>bn-1\<close> is unsigned, so height 0 asks for a synchronisation.\<close>

definition JudgeSync :: "time \<Rightarrow> u64 \<Rightarrow> worker \<Rightarrow> bool \<times> effect list" where
  "JudgeSync now bn w =
     (if CurrentBlock w < bn - 1 then (False, PostForceSync # SyncConStatus now w) else (True, []))"

definition CanMining :: "worker \<Rightarrow> bool" where
  "CanMining w =
     (if mining w = 1 then False
      else if gm_has (possibleValidBlock w) (CurrentBlock w + 1) then False
      else ISLeader w \<and> Ready w)"

section \<open>Forwarding\<close>

text \<open>The UTF-8 text of the remark carried by every forwarded message.\<close>

definition forwarded_text :: string where
  "forwarded_text = map byte_char
     [0xE8, 0xBD, 0xAC, 0xE5, 0x8F, 0x91, 0xE6, 0xB6, 0x88, 0xE6, 0x81, 0xAF]"

definition transfer_msg :: "time \<Rightarrow> worker \<Rightarrow> json \<Rightarrow> string \<Rightarrow> string \<Rightarrow> ConsensusMsg2" where
  "transfer_msg now w doc ty sender =
     \<lparr> cm_Msg = doc, cm_Timestamp = now, cm_Type = ty, cm_Sender = sender,
       cm_Newsender = nodeID w, cm_Other = forwarded_text \<rparr>"

definition sendConMsg_transfer1 :: "time \<Rightarrow> PrePrepare \<Rightarrow> string \<Rightarrow> worker \<Rightarrow> effect list" where
  "sendConMsg_transfer1 now msg msgtype w =
     (if pp_Sender msg \<noteq> GetSelfNodeID w
      then [PostTransfer (transfer_msg now w (Marshal PrePrepare_fields msg) msgtype (pp_Sender msg))]
      else [])"

definition sendConMsg_transfer2 :: "time \<Rightarrow> Prepare \<Rightarrow> string \<Rightarrow> worker \<Rightarrow> effect list" where
  "sendConMsg_transfer2 now msg msgtype w =
     (if p_Sender msg \<noteq> GetSelfNodeID w
      then [PostTransfer (transfer_msg now w (Marshal Prepare_fields msg) msgtype (p_Sender msg))]
      else [])"

definition sendConMsg_transfer3 :: "time \<Rightarrow> Commit \<Rightarrow> string \<Rightarrow> worker \<Rightarrow> effect list" where
  "sendConMsg_transfer3 now msg msgtype w =
     (if c_Sender msg \<noteq> GetSelfNodeID w
      then [PostTransfer (transfer_msg now w (Marshal Commit_fields msg) msgtype (c_Sender msg))]
      else [])"

section \<open>The pool of possible blocks and their clock readings\<close>

definition addbeats :: "time \<Rightarrow> string \<Rightarrow> worker \<Rightarrow> worker" where
  "addbeats now n w =
     (if gm_has (blockbeats w) n then w else w\<lparr>blockbeats := gm_put (blockbeats w) n now\<rparr>)"

definition deletbeats :: "string \<Rightarrow> worker \<Rightarrow> worker" where
  "deletbeats n w = w\<lparr>blockbeats := gm_del (blockbeats w) n\<rparr>"

definition putBlockOnPossibleValidBlock :: "Block \<Rightarrow> worker \<Rightarrow> worker" where
  "putBlockOnPossibleValidBlock b w =
     (let a = (case gm_get (possibleValidBlock w) (b_Number b) of None \<Rightarrow> gm_empty | Some bs \<Rightarrow> bs)
      in w\<lparr>possibleValidBlock :=
             gm_put (possibleValidBlock w) (b_Number b) (gm_put a (Block_Hash b) b)\<rparr>)"

definition GetBlockFromPossibleValidBlock :: "u64 \<Rightarrow> string \<Rightarrow> worker \<Rightarrow> Block option" where
  "GetBlockFromPossibleValidBlock bn bhash w =
     (case gm_get (possibleValidBlock w) bn of None \<Rightarrow> None | Some bs \<Rightarrow> gm_get bs bhash)"

definition PutPVBAndBeats :: "time \<Rightarrow> Block \<Rightarrow> worker \<Rightarrow> worker" where
  "PutPVBAndBeats now b w = addbeats now (Block_Hash b) (putBlockOnPossibleValidBlock b w)"

text \<open>
  The nested loops of \<^verbatim>\<open>deleteImpossibleValidBlock\<close>, one entry of \<^verbatim>\<open>possibleValidBlock\<close>
  after the other.
\<close>

definition delete_beats_of :: "(string, Block) gomap \<Rightarrow> (string, time) gomap \<Rightarrow> (string, time) gomap" where
  "delete_beats_of bs beats = foldl (\<lambda>m e. gm_del m (fst e)) beats bs"

definition delete_impossible_entry :: "u64 \<Rightarrow> worker \<Rightarrow> u64 \<times> (string, Block) gomap \<Rightarrow> worker" where
  "delete_impossible_entry dbn s e =
     (case e of (bn, blocks) \<Rightarrow>
        if bn \<le> dbn
        then s\<lparr>blockbeats := delete_beats_of blocks (blockbeats s),
               possibleValidBlock := gm_del (possibleValidBlock s) bn\<rparr>
        else s)"

definition deleteImpossibleValidBlock :: "u64 \<Rightarrow> worker \<Rightarrow> worker" where
  "deleteImpossibleValidBlock dbn w = foldl (delete_impossible_entry dbn) w (possibleValidBlock w)"

fun find_entry_with :: "string \<Rightarrow> (u64, (string, Block) gomap) gomap \<Rightarrow> (u64 \<times> (string, Block) gomap) option" where
  "find_entry_with h [] = None"
| "find_entry_with h ((bn, bs) # r) = (if gm_has bs h then Some (bn, bs) else find_entry_with h r)"

definition deleteImpossibleValidBlockByHash :: "string \<Rightarrow> worker \<Rightarrow> worker" where
  "deleteImpossibleValidBlockByHash h w =
     (case find_entry_with h (possibleValidBlock w) of None \<Rightarrow> w
      | Some (bn, bs) \<Rightarrow>
          let bs' = gm_del bs h in
          w\<lparr>possibleValidBlock :=
              (if gm_len bs' = 0 then gm_del (possibleValidBlock w) bn
               else gm_put (possibleValidBlock w) bn bs')\<rparr>)"

definition GetBlockFromPVBlockByHash :: "string \<Rightarrow> worker \<Rightarrow> Block option \<times> u64" where
  "GetBlockFromPVBlockByHash h w =
     (case find_entry_with h (possibleValidBlock w) of None \<Rightarrow> (None, 0)
      | Some (bn, bs) \<Rightarrow> (gm_get bs h, bn))"

definition getPossibleBHByHash :: "string \<Rightarrow> worker \<Rightarrow> u64 \<times> pbft_err option" where
  "getPossibleBHByHash h w =
     (case find_entry_with h (possibleValidBlock w) of None \<Rightarrow> (0, Some NonSuchBlock)
      | Some (bn, bs) \<Rightarrow> (bn, None))"

definition GetPossibleBHByHash :: "string \<Rightarrow> worker \<Rightarrow> u64 \<times> pbft_err option" where
  "GetPossibleBHByHash h w = getPossibleBHByHash h w"

definition DeletePVBAndBeats :: "u64 \<Rightarrow> string \<Rightarrow> worker \<Rightarrow> worker" where
  "DeletePVBAndBeats bn bhash w = deletbeats bhash (deleteImpossibleValidBlock bn w)"

definition deletePVBAndBeatsByHash :: "string \<Rightarrow> worker \<Rightarrow> worker" where
  "deletePVBAndBeatsByHash bhash w = deleteImpossibleValidBlockByHash bhash (deletbeats bhash w)"

definition DeletePVBAndBeatsByHash :: "string \<Rightarrow> worker \<Rightarrow> worker" where
  "DeletePVBAndBeatsByHash bhash w = deletePVBAndBeatsByHash bhash w"

definition ResetPVBAndBeats :: "worker \<Rightarrow> worker" where
  "ResetPVBAndBeats w = w\<lparr>blockbeats := gm_empty, possibleValidBlock := gm_empty\<rparr>"

section \<open>Requests and certificates\<close>

definition GetRequestFromStore :: "string \<Rightarrow> worker \<Rightarrow> Request option" where
  "GetRequestFromStore reqDigest w = gm_get (reqStore w) reqDigest"

text \<open>
  \<^verbatim>\<open>getCert\<close> returns a pointer into the store and creates the certificate when it is missing.
  \<open>getCert\<close> is its effect on the state, \<open>the_cert\<close> reads through the pointer and \<open>setCert\<close>
  writes through it.
\<close>

definition getCert :: "u64 \<Rightarrow> u64 \<Rightarrow> worker \<Rightarrow> worker" where
  "getCert v n w =
     (if gm_has (certStore w) (v, n) then w
      else w\<lparr>certStore := gm_put (certStore w) (v, n) empty_msgCert\<rparr>)"

definition the_cert :: "u64 \<Rightarrow> u64 \<Rightarrow> worker \<Rightarrow> msgCert" where
  "the_cert v n w = (case gm_get (certStore w) (v, n) of None \<Rightarrow> empty_msgCert | Some c \<Rightarrow> c)"

definition setCert :: "u64 \<Rightarrow> u64 \<Rightarrow> (msgCert \<Rightarrow> msgCert) \<Rightarrow> worker \<Rightarrow> worker" where
  "setCert v n f w = w\<lparr>certStore := gm_put (certStore w) (v, n) (f (the_cert v n w))\<rparr>"

definition putPrePrepareInCert :: "u64 \<Rightarrow> u64 \<Rightarrow> PrePrepare \<Rightarrow> worker \<Rightarrow> worker" where
  "putPrePrepareInCert cview reqID preprep w =
     setCert cview reqID (\<lambda>c. c\<lparr>mc_prePrepare := Some preprep\<rparr>) (getCert cview reqID w)"

section \<open>Phases\<close>

definition prePrepared :: "string \<Rightarrow> u64 \<Rightarrow> u64 \<Rightarrow> worker \<Rightarrow> bool" where
  "prePrepared digest v n w =
     (if digest \<noteq> [] \<and> \<not> gm_has (reqStore w) digest then False
      else case gm_get (certStore w) (v, n) of None \<Rightarrow> False
        | Some cert \<Rightarrow>
            (case mc_prePrepare cert of None \<Rightarrow> False
             | Some p \<Rightarrow> pp_View p = v \<and> pp_ReqID p = n \<and> pp_RequestDigest p = digest))"

definition prepare_matches :: "string \<Rightarrow> u64 \<Rightarrow> u64 \<Rightarrow> Prepare \<Rightarrow> bool" where
  "prepare_matches digest v n p = (p_View p = v \<and> p_ReqID p = n \<and> p_RequestDigest p = digest)"

definition prepared :: "string \<Rightarrow> u64 \<Rightarrow> u64 \<Rightarrow> worker \<Rightarrow> bool" where
  "prepared digest v n w =
     (if \<not> prePrepared digest v n w then False
      else case gm_get (certStore w) (v, n) of None \<Rightarrow> False
        | Some cert \<Rightarrow>
            int (length (filter (prepare_matches digest v n) (mc_prepare cert)))
              \<ge> getQuorum (validators w))"

text \<open>
  The counting loops of \<^verbatim>\<open>committed\<close> and \<^verbatim>\<open>GetValidResFromCommit\<close>; \<open>seen\<close> is the map
  \<^verbatim>\<open>senderCount\<close>.
\<close>

fun count_commits :: "u64 \<Rightarrow> u64 \<Rightarrow> (string, int) gomap \<Rightarrow> Commit list \<Rightarrow> int" where
  "count_commits v n seen [] = 0"
| "count_commits v n seen (p # ps) =
     (if c_View p = v \<and> c_ReqID p = n \<and> \<not> gm_has seen (c_Sender p)
      then 1 + count_commits v n (gm_put seen (c_Sender p) 0) ps
      else count_commits v n seen ps)"

definition committed :: "string \<Rightarrow> u64 \<Rightarrow> u64 \<Rightarrow> worker \<Rightarrow> bool" where
  "committed digest v n w =
     (if \<not> prepared digest v n w then False
      else case gm_get (certStore w) (v, n) of None \<Rightarrow> False
        | Some cert \<Rightarrow> count_commits v n gm_empty (mc_commit cert) \<ge> getQuorum (validators w))"

datatype vote_result = possitive | futurePossitive | negative

fun tally :: "(string, int) gomap \<Rightarrow> Commit list \<Rightarrow> int \<times> int \<times> int" where
  "tally seen [] = (0, 0, 0)"
| "tally seen (com # cs) =
     (if \<not> gm_has seen (c_Sender com)
      then (case tally (gm_put seen (c_Sender com) 0) cs of (al, poss, neg) \<Rightarrow>
              if vr_Opinion (c_VR com) then (al + 1, poss + 1, neg) else (al + 1, poss, neg + 1))
      else tally seen cs)"

definition GetValidResFromCommit :: "msgCert \<Rightarrow> worker \<Rightarrow> vote_result" where
  "GetValidResFromCommit cert w =
     (case tally gm_empty (mc_commit cert) of (al, poss, neg) \<Rightarrow>
        let future = getCurrentCSNum w - al; quorum = getQuorum (validators w) in
        if poss \<ge> quorum then possitive
        else if poss + future \<ge> quorum then futurePossitive
        else negative)"

text \<open>
  \<^verbatim>\<open>txExeCounts\<close>, then the loop for the largest count over one iteration order of that map.
  The key \<^verbatim>\<open>string(p.TxsExeSeqs)\<close> and the value of \<^verbatim>\<open>txExe\<close> under it are the same bytes.
\<close>

fun exe_counts :: "string \<Rightarrow> u64 \<Rightarrow> u64 \<Rightarrow> (bytes, int) gomap \<Rightarrow> Prepare list \<Rightarrow> (bytes, int) gomap" where
  "exe_counts digest v n m [] = m"
| "exe_counts digest v n m (p # ps) =
     exe_counts digest v n
       (if prepare_matches digest v n p \<and> length (p_TxsExeSeqs p) \<noteq> 0
        then gm_put m (p_TxsExeSeqs p) ((case gm_get m (p_TxsExeSeqs p) of None \<Rightarrow> 0 | Some c \<Rightarrow> c) + 1)
        else m) ps"

fun best_exe :: "int \<Rightarrow> bytes \<Rightarrow> (bytes, int) gomap \<Rightarrow> int \<times> bytes" where
  "best_exe count exe [] = (count, exe)"
| "best_exe count exe ((exhash, c) # r) =
     (if c > count then best_exe c exhash r else best_exe count exe r)"

definition getConsensusTxExes :: "string \<Rightarrow> u64 \<Rightarrow> u64 \<Rightarrow> worker \<Rightarrow> pbft_err + bytes" where
  "getConsensusTxExes digest v n w =
     (case gm_get (certStore w) (v, n) of None \<Rightarrow> Inl CertNil
      | Some cert \<Rightarrow>
          (case best_exe 0 [] (exe_counts digest v n gm_empty (mc_prepare cert)) of (count, exe) \<Rightarrow>
             if count \<ge> getQuorum (validators w) then Inr exe else Inl NoTxDepend))"

definition ResetConsensusData :: "worker \<Rightarrow> worker" where
  "ResetConsensusData w = w\<lparr>certStore := gm_empty, reqStore := gm_empty\<rparr>"

definition vrsign :: "worker \<Rightarrow> ValidResultForBlock \<Rightarrow> bool \<times> ValidResultForBlock" where
  "vrsign w vr = (True, vr\<lparr>vr_Sign := nodeID w\<rparr>)"

section \<open>Discarding consensus data\<close>

text \<open>\<open>cancel_consensus\<close> is \<^verbatim>\<open>if consensusCancel != nil { consensusCancel() }\<close>.\<close>

definition cancel_consensus :: "worker \<Rightarrow> worker" where
  "cancel_consensus w = w\<lparr>consensusCtx := map_option (\<lambda>_. True) (consensusCtx w)\<rparr>"

definition removeOldConMsg :: "u64 \<Rightarrow> worker \<Rightarrow> worker" where
  "removeOldConMsg reqID w =
     w\<lparr>certStore := gm_filter (\<lambda>k c. \<not> snd k \<le> reqID) (certStore w),
       reqStore := gm_filter (\<lambda>k r. \<not> rq_ReqID r \<le> reqID) (reqStore w)\<rparr>"

definition ResetConData2 :: "worker \<Rightarrow> worker" where
  "ResetConData2 w =
     cancel_consensus ((ResetPVBAndBeats (w\<lparr>reqStore := gm_empty\<rparr>))
       \<lparr>certStore := gm_empty, w_checkpointStore := gm_empty\<rparr>)"

definition ResetConData :: "worker \<Rightarrow> worker" where
  "ResetConData w =
     (let w1 = SetActiveView True (SetReady False (ResetCommitStore (w\<lparr>view := CurrentBlock w\<rparr>)));
          w2 = ResetPVBAndBeats (w1\<lparr>reqStore := gm_empty\<rparr>)
      in cancel_consensus (w2\<lparr>certStore := gm_empty, w_checkpointStore := gm_empty\<rparr>))"

definition SetTxNum_startconsens :: "int \<Rightarrow> worker \<Rightarrow> worker" where
  "SetTxNum_startconsens num w = w\<lparr>txNum_startconsens := num\<rparr>"

section \<open>Counting\<close>

lemma count_commits_card:
  "count_commits v n seen cs =
     int (card (c_Sender ` {c \<in> set cs. c_View c = v \<and> c_ReqID c = n} - {s. gm_has seen s}))"
proof (induction cs arbitrary: seen)
  case (Cons c cs)
  let ?S = "c_Sender ` {c \<in> set cs. c_View c = v \<and> c_ReqID c = n}"
  have e: "c_Sender ` {d \<in> set (c # cs). c_View d = v \<and> c_ReqID d = n} =
           (if c_View c = v \<and> c_ReqID c = n then insert (c_Sender c) ?S else ?S)"
    by (auto split: if_splits)
  show ?case
  proof (cases "c_View c = v \<and> c_ReqID c = n \<and> \<not> gm_has seen (c_Sender c)")
    case True
    then have "insert (c_Sender c) ?S - {s. gm_has seen s} =
          insert (c_Sender c) (?S - {s. s = c_Sender c \<or> gm_has seen s})" by auto
    then show ?thesis unfolding e using True by (simp add: Cons.IH)
  next
    case False
    then show ?thesis unfolding e by (auto simp: Cons.IH insert_Diff_if)
  qed
qed simp

lemma tally_all:
  "tally seen cs = (al, poss, neg) \<Longrightarrow>
     al = int (card (c_Sender ` set cs - {s. gm_has seen s})) \<and> al = poss + neg \<and> 0 \<le> poss \<and> 0 \<le> neg"
proof (induction cs arbitrary: seen al poss neg)
  case (Cons c cs)
  show ?case
  proof (cases "gm_has seen (c_Sender c)")
    case True
    then show ?thesis using Cons.IH [of seen] Cons.prems by (simp add: insert_Diff_if)
  next
    case False
    obtain a p q where t: "tally (gm_put seen (c_Sender c) 0) cs = (a, p, q)"
      using prod_cases3 by blast
    have "insert (c_Sender c) (c_Sender ` set cs) - {s. gm_has seen s} =
          insert (c_Sender c) (c_Sender ` set cs - {s. s = c_Sender c \<or> gm_has seen s})"
      using False by auto
    then show ?thesis
      using Cons.IH [OF t] Cons.prems False by (auto simp: t split: if_splits)
  qed
qed simp

text \<open>When no sender appears twice every commit is counted, so the tally is a plain count.\<close>

lemma tally_distinct:
  assumes "distinct (map c_Sender cs)" and "\<forall>c \<in> set cs. \<not> gm_has seen (c_Sender c)"
  shows "tally seen cs = (int (length cs), int (length (filter (\<lambda>c. vr_Opinion (c_VR c)) cs)),
           int (length (filter (\<lambda>c. \<not> vr_Opinion (c_VR c)) cs)))"
  using assms
proof (induction cs arbitrary: seen)
  case (Cons c cs)
  then have "tally (gm_put seen (c_Sender c) 0) cs =
     (int (length cs), int (length (filter (\<lambda>c. vr_Opinion (c_VR c)) cs)),
           int (length (filter (\<lambda>c. \<not> vr_Opinion (c_VR c)) cs)))"
    by (intro Cons.IH) (auto simp: image_iff)
  then show ?case using Cons.prems by simp
qed simp

section \<open>Frame and lookup laws\<close>

named_theorems pool_simps \<open>what the operations on the pool change and what they keep\<close>

lemma the_cert_getCert [simp]: "the_cert v n (getCert v' n' w) = the_cert v n w"
  by (simp add: the_cert_def getCert_def gm_has_def split: option.splits)

lemma the_cert_setCert [simp]:
  "the_cert v n (setCert v' n' f w) = (if v = v' \<and> n = n' then f (the_cert v n w) else the_cert v n w)"
  by (simp add: the_cert_def setCert_def)

lemma getCert_get: "gm_get (certStore (getCert v n w)) (v, n) = Some (the_cert v n w)"
  by (simp add: the_cert_def getCert_def gm_has_def split: option.splits)

lemma setCert_get: "gm_get (certStore (setCert v n f w)) (v, n) = Some (f (the_cert v n w))"
  by (simp add: setCert_def)

end
