(* ===== verification/Pbft_Pool.thy ===== *)
theory Pbft_Pool
  imports Pbft_Basic
begin

text \<open>
  The pool of possible blocks (\<^verbatim>\<open>possibleValidBlock\<close>) and the clock readings kept beside it
  (\<^verbatim>\<open>blockbeats\<close>): its invariant, that every operation keeps it, what each operation does to
  a lookup, and what the operations leave alone.
\<close>

section \<open>Frame\<close>

lemma foldl_delete_frame:
  "\<exists>bb pv. foldl (delete_impossible_entry dbn) w l = w\<lparr>blockbeats := bb, possibleValidBlock := pv\<rparr>"
proof (induction l rule: rev_induct)
  case Nil
  have "w = w\<lparr>blockbeats := blockbeats w, possibleValidBlock := possibleValidBlock w\<rparr>" by simp
  then show ?case by (metis foldl_Nil)
next
  case (snoc e l)
  then show ?case
    by (cases e) (auto simp: delete_impossible_entry_def, blast)
qed

lemma deleteImpossible_frame:
  "\<exists>bb pv. deleteImpossibleValidBlock dbn w = w\<lparr>blockbeats := bb, possibleValidBlock := pv\<rparr>"
  unfolding deleteImpossibleValidBlock_def by (rule foldl_delete_frame)

text \<open>
  Every operation on the pool has this form, so that no other part of the state changes.
\<close>

definition pool_only :: "(worker \<Rightarrow> worker) \<Rightarrow> bool" where
  "pool_only f \<longleftrightarrow> (\<forall>w. f w = w\<lparr>blockbeats := blockbeats (f w),
                               possibleValidBlock := possibleValidBlock (f w)\<rparr>)"

lemma pool_only_simps:
  assumes "pool_only f"
  shows "CurrentBlock (f w) = CurrentBlock w" "view (f w) = view w" "ready (f w) = ready w"
    "leader (f w) = leader w" "nodeID (f w) = nodeID w" "validators (f w) = validators w"
    "reqStore (f w) = reqStore w" "certStore (f w) = certStore w"
    "commitStore (f w) = commitStore w" "LastReqID (f w) = LastReqID w"
    "checkpointStore (f w) = checkpointStore w" "checkpointBH (f w) = checkpointBH w"
    "prepreflag (f w) = prepreflag w" "preflag (f w) = preflag w" "mining (f w) = mining w"
    "consensusCtx (f w) = consensusCtx w" "current_work (f w) = current_work w"
    "leaseBeat (f w) = leaseBeat w"
  by (subst assms [unfolded pool_only_def, rule_format], simp)+

lemma pool_only_PutPVB: "pool_only (PutPVBAndBeats now b)"
  by (simp add: pool_only_def PutPVBAndBeats_def addbeats_def putBlockOnPossibleValidBlock_def Let_def)

lemma pool_only_Delete: "pool_only (DeletePVBAndBeats bn h)"
proof -
  have "DeletePVBAndBeats bn h w = w\<lparr>blockbeats := blockbeats (DeletePVBAndBeats bn h w),
          possibleValidBlock := possibleValidBlock (DeletePVBAndBeats bn h w)\<rparr>" for w
    using deleteImpossible_frame [of bn w] by (auto simp: DeletePVBAndBeats_def deletbeats_def)
  then show ?thesis unfolding pool_only_def by blast
qed

lemma pool_only_DeleteByHash: "pool_only (DeletePVBAndBeatsByHash h)"
  by (auto simp: pool_only_def DeletePVBAndBeatsByHash_def deletePVBAndBeatsByHash_def
      deleteImpossibleValidBlockByHash_def deletbeats_def Let_def split: option.splits)

lemma pool_only_Reset: "pool_only ResetPVBAndBeats"
  by (simp add: pool_only_def ResetPVBAndBeats_def)

lemmas pool_frame [simp] = pool_only_simps [OF pool_only_PutPVB]
  pool_only_simps [OF pool_only_Delete] pool_only_simps [OF pool_only_DeleteByHash]
  pool_only_simps [OF pool_only_Reset]

section \<open>Lookups\<close>

lemma delete_beats_of_get:
  "gm_get (delete_beats_of bs beats) h = (if gm_has bs h then None else gm_get beats h)"
  unfolding gm_key [symmetric]
  by (induction bs arbitrary: beats) (auto simp: delete_beats_of_def)

lemma gm_ok_delete_beats_of: "gm_ok beats \<Longrightarrow> gm_ok (delete_beats_of bs beats)"
  by (induction bs arbitrary: beats) (auto simp: delete_beats_of_def)

lemma foldl_delete_pvb:
  "gm_get (possibleValidBlock (foldl (delete_impossible_entry dbn) w l)) bn =
     (if bn \<le> dbn \<and> bn \<in> fst ` set l then None else gm_get (possibleValidBlock w) bn)"
  by (induction l arbitrary: w) (auto simp: delete_impossible_entry_def)

lemma foldl_delete_beats:
  "gm_get (blockbeats (foldl (delete_impossible_entry dbn) w l)) h =
     (if \<exists>e \<in> set l. fst e \<le> dbn \<and> gm_has (snd e) h then None else gm_get (blockbeats w) h)"
  by (induction l arbitrary: w) (auto simp: delete_impossible_entry_def delete_beats_of_get)

lemma foldl_delete_ok:
  "gm_ok (possibleValidBlock w) \<Longrightarrow> gm_ok (possibleValidBlock (foldl (delete_impossible_entry dbn) w l))"
  "gm_ok (blockbeats w) \<Longrightarrow> gm_ok (blockbeats (foldl (delete_impossible_entry dbn) w l))"
  by (induction l arbitrary: w) (auto simp: delete_impossible_entry_def gm_ok_delete_beats_of)

lemma deleteImpossible_pvb:
  "gm_get (possibleValidBlock (deleteImpossibleValidBlock dbn w)) bn =
     (if bn \<le> dbn then None else gm_get (possibleValidBlock w) bn)"
  using gm_has_def [of "possibleValidBlock w" bn]
  by (auto simp: deleteImpossibleValidBlock_def foldl_delete_pvb gm_key split: option.splits)

lemma deleteImpossible_beats:
  assumes "gm_ok (possibleValidBlock w)"
  shows "gm_get (blockbeats (deleteImpossibleValidBlock dbn w)) h =
     (if \<exists>bn bs. gm_get (possibleValidBlock w) bn = Some bs \<and> bn \<le> dbn \<and> gm_has bs h
      then None else gm_get (blockbeats w) h)"
  using gm_ok_member [OF assms]
  by (auto simp: deleteImpossibleValidBlock_def foldl_delete_beats Bex_def)

section \<open>The invariant of the pool\<close>

definition entry_ok :: "u64 \<Rightarrow> (string, Block) gomap \<Rightarrow> bool" where
  "entry_ok bn bs \<longleftrightarrow> bs \<noteq> gm_empty \<and> (\<forall>h b. gm_get bs h = Some b \<longrightarrow> b_Number b = bn \<and> h = Block_Hash b)"

definition pool_ok :: "worker \<Rightarrow> bool" where
  "pool_ok w \<longleftrightarrow> gm_ok (possibleValidBlock w) \<and> gm_ok (blockbeats w)
     \<and> (\<forall>bn bs. gm_get (possibleValidBlock w) bn = Some bs \<longrightarrow> entry_ok bn bs)
     \<and> (\<forall>h. gm_has (blockbeats w) h \<longrightarrow> (\<exists>bn bs. gm_get (possibleValidBlock w) bn = Some bs \<and> gm_has bs h))"

lemma pool_okD:
  assumes "pool_ok w"
  shows "gm_ok (possibleValidBlock w)"
    and "\<And>bn bs. gm_get (possibleValidBlock w) bn = Some bs \<Longrightarrow> entry_ok bn bs"
    and "\<And>h. gm_has (blockbeats w) h \<Longrightarrow> \<exists>bn bs. gm_get (possibleValidBlock w) bn = Some bs \<and> gm_has bs h"
    and "gm_ok (blockbeats w)"
  using assms by (auto simp: pool_ok_def)

lemma pool_ok_cong:
  "blockbeats w' = blockbeats w \<Longrightarrow> possibleValidBlock w' = possibleValidBlock w \<Longrightarrow>
   pool_ok w \<Longrightarrow> pool_ok w'"
  by (simp add: pool_ok_def)

lemma entry_ok_put: "entry_ok (b_Number b) bs \<or> bs = gm_empty \<Longrightarrow> entry_ok (b_Number b) (gm_put bs (Block_Hash b) b)"
  by (auto simp: entry_ok_def gm_empty_iff)

lemma pool_ok_Put: "pool_ok w \<Longrightarrow> pool_ok (PutPVBAndBeats now b w)"
proof -
  assume w: "pool_ok w"
  let ?m = "possibleValidBlock w"
  let ?a = "case gm_get ?m (b_Number b) of None \<Rightarrow> gm_empty | Some bs \<Rightarrow> bs"
  have a: "entry_ok (b_Number b) (gm_put ?a (Block_Hash b) b)"
    using pool_okD(2) [OF w] by (intro entry_ok_put) (auto split: option.splits)
  have m: "possibleValidBlock (PutPVBAndBeats now b w) = gm_put ?m (b_Number b) (gm_put ?a (Block_Hash b) b)"
    by (simp add: PutPVBAndBeats_def addbeats_def putBlockOnPossibleValidBlock_def Let_def)
  have t: "gm_has (blockbeats (PutPVBAndBeats now b w)) h \<longleftrightarrow> h = Block_Hash b \<or> gm_has (blockbeats w) h" for h
    by (auto simp: PutPVBAndBeats_def addbeats_def putBlockOnPossibleValidBlock_def Let_def)
  have "\<exists>bn bs. gm_get (gm_put ?m (b_Number b) (gm_put ?a (Block_Hash b) b)) bn = Some bs \<and> gm_has bs h"
    if h: "h = Block_Hash b \<or> gm_has (blockbeats w) h" for h
  proof (cases "h = Block_Hash b")
    case False
    then obtain bn bs where "gm_get ?m bn = Some bs" "gm_has bs h"
      using h pool_okD(3) [OF w] by blast
    then show ?thesis by (cases "bn = b_Number b") auto
  qed (auto intro: exI [of _ "b_Number b"])
  then show ?thesis
    using a pool_okD(1,2,4) [OF w]
    by (auto simp: pool_ok_def m t) (simp add: PutPVBAndBeats_def addbeats_def
        putBlockOnPossibleValidBlock_def Let_def)
qed

lemma pool_ok_Delete: "pool_ok w \<Longrightarrow> pool_ok (DeletePVBAndBeats bn h w)"
proof -
  assume w: "pool_ok w"
  have "gm_ok (possibleValidBlock (deleteImpossibleValidBlock bn w))"
    "gm_ok (blockbeats (deleteImpossibleValidBlock bn w))"
    using foldl_delete_ok(1) [OF pool_okD(1) [OF w]] foldl_delete_ok(2) [OF pool_okD(4) [OF w]]
    by (simp_all add: deleteImpossibleValidBlock_def)
  moreover have "\<exists>b bs. gm_get (possibleValidBlock (deleteImpossibleValidBlock bn w)) b = Some bs \<and> gm_has bs k"
    if t: "gm_has (blockbeats (deleteImpossibleValidBlock bn w)) k" for k
  proof -
    have "gm_has (blockbeats w) k"
      and "\<not> (\<exists>b bs. gm_get (possibleValidBlock w) b = Some bs \<and> b \<le> bn \<and> gm_has bs k)"
      using t deleteImpossible_beats [OF pool_okD(1) [OF w], of bn k]
      by (auto simp: gm_has_def split: if_splits option.splits)
    then show ?thesis using pool_okD(3) [OF w, of k] by (auto simp: deleteImpossible_pvb)
  qed
  ultimately show ?thesis
    using pool_okD(2) [OF w]
    by (auto simp: pool_ok_def DeletePVBAndBeats_def deletbeats_def deleteImpossible_pvb split: if_splits)
qed

lemma find_entry_Some:
  "find_entry_with h m = Some (bn, bs) \<Longrightarrow> (bn, bs) \<in> set m \<and> gm_has bs h"
  by (induction m) (auto split: if_splits)

lemma find_entry_None: "find_entry_with h m = None \<longleftrightarrow> (\<forall>e \<in> set m. \<not> gm_has (snd e) h)"
  by (induction m) (auto split: if_splits)

lemma find_entry_pool:
  assumes "pool_ok w"
  shows "find_entry_with h (possibleValidBlock w) = Some (bn, bs) \<longleftrightarrow>
         gm_get (possibleValidBlock w) bn = Some bs \<and> gm_has bs h"
proof
  assume "find_entry_with h (possibleValidBlock w) = Some (bn, bs)"
  then show "gm_get (possibleValidBlock w) bn = Some bs \<and> gm_has bs h"
    using find_entry_Some gm_ok_member [OF pool_okD(1) [OF assms]] by blast
next
  assume r: "gm_get (possibleValidBlock w) bn = Some bs \<and> gm_has bs h"
  then have "(bn, bs) \<in> set (possibleValidBlock w)"
    using gm_ok_member [OF pool_okD(1) [OF assms]] by blast
  then obtain bn' bs' where f: "find_entry_with h (possibleValidBlock w) = Some (bn', bs')"
    using r find_entry_None [of h "possibleValidBlock w"] by fastforce
  then have g: "gm_get (possibleValidBlock w) bn' = Some bs'" "gm_has bs' h"
    using find_entry_Some gm_ok_member [OF pool_okD(1) [OF assms]] by blast+
  obtain b b' where "gm_get bs h = Some b" "gm_get bs' h = Some b'"
    using r g(2) by (auto simp: gm_has_iff)
  then have "b_Number b = bn" "b_Number b' = bn'" "Block_Hash b = Block_Hash b'"
    using pool_okD(2) [OF assms] r g(1) by (auto simp: entry_ok_def)
  then have "bn' = bn" by (simp add: Block_Hash_eq_iff)
  then show "find_entry_with h (possibleValidBlock w) = Some (bn, bs)" using f g r by simp
qed

lemma pool_ok_DeleteByHash: "pool_ok w \<Longrightarrow> pool_ok (DeletePVBAndBeatsByHash h w)"
proof -
  assume w: "pool_ok w"
  let ?w = "deletbeats h w"
  have sub: "\<And>k. gm_has (blockbeats ?w) k \<longleftrightarrow> k \<noteq> h \<and> gm_has (blockbeats w) k"
    and pv: "possibleValidBlock ?w = possibleValidBlock w" and ok: "gm_ok (blockbeats ?w)"
    using pool_okD(4) [OF w] by (auto simp: deletbeats_def)
  show ?thesis
  proof (cases "find_entry_with h (possibleValidBlock w)")
    case None
    then show ?thesis using w sub pv ok
      by (auto simp: DeletePVBAndBeatsByHash_def deletePVBAndBeatsByHash_def
          deleteImpossibleValidBlockByHash_def pool_ok_def)
  next
    case (Some e)
    obtain bn bs where e: "e = (bn, bs)" by (cases e)
    have g: "gm_get (possibleValidBlock w) bn = Some bs" "gm_has bs h"
      using Some find_entry_pool [OF w] by (auto simp: e)
    have s: "entry_ok bn (gm_del bs h)" if "gm_del bs h \<noteq> gm_empty"
      using pool_okD(2) [OF w g(1)] that by (auto simp: entry_ok_def split: if_splits)
    have o: "\<exists>bn' bs'. gm_get (if gm_len (gm_del bs h) = 0 then gm_del (possibleValidBlock w) bn
                else gm_put (possibleValidBlock w) bn (gm_del bs h)) bn' = Some bs' \<and> gm_has bs' k"
      if n: "k \<noteq> h" and t: "gm_has (blockbeats w) k" for k
    proof -
      obtain bn' bs' where k: "gm_get (possibleValidBlock w) bn' = Some bs'" "gm_has bs' k"
        using pool_okD(3) [OF w t] by blast
      show ?thesis
      proof (cases "bn' = bn")
        case True
        then have d: "gm_has (gm_del bs h) k" using k g(1) n by simp
        then have "gm_del bs h \<noteq> gm_empty" by (metis gm_has_empty)
        then show ?thesis using d by (intro exI [of _ bn] exI [of _ "gm_del bs h"]) simp
      next
        case False
        then show ?thesis using k by (intro exI [of _ bn'] exI [of _ bs']) simp
      qed
    qed
    have r: "possibleValidBlock (DeletePVBAndBeatsByHash h w) =
               (if gm_len (gm_del bs h) = 0 then gm_del (possibleValidBlock w) bn
                else gm_put (possibleValidBlock w) bn (gm_del bs h))"
      and t: "blockbeats (DeletePVBAndBeatsByHash h w) = blockbeats ?w"
      using Some by (simp_all add: DeletePVBAndBeatsByHash_def deletePVBAndBeatsByHash_def Let_def e
          deleteImpossibleValidBlockByHash_def deletbeats_def)
    show ?thesis unfolding pool_ok_def r t
    proof (intro conjI allI impI)
      show "gm_ok (if gm_len (gm_del bs h) = 0 then gm_del (possibleValidBlock w) bn
                   else gm_put (possibleValidBlock w) bn (gm_del bs h))"
        using pool_okD(1) [OF w] by simp
      show "gm_ok (blockbeats ?w)" by (rule ok)
    next
      fix k assume "gm_has (blockbeats ?w) k"
      then show "\<exists>bn' bs'. gm_get (if gm_len (gm_del bs h) = 0 then gm_del (possibleValidBlock w) bn
                   else gm_put (possibleValidBlock w) bn (gm_del bs h)) bn' = Some bs' \<and> gm_has bs' k"
        using o sub by blast
    qed (use pool_okD(2) [OF w] s in \<open>auto split: if_splits\<close>)
  qed
qed

lemma pool_ok_Reset: "pool_ok (ResetPVBAndBeats w)"
  by (simp add: pool_ok_def ResetPVBAndBeats_def)

lemma GetBlock_Put:
  "GetBlockFromPossibleValidBlock bn h (PutPVBAndBeats now b w) =
     (if bn = b_Number b \<and> h = Block_Hash b then Some b else GetBlockFromPossibleValidBlock bn h w)"
  by (simp add: GetBlockFromPossibleValidBlock_def PutPVBAndBeats_def addbeats_def
      putBlockOnPossibleValidBlock_def Let_def split: option.splits)

lemma GetBlock_Delete:
  "GetBlockFromPossibleValidBlock bn h (DeletePVBAndBeats dbn bhash w) =
     (if bn \<le> dbn then None else GetBlockFromPossibleValidBlock bn h w)"
  by (simp add: GetBlockFromPossibleValidBlock_def DeletePVBAndBeats_def deletbeats_def
      deleteImpossible_pvb)

lemma GetBlock_in_pool:
  "pool_ok w \<Longrightarrow> GetBlockFromPossibleValidBlock bn h w \<noteq> None \<longleftrightarrow>
     (\<exists>bs. find_entry_with h (possibleValidBlock w) = Some (bn, bs))"
  by (auto simp: find_entry_pool GetBlockFromPossibleValidBlock_def gm_has_iff split: option.splits)

lemma GetBlock_DeleteByHash:
  assumes w: "pool_ok w"
  shows "GetBlockFromPossibleValidBlock bn k (DeletePVBAndBeatsByHash h w) =
     (if k = h then None else GetBlockFromPossibleValidBlock bn k w)"
proof (cases "find_entry_with h (possibleValidBlock w)")
  case None
  then have "GetBlockFromPossibleValidBlock bn h w = None"
    using GetBlock_in_pool [OF w, of bn h] by auto
  with None show ?thesis
    by (auto simp: DeletePVBAndBeatsByHash_def deletePVBAndBeatsByHash_def deletbeats_def
        deleteImpossibleValidBlockByHash_def GetBlockFromPossibleValidBlock_def)
next
  case (Some e)
  obtain bn' bs where e: "e = (bn', bs)" by (cases e)
  have g: "gm_get (possibleValidBlock w) bn' = Some bs" "gm_has bs h"
    using Some find_entry_pool [OF w] by (auto simp: e)
  have "GetBlockFromPossibleValidBlock bn h w = None" if "bn \<noteq> bn'"
    using GetBlock_in_pool [OF w, of bn h] that Some by (auto simp: e)
  moreover have "gm_get bs k = None" if "gm_len (gm_del bs h) = 0" "k \<noteq> h"
    using that gm_get_del [of bs h k] by auto
  ultimately show ?thesis using Some g(1)
    by (auto simp: DeletePVBAndBeatsByHash_def deletePVBAndBeatsByHash_def deletbeats_def e Let_def
        deleteImpossibleValidBlockByHash_def GetBlockFromPossibleValidBlock_def split: option.splits)
qed

lemma blockbeats_DeleteByHash [simp]:
  "blockbeats (DeletePVBAndBeatsByHash h w) = gm_del (blockbeats w) h"
  by (simp add: DeletePVBAndBeatsByHash_def deletePVBAndBeatsByHash_def deletbeats_def Let_def
      deleteImpossibleValidBlockByHash_def split: option.splits)

end
