(* ===== verification/Pbft_Core.thy ===== *)
theory Pbft_Core
  imports Pbft_Pool
begin

text \<open>
  The handlers of the consensus engine (\<^verbatim>\<open>src/eth/pbft-core.go\<close>): sending a request and
  receiving requests, pre-prepares, prepares, commits and checkpoints.

  A handler is a function from the state to its outcome: the error returned, the new state and the
  effects in the order the code starts them (\<open>Post\<close> for \<^verbatim>\<open>go PbftMux.Post\<close>, \<open>Spawn\<close> for a
  handler started as a goroutine). All clock readings of one run of a handler are the argument
  \<open>now\<close>. A panic inside a handler that has a deferred \<^verbatim>\<open>recover\<close> ends it with \<open>CatchPanic\<close>
  and keeps what was written before; where nobody recovers the outcome is \<open>Crash\<close>.
\<close>

section \<open>Requests\<close>

definition make_request :: "time \<Rightarrow> Raaaa \<Rightarrow> worker \<Rightarrow> Request" where
  "make_request now r w =
     \<lparr> rq_ReqID = LastReqID w, rq_Sender = GetSelfNodeID w, rq_View = snd (GetConStatus w),
       rq_Timestamp = now, rq_BlockHeight = b_Number (ra_Block r),
       rq_BlockHash = Block_Hash (ra_Block r), rq_BlockCreator = HexToAddress (GetSelfNodeID w),
       rq_Block = ra_Blockbyte r, rq_Realblock = Some (ra_Block r) \<rparr>"

definition SendRequest :: "time \<Rightarrow> Raaaa \<Rightarrow> worker \<Rightarrow> worker \<times> effect list" where
  "SendRequest now r w =
     (let w1 = w\<lparr>LastReqID := LastReqID w + 1\<rparr>; bh = b_Number (ra_Block r) in
      if bh \<le> CurrentBlock w1 then (w1, [])
      else
        let req = make_request now r w1;
            cmsg = \<lparr> cm_Msg = Marshal Request_fields req, cm_Timestamp = now,
                     cm_Type = ''PBFTRequest'', cm_Sender = GetSelfNodeID w1 \<rparr>
        in (w1, [Spawn (TRecvRequest req), Post cmsg]))"

definition note_reqID :: "u64 \<Rightarrow> worker \<Rightarrow> worker" where
  "note_reqID n w = (if LastReqID w < n then w\<lparr>LastReqID := n\<rparr> else w)"

definition send_preprepare :: "time \<Rightarrow> Request \<Rightarrow> string \<Rightarrow> worker \<Rightarrow> outcome" where
  "send_preprepare now req digest w =
     (let preprep = \<lparr> pp_Sender = GetSelfNodeID w, pp_View = rq_View req, pp_Timestamp = now,
                      pp_ReqID = rq_ReqID req, pp_RequestDigest = digest, pp_Request = Some req \<rparr>;
          cmsg = \<lparr> cm_Msg = Marshal PrePrepare_fields preprep, cm_Timestamp = now,
                   cm_Type = ''PBFTPrePrepare'', cm_Sender = GetSelfNodeID w \<rparr>
      in case rq_Realblock req of
           None \<Rightarrow> (Some Crash, w, [])
         | Some block \<Rightarrow>
             (None,
              putPrePrepareInCert (rq_View req) (rq_ReqID req) preprep (PutPVBAndBeats now block w),
              [Spawn (TRecvPrePrepare preprep), Post cmsg]))"

definition RecvRequest :: "time \<Rightarrow> Request \<Rightarrow> worker \<Rightarrow> outcome" where
  "RecvRequest now req w =
     (let w1 = note_reqID (rq_ReqID req) w in
      if \<not> Ready w1 then (Some BeingSelection, w1, [])
      else case GetConStatus w1 of (cleader, cview) \<Rightarrow>
        if rq_Sender req \<noteq> cleader \<or> rq_View req < cview then (Some WrongLeaderOrView, w1, [])
        else
          let digest = newhashReq req in
          if gm_has (reqStore w1) digest then (Some ReqExists, w1, [])
          else if rq_BlockHeight req \<le> CurrentBlock w1 then (Some AlreadyOnchain, w1, [])
          else
            let w2 = w1\<lparr>reqStore := gm_put (reqStore w1) digest req\<rparr> in
            if inV (rq_View req) w2 then send_preprepare now req digest w2
            else (None, w2, []))"

section \<open>Pre-prepares\<close>

text \<open>The request of a pre-prepare whose digest is not stored yet.\<close>

definition accept_request :: "PrePrepare \<Rightarrow> worker \<Rightarrow> pbft_err option \<times> worker" where
  "accept_request preprep w =
     (if gm_has (reqStore w) (pp_RequestDigest preprep) then (None, w)
      else case pp_Request preprep of
        None \<Rightarrow> (Some CatchPanic, w)
      | Some req \<Rightarrow>
          (case GetConStatus w of (cleader, cview) \<Rightarrow>
             if rq_Sender req \<noteq> cleader \<or> rq_View req < cview then (Some WrongLeaderOrView, w)
             else
               let w1 = note_reqID (pp_ReqID preprep) w in
               (None, w1\<lparr>reqStore := gm_put (reqStore w1) (pp_RequestDigest preprep) req\<rparr>)))"

definition track_preprepare :: "PrePrepare \<Rightarrow> Request \<Rightarrow> worker \<Rightarrow> worker \<times> effect list" where
  "track_preprepare preprep req w =
     (let v = pp_View preprep; n = rq_ReqID req; cert = the_cert v n w in
      if (case mc_prePrepare cert of None \<Rightarrow> False
          | Some p \<Rightarrow> pp_RequestDigest p \<noteq> pp_RequestDigest preprep)
      then (w, [])
      else
        let w1 = setCert v n (\<lambda>c. c\<lparr>mc_prePrepare := Some preprep, mc_IsPrepre := True\<rparr>) w;
            cert1 = the_cert v n w1
        in (w1,
            if prepared (pp_RequestDigest preprep) v n w1 \<and> \<not> mc_sentCommit cert1
            then (case mc_prepare cert1 of [] \<Rightarrow> [] | p # _ \<Rightarrow> [Spawn (TRecvPrepare_notTransfer p)])
            else []))"

definition make_prepare :: "time \<Rightarrow> PrePrepare \<Rightarrow> Block \<Rightarrow> worker \<Rightarrow> Prepare" where
  "make_prepare now preprep block w =
     (case TxDependency (Block_Transactions block) of (_, objects_ExeSeqs, dependency_TX) \<Rightarrow>
        let txsExe = \<lparr> te_Objects_ExeSeqs = objects_ExeSeqs, te_Dependency_TX = dependency_TX \<rparr> in
        \<lparr> p_Sender = GetSelfNodeID w, p_View = pp_View preprep, p_Timestamp = now,
          p_ReqID = pp_ReqID preprep, p_RequestDigest = pp_RequestDigest preprep,
          p_TxsExeSeqs = string_bytes (Tostring_TxsExeSequences txsExe),
          p_RealTxsExeSeqs = Some txsExe \<rparr>)"

definition cast_prepare :: "time \<Rightarrow> PrePrepare \<Rightarrow> Request \<Rightarrow> Block \<Rightarrow> worker \<Rightarrow> outcome" where
  "cast_prepare now preprep req block w =
     (if prePrepared (pp_RequestDigest preprep) (pp_View preprep) (pp_ReqID preprep) w
         \<and> \<not> mc_sentPrepare (the_cert (pp_View preprep) (rq_ReqID req) w)
      then
        let w1 = (if prepreflag w = 0 then w\<lparr>prepreflag := 1\<rparr> else w);
            prep = make_prepare now preprep block w1;
            cmsg = \<lparr> cm_Msg = Marshal Prepare_fields prep, cm_Timestamp = now,
                     cm_Type = ''PBFTPrepare'', cm_Sender = GetSelfNodeID w1 \<rparr>;
            w2 = setCert (pp_View preprep) (rq_ReqID req) (\<lambda>c. c\<lparr>mc_sentPrepare := True\<rparr>) w1
        in (None, w2, [Post cmsg, Spawn (TRecvPrepare prep)]
                        @ sendConMsg_transfer1 now preprep ''PBFTPrePrepare'' w2)
      else (None, w, []))"

definition send_prepare :: "time \<Rightarrow> PrePrepare \<Rightarrow> Request \<Rightarrow> worker \<Rightarrow> outcome" where
  "send_prepare now preprep req w =
     (if \<not> prePrepared (pp_RequestDigest preprep) (pp_View preprep) (pp_ReqID preprep) w
      then (None, w, [])
      else if \<not> gm_has (reqStore w) (pp_RequestDigest preprep) \<and> newhashReq req \<noteq> pp_RequestDigest preprep
      then (None, w, [])
      else
        let w1 = (if \<not> gm_has (reqStore w) (pp_RequestDigest preprep)
                  then w\<lparr>reqStore := gm_put (reqStore w) (newhashReq req) req\<rparr> else w)
        in case GetBlockFromPossibleValidBlock (rq_BlockHeight req) (rq_BlockHash req) w1 of
             Some block \<Rightarrow> cast_prepare now preprep req block w1
           | None \<Rightarrow>
               (case rq_Realblock req of
                  None \<Rightarrow> (Some CatchPanic, w1, [])
                | Some block \<Rightarrow> cast_prepare now preprep req block (PutPVBAndBeats now block w1)))"

definition RecvPrePrepare :: "time \<Rightarrow> PrePrepare \<Rightarrow> worker \<Rightarrow> outcome" where
  "RecvPrePrepare now preprep w =
     (if \<not> inV (pp_View preprep) w then (None, w, [])
      else if \<not> Ready w then (Some BeingSelection, w, [])
      else case accept_request preprep w of
        (Some e, w1) \<Rightarrow> (Some e, w1, [])
      | (None, w1) \<Rightarrow>
          (case pp_Request preprep of
             None \<Rightarrow> (Some CatchPanic, w1, [])
           | Some req \<Rightarrow>
               if rq_BlockHeight req \<le> CurrentBlock w1 then (Some AlreadyOnchain, w1, [])
               else
                 let w2 = getCert (pp_View preprep) (rq_ReqID req) w1 in
                 if prePrepared (pp_RequestDigest preprep) (pp_View preprep) (pp_ReqID preprep) w2
                    \<and> mc_sentPrepare (the_cert (pp_View preprep) (rq_ReqID req) w2)
                 then (None, w2, [])
                 else
                   (case track_preprepare preprep req w2 of (w3, effs) \<Rightarrow>
                      case send_prepare now preprep req w3 of (e, w4, effs') \<Rightarrow> (e, w4, effs @ effs'))))"

section \<open>Prepares\<close>

definition make_commit :: "time \<Rightarrow> Prepare \<Rightarrow> Request \<Rightarrow> bool \<Rightarrow> worker \<Rightarrow> Commit" where
  "make_commit now prep req opnion w =
     (let vr = \<lparr> vr_Sender = GetSelfNodeID w, vr_BlockHeight = rq_BlockHeight req,
                 vr_BlockHash = rq_BlockHash req, vr_BlockCreator = rq_BlockCreator req,
                 vr_Opinion = opnion, vr_Sign = '''' \<rparr>
      in \<lparr> c_Sender = GetSelfNodeID w, c_View = p_View prep, c_Timestamp = now,
           c_ReqID = p_ReqID prep, c_RequestDigest = p_RequestDigest prep, c_VR = snd (vrsign w vr) \<rparr>)"

definition judge_block :: "Prepare \<Rightarrow> Block \<Rightarrow> worker \<Rightarrow> bool" where
  "judge_block prep block w =
     (is_valid block \<and>
      (case getConsensusTxExes (p_RequestDigest prep) (p_View prep) (p_ReqID prep) w of
         Inl _ \<Rightarrow> False | Inr _ \<Rightarrow> True))"

text \<open>
  The lookup of the commit sent for this height, its entry, and the removal of the entries below
  the current height, all under \<^verbatim>\<open>commitMux\<close>.
\<close>

definition record_commit :: "u64 \<Rightarrow> string \<Rightarrow> worker \<Rightarrow> bool \<times> worker" where
  "record_commit height hash w =
     (let ok = gm_has (commitStore w) height;
          cs1 = (if ok then commitStore w else gm_put (commitStore w) height hash);
          cs2 = gm_filter (\<lambda>bh _. \<not> bh < CurrentBlock w) cs1
      in (ok, w\<lparr>commitStore := cs2\<rparr>))"

definition commit_msg :: "time \<Rightarrow> Commit \<Rightarrow> worker \<Rightarrow> ConsensusMsg" where
  "commit_msg now commit w =
     \<lparr> cm_Msg = Marshal Commit_fields commit, cm_Timestamp = now, cm_Type = ''PBFTCommit'',
       cm_Sender = GetSelfNodeID w \<rparr>"

definition cast_commit :: "time \<Rightarrow> Prepare \<Rightarrow> Request \<Rightarrow> worker \<Rightarrow> outcome" where
  "cast_commit now prep req w =
     (if rq_BlockHeight req \<le> CurrentBlock w then (Some CommitSent, w, [])
      else
        case (case GetBlockFromPossibleValidBlock (rq_BlockHeight req) (rq_BlockHash req) w of
                Some b \<Rightarrow> Some b | None \<Rightarrow> rq_Realblock req) of
          None \<Rightarrow> (Some CatchPanic, w, [])
        | Some block \<Rightarrow>
            let opnion = judge_block prep block w;
                commit = make_commit now prep req opnion w
            in case record_commit (rq_BlockHeight req) (rq_BlockHash req) w of (ok, w1) \<Rightarrow>
                 if ok then (Some CommitSent2, w1, [])
                 else (None,
                       setCert (p_View prep) (p_ReqID prep) (\<lambda>c. c\<lparr>mc_sentCommit := True\<rparr>) w1,
                       [Post (commit_msg now commit w1), Spawn (TRecvCommit commit)]))"

definition append_prepare :: "Prepare \<Rightarrow> worker \<Rightarrow> worker" where
  "append_prepare prep w =
     setCert (p_View prep) (p_ReqID prep) (\<lambda>c. c\<lparr>mc_prepare := mc_prepare c @ [prep]\<rparr>) w"

definition RecvPrepare :: "time \<Rightarrow> Prepare \<Rightarrow> worker \<Rightarrow> outcome" where
  "RecvPrepare now prep w =
     (let d = p_RequestDigest prep; v = p_View prep; n = p_ReqID prep in
      if \<not> inV v w then (Some PrepareViewWrong, w, [])
      else if \<not> Ready w then (Some BeingSelection, w, [])
      else
        let w1 = getCert v n w; cert = the_cert v n w1 in
        if list_ex (\<lambda>p. p_Sender p = p_Sender prep) (mc_prepare cert)
        then (Some DuplicatePrepare, w1, [])
        else case GetRequestFromStore d w1 of
          None \<Rightarrow> (Some NoReq, w1, [])
        | Some req \<Rightarrow>
            if rq_BlockHeight req \<le> CurrentBlock w1 then (Some AlreadyOnchain, w1, [])
            else if gm_has (commitStore w1) (rq_BlockHeight req) then (Some CommitSent, w1, [])
            else if prepared d v n w1 \<and> mc_sentCommit cert then (Some AlreadyPrepared, w1, [])
            else
              let w2 = append_prepare prep w1 in
              if prepared d v n w2 \<and> \<not> mc_sentCommit (the_cert v n w2)
              then
                let w3 = (if preflag w2 = 0 then w2\<lparr>preflag := 1\<rparr> else w2) in
                (case cast_commit now prep req w3 of
                   (Some e, w4, effs) \<Rightarrow> (Some e, w4, effs)
                 | (None, w4, effs) \<Rightarrow>
                     (None, w4, effs @ sendConMsg_transfer2 now prep ''PBFTPrepare'' w4))
              else (None, w2, sendConMsg_transfer2 now prep ''PBFTPrepare'' w2))"

text \<open>
  \<^verbatim>\<open>RecvPrepare_notTransfer\<close> repeats the code of \<^verbatim>\<open>RecvPrepare\<close>; its commit part is written
  out again as in the source and shown equal to \<open>cast_commit\<close> below.
\<close>

definition cast_commit_notTransfer :: "time \<Rightarrow> Prepare \<Rightarrow> Request \<Rightarrow> worker \<Rightarrow> outcome" where
  "cast_commit_notTransfer now prep req w =
     (if rq_BlockHeight req \<le> CurrentBlock w then (Some CommitSent, w, [])
      else
        let block0 = GetBlockFromPossibleValidBlock (rq_BlockHeight req) (rq_BlockHash req) w;
            block1 = (if block0 = None then rq_Realblock req else block0) in
        case block1 of
          None \<Rightarrow> (Some CatchPanic, w, [])
        | Some block \<Rightarrow>
            let opnion = (if \<not> is_valid block then False
                          else case getConsensusTxExes (p_RequestDigest prep) (p_View prep) (p_ReqID prep) w of
                                 Inl _ \<Rightarrow> False | Inr _ \<Rightarrow> True);
                vr = \<lparr> vr_Sender = GetSelfNodeID w, vr_BlockHeight = rq_BlockHeight req,
                       vr_BlockHash = rq_BlockHash req, vr_BlockCreator = rq_BlockCreator req,
                       vr_Opinion = opnion, vr_Sign = '''' \<rparr>
            in case vrsign w vr of (done_ok, vr1) \<Rightarrow>
                 if \<not> done_ok then (Some VRSignErr, w, [])
                 else
                   let commit = \<lparr> c_Sender = GetSelfNodeID w, c_View = p_View prep, c_Timestamp = now,
                                  c_ReqID = p_ReqID prep, c_RequestDigest = p_RequestDigest prep,
                                  c_VR = vr1 \<rparr>
                   in case record_commit (rq_BlockHeight req) (rq_BlockHash req) w of (ok, w1) \<Rightarrow>
                        if ok then (Some CommitSent2, w1, [])
                        else (None,
                              setCert (p_View prep) (p_ReqID prep) (\<lambda>c. c\<lparr>mc_sentCommit := True\<rparr>) w1,
                              [Post (commit_msg now commit w1), Spawn (TRecvCommit commit)]))"

definition RecvPrepare_notTransfer :: "time \<Rightarrow> Prepare \<Rightarrow> worker \<Rightarrow> outcome" where
  "RecvPrepare_notTransfer now prep w =
     (let d = p_RequestDigest prep; v = p_View prep; n = p_ReqID prep in
      if \<not> inV v w then (Some PrepareViewWrong, w, [])
      else if \<not> Ready w then (Some BeingSelection, w, [])
      else
        let w1 = getCert v n w; cert = the_cert v n w1;
            recved = list_ex (\<lambda>p. p_Sender p = p_Sender prep) (mc_prepare cert) in
        case GetRequestFromStore d w1 of
          None \<Rightarrow> (Some NoReq, w1, [])
        | Some req \<Rightarrow>
            if rq_BlockHeight req \<le> CurrentBlock w1 then (Some AlreadyOnchain, w1, [])
            else if gm_has (commitStore w1) (rq_BlockHeight req) then (Some CommitSent, w1, [])
            else if prepared d v n w1 \<and> mc_sentCommit cert then (Some AlreadyPrepared, w1, [])
            else
              let w2 = append_prepare prep w1;
                  fwd = (\<lambda>s. if \<not> recved then sendConMsg_transfer2 now prep ''PBFTPrepare'' s else []) in
              if prepared d v n w2 \<and> \<not> mc_sentCommit (the_cert v n w2)
              then
                (case cast_commit_notTransfer now prep req w2 of
                   (Some e, w3, effs) \<Rightarrow> (Some e, w3, effs)
                 | (None, w3, effs) \<Rightarrow> (None, w3, effs @ fwd w3))
              else (None, w2, fwd w2))"

section \<open>Commits\<close>

definition checkpoint_of :: "Commit \<Rightarrow> worker \<Rightarrow> Checkpoint" where
  "checkpoint_of commit w =
     \<lparr> k_Sender = GetSelfNodeID w, k_BlockHeight = vr_BlockHeight (c_VR commit),
       k_ReqID = c_ReqID commit, k_BlockHash = vr_BlockHash (c_VR commit) \<rparr>"

text \<open>
  What happens once the request is committed. \<open>Some e\<close> as the first component is a \<^verbatim>\<open>return\<close>
  from the handler with error \<open>e\<close>; with \<open>None\<close> the handler goes on to forward the commit.
\<close>

definition on_committed :: "Commit \<Rightarrow> worker \<Rightarrow> pbft_err option option \<times> worker \<times> effect list" where
  "on_committed commit w =
     (let votesRes = GetValidResFromCommit (the_cert (c_View commit) (c_ReqID commit) w) w in
      case GetRequestFromStore (c_RequestDigest commit) w of
        None \<Rightarrow> (Some (Some NoCommitReq), w, [])
      | Some req \<Rightarrow>
          (case votesRes of
             possitive \<Rightarrow>
               if \<not> Ready w then (Some (Some BeingSelection), w, [])
               else if vr_BlockHeight (c_VR commit) > CurrentBlock w
               then let w1 = w\<lparr>CurrentBlock := CurrentBlock w + 1\<rparr>
                    in (None, removeOldConMsg (c_ReqID commit) w1, [PostCheckpoint (checkpoint_of commit w1)])
               else (Some None, w, [])
           | futurePossitive \<Rightarrow> (None, w, [])
           | negative \<Rightarrow>
               (None, removeOldConMsg (c_ReqID commit) w, [PostCheckpoint (checkpoint_of commit w)])))"

definition append_commit :: "Commit \<Rightarrow> worker \<Rightarrow> worker" where
  "append_commit commit w =
     setCert (c_View commit) (c_ReqID commit) (\<lambda>c. c\<lparr>mc_commit := mc_commit c @ [commit]\<rparr>) w"

definition RecvCommit :: "time \<Rightarrow> Commit \<Rightarrow> worker \<Rightarrow> outcome" where
  "RecvCommit now commit w =
     (let v = c_View commit; n = c_ReqID commit in
      if \<not> inV v w then (Some CommitViewWrong, w, [])
      else if \<not> Ready w then (Some BeingSelection, w, [])
      else if vr_BlockHeight (c_VR commit) \<le> CurrentBlock w then (Some AlreadyOnchain, w, [])
      else
        let w1 = getCert v n w in
        if list_ex (\<lambda>c. c_Sender c = c_Sender commit) (mc_commit (the_cert v n w1))
        then (Some DuplicateCommit, w1, [])
        else
          let w2 = append_commit commit w1 in
          if committed (c_RequestDigest commit) v n w2
          then (case on_committed commit w2 of
                  (Some e, w3, effs) \<Rightarrow> (e, w3, effs)
                | (None, w3, effs) \<Rightarrow>
                    (None, w3, effs @ sendConMsg_transfer3 now commit ''PBFTCommit'' w3))
          else (None, w2, sendConMsg_transfer3 now commit ''PBFTCommit'' w2))"

section \<open>Checkpoints\<close>

definition RecvCheckpoint :: "time \<Rightarrow> Checkpoint \<Rightarrow> worker \<Rightarrow> pbft_err option \<times> worker" where
  "RecvCheckpoint now k w =
     (let w1 = updateLeaseBeat now w; bn = k_BlockHeight k; bhash = k_BlockHash k in
      if gm_has (checkpointStore w1) bhash then (Some PlainError, setChkpt False w1)
      else
        let w2 = updateCheckpointBH bn w1; cbn = CurrentBlock w2 in
        if bn < cbn then (Some PlainError, setChkpt False w2)
        else
          let w3 = DeletePVBAndBeats bn bhash (cancel_consensus w2);
              w4 = w3\<lparr>checkpointStore :=
                       gm_filter (\<lambda>_ v. \<not> v < cbn) (gm_put (checkpointStore w3) bhash bn)\<rparr>
          in (None, setChkpt False w4))"

end
