(* ===== verification/Pbft_Mine.thy ===== *)
theory Pbft_Mine
  imports Pbft_Core
begin

text \<open>
  Building a block and proposing it (\<^verbatim>\<open>StartConsensus\<close>), dropping the blocks whose time is
  over (\<^verbatim>\<open>expirationLoop\<close>), the ring buffer of locally mined blocks and the initial state.
  Sources: \<^verbatim>\<open>src/eth/pbft-core.go\<close>, \<^verbatim>\<open>src/eth/worker.go\<close>, \<^verbatim>\<open>src/eth/star_up.go\<close>.
\<close>

section \<open>Transactions of a block\<close>

definition TxPool :: "int list \<times> int list" where
  "TxPool = (map (\<lambda>i. int i + 1) [0..<51], map (\<lambda>i. 50 - int i) [0..<51])"

definition multiVSelectWithLimit2 :: "int list \<Rightarrow> int list \<Rightarrow> int list \<times> int list" where
  "multiVSelectWithLimit2 a b = (map (\<lambda>i. a ! i) [0..<50], map (\<lambda>i. b ! i) [0..<50])"

definition commitTransactions_parallel :: bool where
  "commitTransactions_parallel = True"

section \<open>Locally mined blocks\<close>

definition miningLogAtDepth :: nat where "miningLogAtDepth = 5"

definition newLocalMinedBlock :: "u64 \<Rightarrow> uint64RingBuffer option \<Rightarrow> uint64RingBuffer" where
  "newLocalMinedBlock blockNumber prev =
     (let rb = (case prev of None \<Rightarrow> \<lparr> rb_ints = replicate (miningLogAtDepth + 1) 0, rb_next = 0 \<rparr>
                | Some r \<Rightarrow> r)
      in \<lparr> rb_ints = (rb_ints rb)[rb_next rb := blockNumber],
           rb_next = (rb_next rb + 1) mod length (rb_ints rb) \<rparr>)"

text \<open>The first slot holding the number is cleared; the result says whether there was one.\<close>

fun clear_first :: "u64 \<Rightarrow> u64 list \<Rightarrow> bool \<times> u64 list" where
  "clear_first n [] = (False, [])"
| "clear_first n (x # xs) =
     (if n = x then (True, 0 # xs) else (case clear_first n xs of (f, ys) \<Rightarrow> (f, x # ys)))"

definition isBlockLocallyMined :: "uint64RingBuffer \<Rightarrow> u64 \<Rightarrow> bool \<times> uint64RingBuffer" where
  "isBlockLocallyMined rb deepBlockNum =
     (case clear_first deepBlockNum (rb_ints rb) of (f, xs) \<Rightarrow> (f, rb\<lparr>rb_ints := xs\<rparr>))"

text \<open>The loop over \<^verbatim>\<open>checkBlockNum\<close>; the subtraction of the depth wraps around.\<close>

function log_mined_loop :: "u64 \<Rightarrow> u64 \<Rightarrow> uint64RingBuffer \<Rightarrow> uint64RingBuffer" where
  "log_mined_loop checkBlockNum nextBlockNum rb =
     (if checkBlockNum < nextBlockNum
      then log_mined_loop (checkBlockNum + 1) nextBlockNum
             (snd (isBlockLocallyMined rb (checkBlockNum - of_nat miningLogAtDepth)))
      else rb)"
  by auto
termination
proof (relation "measure (\<lambda>(c, n, _). unat n - unat c)")
  fix c n :: u64 and rb :: uint64RingBuffer
  assume "c < n"
  then show "((c + 1, n, snd (isBlockLocallyMined rb (c - of_nat miningLogAtDepth))), (c, n, rb))
             \<in> measure (\<lambda>(c, n, _). unat n - unat c)"
    using unat_Suc_below [of c n] by (simp add: word_less_nat_alt)
qed simp

declare log_mined_loop.simps [simp del]

text \<open>
  \<open>None\<close> is the nil dereference of \<^verbatim>\<open>previous.Block\<close> or \<^verbatim>\<open>current.Block\<close>; otherwise the
  ring buffer both works share.
\<close>

definition logLocalMinedBlocks :: "Work \<Rightarrow> Work option \<Rightarrow> uint64RingBuffer option option" where
  "logLocalMinedBlocks cur prev =
     (case (prev, wk_localMinedBlocks cur) of
        (Some p, Some rb) \<Rightarrow>
          (case (wk_Block cur, wk_Block p) of
             (Some cb, Some pb) \<Rightarrow> Some (Some (log_mined_loop (b_Number pb) (b_Number cb) rb))
           | _ \<Rightarrow> None)
      | _ \<Rightarrow> Some (wk_localMinedBlocks cur))"

section \<open>Building and proposing a block\<close>

definition makeCurrent :: "time \<Rightarrow> Header \<Rightarrow> worker \<Rightarrow> worker" where
  "makeCurrent now header w =
     w\<lparr>current_work := Some
         \<lparr> wk_tcount = 0,
           wk_localMinedBlocks = (case current_work w of None \<Rightarrow> None | Some c \<Rightarrow> wk_localMinedBlocks c),
           wk_Block = None, wk_header = Some header, wk_txs = [], wk_receipts = [],
           wk_createdAt = now \<rparr>\<rparr>"

definition pending :: "worker \<Rightarrow> Block option option" where
  "pending w =
     (case current_work w of None \<Rightarrow> None
      | Some c \<Rightarrow>
          if mining w = 0
          then Some (Some \<lparr> b_Number = 0, b_Valid = 0, b_Timee = 0, b_Header = wk_header c,
                            b_Txs = wk_txs c, b_Uncles = [], b_Receipt = wk_receipts c \<rparr>)
          else Some (wk_Block c))"

text \<open>
  The header of the new block. \<^verbatim>\<open>string(num+1)\<close> is the character with that code, here
  the one byte of the number 2. \<open>start\<close> is when the program started, the time of
  \<^verbatim>\<open>currentblock\<close>.
\<close>

definition new_header :: "time \<Rightarrow> time \<Rightarrow> worker \<Rightarrow> Header" where
  "new_header start now w =
     (let parent = currentblock start; num = sint (b_Number parent) in
      \<lparr> h_ParentHash = Block_Hash parent, h_Number = Some (num + 1), h_Coinbase = coinbase w,
        h_Extra = extra w, h_Time = Some (now div 1000000000), h_ChainName = chainName w,
        h_Root = [char_of (nat (num + 1))] @ Block_Hash parent \<rparr>)"

definition new_block :: "int \<Rightarrow> Header \<Rightarrow> Block" where
  "new_block num header =
     \<lparr> b_Number = word_of_int (num + 1), b_Valid = 0, b_Timee = 0, b_Header = Some header,
       b_Txs = [Some \<lparr> tx_String = ''dddd'' \<rparr>], b_Uncles = [Some header],
       b_Receipt = [Some \<lparr> rc_String = ''receipt'' \<rparr>] \<rparr>"

definition block_bytes :: bytes where
  "block_bytes = [0xE9, 0x9A, 0x8F, 0xE4, 0xBE, 0xBF]"

text \<open>
  The part of \<^verbatim>\<open>StartConsensus\<close> under \<^verbatim>\<open>CanMining\<close>: the context, the header, the work, the
  block, the request, and the log of mined blocks. \<^verbatim>\<open>self.current\<close> is put back before the
  request is sent, so that only the shared ring buffer of the new work can reach the old one.
\<close>

definition mine_and_propose :: "time \<Rightarrow> time \<Rightarrow> worker \<Rightarrow> outcome" where
  "mine_and_propose start now w =
     (if consensusCtx w = Some False then (Some PlainError, w, [])
      else
        let w1 = w\<lparr>consensusCtx := Some False, mining := 1\<rparr>;
            header = new_header start now w1;
            previous = current_work w1;
            w2 = makeCurrent now header w1;
            block = new_block (sint (b_Number (currentblock start))) header;
            work = map_option (\<lambda>c. c\<lparr>wk_Block := Some block, wk_txs := b_Txs block,
                                     wk_receipts := b_Receipt block\<rparr>) (current_work w2);
            w3 = (PutPVBAndBeats now block w2)\<lparr>current_work := previous\<rparr>
        in case SendRequest now \<lparr> ra_Block = block, ra_Blockbyte = block_bytes \<rparr> w3 of
             (w4, effs) \<Rightarrow>
               let w5 = w4\<lparr>mining := 0\<rparr> in
               case work of None \<Rightarrow> (Some Crash, w5, effs)
               | Some c \<Rightarrow>
                   (case logLocalMinedBlocks c previous of
                      None \<Rightarrow> (Some Crash, w5, effs)
                    | Some rb \<Rightarrow>
                        (None,
                         w5\<lparr>current_work := map_option (\<lambda>p. p\<lparr>wk_localMinedBlocks := rb\<rparr>) previous\<rparr>,
                         effs)))"

definition StartConsensus :: "time \<Rightarrow> time \<Rightarrow> worker \<Rightarrow> outcome" where
  "StartConsensus start now w =
     (if txNum_startconsens w > 0 \<and> int (length (fst TxPool)) < txNum_startconsens w
      then (Some PlainError, w\<lparr>hasUnDealTxs := True\<rparr>, [])
      else if CanMining w then mine_and_propose start now w
      else (None, w\<lparr>hasUnDealTxs := True\<rparr>, []))"

section \<open>Expiry\<close>

definition expire_entry :: "time \<Rightarrow> bool \<times> worker \<Rightarrow> string \<times> time \<Rightarrow> bool \<times> worker" where
  "expire_entry now acc e =
     (case (acc, e) of ((isExpire, s), (blockid, beat)) \<Rightarrow>
        if now - beat > maxConsensusLifetime s
        then ((case getPossibleBHByHash blockid s of
                 (bh, None) \<Rightarrow> isExpire \<or> bh = CurrentBlock s + 1
               | (bh, Some _) \<Rightarrow> isExpire),
              deletePVBAndBeatsByHash blockid s)
        else (isExpire, s))"

text \<open>One tick of the timer in \<^verbatim>\<open>expirationLoop\<close>.\<close>

definition expiration_tick :: "time \<Rightarrow> worker \<Rightarrow> worker" where
  "expiration_tick now w =
     (case foldl (expire_entry now) (False, w) (blockbeats w) of
        (isExpire, w1) \<Rightarrow> if isExpire then cancel_consensus w1 else w1)"

definition SetMaxConsensusLifetime :: "int \<Rightarrow> worker \<Rightarrow> worker" where
  "SetMaxConsensusLifetime t w = w\<lparr>maxConsensusLifetime := 1000000000 * t\<rparr>"

definition SetEvictionInterval :: "int \<Rightarrow> worker \<Rightarrow> worker" where
  "SetEvictionInterval t w = w\<lparr>evictionInterval := 60 * 1000000000 * t\<rparr>"

definition setEtherbase :: "bytes \<Rightarrow> worker \<Rightarrow> worker" where
  "setEtherbase addr w = w\<lparr>coinbase := addr\<rparr>"

section \<open>The initial state\<close>

definition initial_work :: Work where
  "initial_work = \<lparr> wk_tcount = 0, wk_localMinedBlocks = None, wk_Block = None, wk_header = None,
     wk_txs = [], wk_receipts = [], wk_createdAt = 0 \<rparr>"

text \<open>
  The worker after \<^verbatim>\<open>Initt\<close>: \<open>port\<close>, \<open>peer0\<close> and \<open>n\<close> are \<^verbatim>\<open>Con.Myport\<close>,
  \<^verbatim>\<open>Con.Peers[0]\<close> and \<^verbatim>\<open>Con.Peersnum\<close> of the configuration file.
\<close>

definition Initt :: "time \<Rightarrow> string \<Rightarrow> string \<Rightarrow> int \<Rightarrow> worker" where
  "Initt start port peer0 n =
     \<lparr> maxConsensusLifetime = 40 * 1000000000, evictionInterval = 60 * 1000000000,
       leaseBeat = start, consensusCtx = None, checkpointStore = gm_empty, checkpointBH = 0,
       commitStore = gm_empty, prepreflag = 0, preflag = 0, commitflag = 0,
       txNum_startconsens = 0, CurrentBlock = 1, coinbase = replicate AddressLength 0, extra = [],
       current_work = Some initial_work, mining = 0, activeView = False, view = 1,
       reqStore = gm_empty, certStore = gm_empty, w_checkpointStore = gm_empty, validators = n,
       nodeID = ''127.0.0.1'' @ port, leader = ''127.0.0.1'' @ peer0, ready = True,
       blockbeats = gm_empty, possibleValidBlock = gm_empty, LastReqID = 1, hasUnDealTxs = False,
       chainName = [], chkpt = False \<rparr>"

end
