(* ===== verification/Pbft_Frame.thy ===== *)
theory Pbft_Frame
  imports Pbft_Mine
begin

text \<open>
  What the building blocks of the handlers leave alone. These equations are rewrite rules, so that
  a proof about one part of the state of a handler does not look at the others.
\<close>

lemma getCert_frame [simp]:
  "CurrentBlock (getCert v n w) = CurrentBlock w" "view (getCert v n w) = view w"
  "ready (getCert v n w) = ready w" "leader (getCert v n w) = leader w"
  "nodeID (getCert v n w) = nodeID w" "validators (getCert v n w) = validators w"
  "commitStore (getCert v n w) = commitStore w" "reqStore (getCert v n w) = reqStore w"
  "LastReqID (getCert v n w) = LastReqID w" "blockbeats (getCert v n w) = blockbeats w"
  "possibleValidBlock (getCert v n w) = possibleValidBlock w"
  "checkpointStore (getCert v n w) = checkpointStore w"
  "checkpointBH (getCert v n w) = checkpointBH w"
  by (simp_all add: getCert_def)

lemma setCert_frame [simp]:
  "CurrentBlock (setCert v n f w) = CurrentBlock w" "view (setCert v n f w) = view w"
  "ready (setCert v n f w) = ready w" "leader (setCert v n f w) = leader w"
  "nodeID (setCert v n f w) = nodeID w" "validators (setCert v n f w) = validators w"
  "commitStore (setCert v n f w) = commitStore w" "reqStore (setCert v n f w) = reqStore w"
  "LastReqID (setCert v n f w) = LastReqID w" "blockbeats (setCert v n f w) = blockbeats w"
  "possibleValidBlock (setCert v n f w) = possibleValidBlock w"
  "checkpointStore (setCert v n f w) = checkpointStore w"
  "checkpointBH (setCert v n f w) = checkpointBH w"
  by (simp_all add: setCert_def)

lemma note_reqID_frame [simp]:
  "CurrentBlock (note_reqID n w) = CurrentBlock w" "view (note_reqID n w) = view w"
  "ready (note_reqID n w) = ready w" "leader (note_reqID n w) = leader w"
  "nodeID (note_reqID n w) = nodeID w" "validators (note_reqID n w) = validators w"
  "commitStore (note_reqID n w) = commitStore w" "reqStore (note_reqID n w) = reqStore w"
  "certStore (note_reqID n w) = certStore w" "blockbeats (note_reqID n w) = blockbeats w"
  "possibleValidBlock (note_reqID n w) = possibleValidBlock w"
  "checkpointStore (note_reqID n w) = checkpointStore w"
  "checkpointBH (note_reqID n w) = checkpointBH w"
  by (simp_all add: note_reqID_def)

lemma removeOldConMsg_frame [simp]:
  "CurrentBlock (removeOldConMsg n w) = CurrentBlock w" "view (removeOldConMsg n w) = view w"
  "ready (removeOldConMsg n w) = ready w" "leader (removeOldConMsg n w) = leader w"
  "nodeID (removeOldConMsg n w) = nodeID w" "validators (removeOldConMsg n w) = validators w"
  "commitStore (removeOldConMsg n w) = commitStore w"
  "LastReqID (removeOldConMsg n w) = LastReqID w"
  "blockbeats (removeOldConMsg n w) = blockbeats w"
  "possibleValidBlock (removeOldConMsg n w) = possibleValidBlock w"
  "checkpointStore (removeOldConMsg n w) = checkpointStore w"
  "checkpointBH (removeOldConMsg n w) = checkpointBH w"
  by (simp_all add: removeOldConMsg_def)

lemma cancel_consensus_frame [simp]:
  "CurrentBlock (cancel_consensus w) = CurrentBlock w" "view (cancel_consensus w) = view w"
  "ready (cancel_consensus w) = ready w" "leader (cancel_consensus w) = leader w"
  "nodeID (cancel_consensus w) = nodeID w" "validators (cancel_consensus w) = validators w"
  "commitStore (cancel_consensus w) = commitStore w" "reqStore (cancel_consensus w) = reqStore w"
  "certStore (cancel_consensus w) = certStore w" "LastReqID (cancel_consensus w) = LastReqID w"
  "blockbeats (cancel_consensus w) = blockbeats w"
  "possibleValidBlock (cancel_consensus w) = possibleValidBlock w"
  "checkpointStore (cancel_consensus w) = checkpointStore w"
  "checkpointBH (cancel_consensus w) = checkpointBH w"
  by (simp_all add: cancel_consensus_def)

lemma updateLeaseBeat_frame [simp]:
  "CurrentBlock (updateLeaseBeat now w) = CurrentBlock w" "view (updateLeaseBeat now w) = view w"
  "ready (updateLeaseBeat now w) = ready w" "leader (updateLeaseBeat now w) = leader w"
  "nodeID (updateLeaseBeat now w) = nodeID w" "validators (updateLeaseBeat now w) = validators w"
  "commitStore (updateLeaseBeat now w) = commitStore w"
  "reqStore (updateLeaseBeat now w) = reqStore w"
  "certStore (updateLeaseBeat now w) = certStore w"
  "LastReqID (updateLeaseBeat now w) = LastReqID w"
  "blockbeats (updateLeaseBeat now w) = blockbeats w"
  "possibleValidBlock (updateLeaseBeat now w) = possibleValidBlock w"
  "checkpointStore (updateLeaseBeat now w) = checkpointStore w"
  "checkpointBH (updateLeaseBeat now w) = checkpointBH w"
  by (simp_all add: updateLeaseBeat_def)

lemma updateCheckpointBH_frame [simp]:
  "CurrentBlock (updateCheckpointBH bh w) = CurrentBlock w"
  "view (updateCheckpointBH bh w) = view w" "ready (updateCheckpointBH bh w) = ready w"
  "leader (updateCheckpointBH bh w) = leader w" "nodeID (updateCheckpointBH bh w) = nodeID w"
  "validators (updateCheckpointBH bh w) = validators w"
  "commitStore (updateCheckpointBH bh w) = commitStore w"
  "reqStore (updateCheckpointBH bh w) = reqStore w"
  "certStore (updateCheckpointBH bh w) = certStore w"
  "LastReqID (updateCheckpointBH bh w) = LastReqID w"
  "blockbeats (updateCheckpointBH bh w) = blockbeats w"
  "possibleValidBlock (updateCheckpointBH bh w) = possibleValidBlock w"
  "checkpointStore (updateCheckpointBH bh w) = checkpointStore w"
  by (simp_all add: updateCheckpointBH_def)

lemma setChkpt_frame [simp]:
  "CurrentBlock (setChkpt f w) = CurrentBlock w" "view (setChkpt f w) = view w"
  "ready (setChkpt f w) = ready w" "leader (setChkpt f w) = leader w"
  "nodeID (setChkpt f w) = nodeID w" "validators (setChkpt f w) = validators w"
  "commitStore (setChkpt f w) = commitStore w" "reqStore (setChkpt f w) = reqStore w"
  "certStore (setChkpt f w) = certStore w" "LastReqID (setChkpt f w) = LastReqID w"
  "blockbeats (setChkpt f w) = blockbeats w"
  "possibleValidBlock (setChkpt f w) = possibleValidBlock w"
  "checkpointStore (setChkpt f w) = checkpointStore w"
  "checkpointBH (setChkpt f w) = checkpointBH w"
  by (simp_all add: setChkpt_def)

lemma record_commit_frame [simp]:
  "CurrentBlock (snd (record_commit h x w)) = CurrentBlock w"
  "view (snd (record_commit h x w)) = view w" "ready (snd (record_commit h x w)) = ready w"
  "leader (snd (record_commit h x w)) = leader w" "nodeID (snd (record_commit h x w)) = nodeID w"
  "validators (snd (record_commit h x w)) = validators w"
  "reqStore (snd (record_commit h x w)) = reqStore w"
  "certStore (snd (record_commit h x w)) = certStore w"
  "LastReqID (snd (record_commit h x w)) = LastReqID w"
  "blockbeats (snd (record_commit h x w)) = blockbeats w"
  "possibleValidBlock (snd (record_commit h x w)) = possibleValidBlock w"
  "checkpointStore (snd (record_commit h x w)) = checkpointStore w"
  "checkpointBH (snd (record_commit h x w)) = checkpointBH w"
  by (simp_all add: record_commit_def Let_def)

lemma putPrePrepareInCert_frame [simp]:
  "CurrentBlock (putPrePrepareInCert v n p w) = CurrentBlock w"
  "commitStore (putPrePrepareInCert v n p w) = commitStore w"
  "reqStore (putPrePrepareInCert v n p w) = reqStore w"
  "LastReqID (putPrePrepareInCert v n p w) = LastReqID w"
  "blockbeats (putPrePrepareInCert v n p w) = blockbeats w"
  "possibleValidBlock (putPrePrepareInCert v n p w) = possibleValidBlock w"
  "validators (putPrePrepareInCert v n p w) = validators w"
  "nodeID (putPrePrepareInCert v n p w) = nodeID w"
  by (simp_all add: putPrePrepareInCert_def)

lemma append_frame [simp]:
  "CurrentBlock (append_prepare p w) = CurrentBlock w" "CurrentBlock (append_commit c w) = CurrentBlock w"
  "commitStore (append_prepare p w) = commitStore w" "commitStore (append_commit c w) = commitStore w"
  "reqStore (append_prepare p w) = reqStore w" "reqStore (append_commit c w) = reqStore w"
  "validators (append_prepare p w) = validators w" "validators (append_commit c w) = validators w"
  "nodeID (append_prepare p w) = nodeID w" "nodeID (append_commit c w) = nodeID w"
  "ready (append_prepare p w) = ready w" "ready (append_commit c w) = ready w"
  "view (append_prepare p w) = view w" "view (append_commit c w) = view w"
  "LastReqID (append_prepare p w) = LastReqID w" "LastReqID (append_commit c w) = LastReqID w"
  "blockbeats (append_prepare p w) = blockbeats w" "blockbeats (append_commit c w) = blockbeats w"
  "possibleValidBlock (append_prepare p w) = possibleValidBlock w"
  "possibleValidBlock (append_commit c w) = possibleValidBlock w"
  by (simp_all add: append_prepare_def append_commit_def)

lemma GetBlock_cong:
  "possibleValidBlock w' = possibleValidBlock w \<Longrightarrow>
   GetBlockFromPossibleValidBlock bn h w' = GetBlockFromPossibleValidBlock bn h w"
  by (simp add: GetBlockFromPossibleValidBlock_def)

section \<open>The two copies of the commit code\<close>

lemma cast_commit_notTransfer_eq: "cast_commit_notTransfer now p r w = cast_commit now p r w"
proof -
  have o: "(if \<not> a then False else b) = (a \<and> b)" for a b by simp
  have b: "(if x = None then y else x) = (case x of Some c \<Rightarrow> Some c | None \<Rightarrow> y)" for x y :: "Block option"
    by (cases x) simp_all
  show ?thesis
    unfolding cast_commit_notTransfer_def cast_commit_def make_commit_def judge_block_def Let_def o b
    by (simp add: vrsign_def case_prod_beta split: option.split)
qed

section \<open>The height of a worker\<close>

lemma cast_commit_CurrentBlock [simp]: "CurrentBlock (out_state (cast_commit now p r w)) = CurrentBlock w"
  by (simp add: cast_commit_def case_prod_beta Let_def split: option.splits)

lemma cast_prepare_CurrentBlock [simp]:
  "CurrentBlock (out_state (cast_prepare now pp r b w)) = CurrentBlock w"
  by (simp add: cast_prepare_def Let_def)

lemma send_prepare_CurrentBlock [simp]:
  "CurrentBlock (out_state (send_prepare now pp r w)) = CurrentBlock w"
  by (simp add: send_prepare_def Let_def split: option.splits)

lemma track_preprepare_CurrentBlock [simp]:
  "CurrentBlock (fst (track_preprepare pp r w)) = CurrentBlock w"
  by (simp add: track_preprepare_def Let_def)

lemma accept_request_CurrentBlock [simp]:
  "CurrentBlock (snd (accept_request pp w)) = CurrentBlock w"
  by (simp add: accept_request_def Let_def case_prod_beta split: option.splits)

lemma RecvRequest_CurrentBlock [simp]: "CurrentBlock (out_state (RecvRequest now r w)) = CurrentBlock w"
  by (simp add: RecvRequest_def send_preprepare_def Let_def case_prod_beta split: option.splits)

lemma RecvPrePrepare_CurrentBlock [simp]:
  "CurrentBlock (out_state (RecvPrePrepare now pp w)) = CurrentBlock w"
  by (simp add: RecvPrePrepare_def Let_def case_prod_beta split: option.splits)

lemma RecvPrepare_CurrentBlock [simp]: "CurrentBlock (out_state (RecvPrepare now p w)) = CurrentBlock w"
  by (simp add: RecvPrepare_def Let_def case_prod_beta split: option.splits)

lemma RecvPrepare_notTransfer_CurrentBlock [simp]:
  "CurrentBlock (out_state (RecvPrepare_notTransfer now p w)) = CurrentBlock w"
  by (simp add: RecvPrepare_notTransfer_def cast_commit_notTransfer_eq Let_def case_prod_beta split: option.splits)

lemma RecvCheckpoint_CurrentBlock [simp]: "CurrentBlock (snd (RecvCheckpoint now k w)) = CurrentBlock w"
  by (simp add: RecvCheckpoint_def Let_def)

lemma SendRequest_CurrentBlock [simp]: "CurrentBlock (fst (SendRequest now r w)) = CurrentBlock w"
  by (simp add: SendRequest_def Let_def)

lemma StartConsensus_CurrentBlock [simp]:
  "CurrentBlock (out_state (StartConsensus start now w)) = CurrentBlock w"
  by (simp add: StartConsensus_def mine_and_propose_def makeCurrent_def Let_def case_prod_beta
      split: option.splits)

lemma deleteByHash_CurrentBlock [simp]: "CurrentBlock (deletePVBAndBeatsByHash h w) = CurrentBlock w"
  using pool_frame by (simp add: DeletePVBAndBeatsByHash_def [symmetric])

lemma expire_fold_CurrentBlock: "CurrentBlock (snd (foldl (expire_entry now) (b, w) l)) = CurrentBlock w"
  by (induction l arbitrary: b w) (auto simp: expire_entry_def)

lemma expiration_tick_CurrentBlock [simp]: "CurrentBlock (expiration_tick now w) = CurrentBlock w"
  by (simp add: expiration_tick_def case_prod_beta expire_fold_CurrentBlock)

end
