(* ===== verification/Pbft_Handlers.thy ===== *)
theory Pbft_Handlers
  imports Pbft_Frame
begin

text \<open>
  What each handler does, branch by branch: which messages are accepted, when a node votes, when
  the height of the chain moves, and what a checkpoint removes.
\<close>

section \<open>Votes\<close>

definition supporters :: "Commit list \<Rightarrow> string set" where
  "supporters cs = c_Sender ` {c \<in> set cs. vr_Opinion (c_VR c)}"

lemma finite_supporters [simp]: "finite (supporters cs)"
  by (simp add: supporters_def)

lemma supporters_Nil [simp]: "supporters [] = {}"
  by (simp add: supporters_def)

lemma supporters_Cons:
  "supporters (c # cs) = (if vr_Opinion (c_VR c) then insert (c_Sender c) (supporters cs) else supporters cs)"
  by (auto simp: supporters_def)

lemma tally_poss_le:
  "tally seen cs = (al, poss, neg) \<Longrightarrow> poss \<le> int (card (supporters cs - {s. gm_has seen s}))"
proof (induction cs arbitrary: seen al poss neg)
  case (Cons c cs)
  let ?T = "{s. s = c_Sender c \<or> gm_has seen s}"
  show ?case
  proof (cases "gm_has seen (c_Sender c)")
    case True
    then have "supporters (c # cs) - {s. gm_has seen s} = supporters cs - {s. gm_has seen s}"
      by (auto simp: supporters_Cons)
    then show ?thesis using Cons.IH [of seen] Cons.prems True by simp
  next
    case False
    obtain a p q where t: "tally (gm_put seen (c_Sender c) 0) cs = (a, p, q)"
      using prod_cases3 by blast
    have p: "p \<le> int (card (supporters cs - ?T))" using Cons.IH [OF t] by simp
    show ?thesis
    proof (cases "vr_Opinion (c_VR c)")
      case o: True
      have "supporters (c # cs) - {s. gm_has seen s} = insert (c_Sender c) (supporters cs - ?T)"
        using o False by (auto simp: supporters_Cons)
      then show ?thesis using p Cons.prems False o by (auto simp: t)
    next
      case o: False
      have "card (supporters cs - ?T) \<le> card (supporters (c # cs) - {s. gm_has seen s})"
        using o by (intro card_mono) (auto simp: supporters_Cons)
      then show ?thesis using p Cons.prems False o by (auto simp: t)
    qed
  qed
qed (simp add: supporters_def)

lemma GetValidRes_possitive:
  assumes "GetValidResFromCommit cert w = possitive"
  shows "getQuorum (validators w) \<le> int (card (supporters (mc_commit cert)))"
proof -
  obtain a p q where t: "tally gm_empty (mc_commit cert) = (a, p, q)" using prod_cases3 by blast
  have "getQuorum (validators w) \<le> p"
    using assms by (simp add: GetValidResFromCommit_def t Let_def split: if_splits)
  then show ?thesis using tally_poss_le [OF t] by simp
qed

lemma filter_opinion_card:
  "distinct (map c_Sender cs) \<Longrightarrow>
     length (filter (\<lambda>c. vr_Opinion (c_VR c)) cs) = card (supporters cs)"
proof -
  assume d: "distinct (map c_Sender cs)"
  have "supporters cs = set (map c_Sender (filter (\<lambda>c. vr_Opinion (c_VR c)) cs))"
    by (auto simp: supporters_def)
  moreover have "distinct (map c_Sender (filter (\<lambda>c. vr_Opinion (c_VR c)) cs))"
    using d by (rule distinct_map_filter)
  ultimately show ?thesis by (metis distinct_card length_map)
qed

text \<open>With one commit per sender the verdict is decided by the number of supporters alone.\<close>

lemma GetValidRes_distinct:
  assumes "distinct (map c_Sender (mc_commit cert))"
  shows "GetValidResFromCommit cert w =
     (let poss = int (card (supporters (mc_commit cert)));
          missing = validators w - int (length (mc_commit cert))
      in if getQuorum (validators w) \<le> poss then possitive
         else if getQuorum (validators w) \<le> poss + missing then futurePossitive else negative)"
  using tally_distinct [OF assms, of gm_empty] filter_opinion_card [OF assms]
  by (simp add: GetValidResFromCommit_def Let_def getCurrentCSNum_def)

section \<open>Phases do not depend on commits\<close>

lemma prePrepared_iff:
  "prePrepared d v n w \<longleftrightarrow> (d = [] \<or> gm_has (reqStore w) d) \<and>
     (\<exists>p. mc_prePrepare (the_cert v n w) = Some p \<and> pp_View p = v \<and> pp_ReqID p = n \<and> pp_RequestDigest p = d)"
  by (auto simp: prePrepared_def the_cert_def empty_msgCert_def split: option.splits)

lemma prepared_iff:
  "prepared d v n w \<longleftrightarrow> prePrepared d v n w \<and>
     getQuorum (validators w) \<le> int (length (filter (prepare_matches d v n) (mc_prepare (the_cert v n w))))"
  by (auto simp: prepared_def prePrepared_def the_cert_def split: option.splits)

lemma committed_iff:
  "committed d v n w \<longleftrightarrow> prepared d v n w \<and>
     getQuorum (validators w) \<le>
       int (card (c_Sender ` {c \<in> set (mc_commit (the_cert v n w)). c_View c = v \<and> c_ReqID c = n}))"
  by (auto simp: committed_def prepared_def prePrepared_def the_cert_def count_commits_card split: option.splits)

lemma the_cert_append_commit [simp]:
  "the_cert v n (append_commit c w) =
     (if v = c_View c \<and> n = c_ReqID c
      then (the_cert v n w)\<lparr>mc_commit := mc_commit (the_cert v n w) @ [c]\<rparr> else the_cert v n w)"
  by (simp add: append_commit_def)

lemma the_cert_append_prepare [simp]:
  "the_cert v n (append_prepare p w) =
     (if v = p_View p \<and> n = p_ReqID p
      then (the_cert v n w)\<lparr>mc_prepare := mc_prepare (the_cert v n w) @ [p]\<rparr> else the_cert v n w)"
  by (simp add: append_prepare_def)

lemma prepared_append_commit [simp]:
  "prepared d v n (append_commit c w) = prepared d v n w"
  by (simp add: prepared_iff prePrepared_iff)

lemma prepared_getCert [simp]: "prepared d v n (getCert v' n' w) = prepared d v n w"
  by (simp add: prepared_iff prePrepared_iff)

section \<open>The commit handler\<close>

text \<open>The certificate a commit would be counted in, with the commit added.\<close>

definition votes_with :: "Commit \<Rightarrow> worker \<Rightarrow> msgCert" where
  "votes_with c w = (the_cert (c_View c) (c_ReqID c) w)
     \<lparr>mc_commit := mc_commit (the_cert (c_View c) (c_ReqID c) w) @ [c]\<rparr>"

definition commit_fresh :: "Commit \<Rightarrow> worker \<Rightarrow> bool" where
  "commit_fresh c w \<longleftrightarrow> c_View c = view w \<and> ready w \<and> CurrentBlock w < vr_BlockHeight (c_VR c)
     \<and> list_all (\<lambda>d. c_Sender d \<noteq> c_Sender c) (mc_commit (the_cert (c_View c) (c_ReqID c) w))"

definition commit_decides :: "vote_result \<Rightarrow> Commit \<Rightarrow> worker \<Rightarrow> bool" where
  "commit_decides r c w \<longleftrightarrow> commit_fresh c w \<and> prepared (c_RequestDigest c) (c_View c) (c_ReqID c) w
     \<and> getQuorum (validators w) \<le> int (card (c_Sender ` {d \<in> set (mc_commit (votes_with c w)).
            c_View d = c_View c \<and> c_ReqID d = c_ReqID c}))
     \<and> gm_has (reqStore w) (c_RequestDigest c) \<and> GetValidResFromCommit (votes_with c w) w = r"

lemma GetValidRes_cong: "validators w' = validators w \<Longrightarrow> GetValidResFromCommit cert w' = GetValidResFromCommit cert w"
  by (simp add: GetValidResFromCommit_def getCurrentCSNum_def)

lemma RecvCommit_height:
  "CurrentBlock (out_state (RecvCommit now c w)) =
     (if commit_decides possitive c w then CurrentBlock w + 1 else CurrentBlock w)"
proof (cases "commit_fresh c w")
  case False
  then show ?thesis
    by (auto simp: RecvCommit_def Let_def commit_fresh_def commit_decides_def inV_def GetConStatus_def
        Ready_def list_ex_iff list_all_iff)
next
  case True
  then have f: "inV (c_View c) w" "Ready w" "\<not> vr_BlockHeight (c_VR c) \<le> CurrentBlock w"
    "\<not> list_ex (\<lambda>d. c_Sender d = c_Sender c) (mc_commit (the_cert (c_View c) (c_ReqID c) w))"
    by (auto simp: commit_fresh_def inV_def GetConStatus_def Ready_def list_ex_iff list_all_iff)
  let ?w = "append_commit c (getCert (c_View c) (c_ReqID c) w)"
  have cm: "committed (c_RequestDigest c) (c_View c) (c_ReqID c) ?w \<longleftrightarrow>
      prepared (c_RequestDigest c) (c_View c) (c_ReqID c) w \<and>
      getQuorum (validators w) \<le> int (card (c_Sender ` {d \<in> set (mc_commit (votes_with c w)).
            c_View d = c_View c \<and> c_ReqID d = c_ReqID c}))"
    by (simp add: committed_iff votes_with_def)
  have v: "GetValidResFromCommit (the_cert (c_View c) (c_ReqID c) ?w) ?w = GetValidResFromCommit (votes_with c w) w"
    by (simp add: votes_with_def GetValidRes_cong [of ?w w])
  have g: "GetRequestFromStore (c_RequestDigest c) ?w = gm_get (reqStore w) (c_RequestDigest c)"
    by (simp add: GetRequestFromStore_def)
  have "CurrentBlock (fst (snd (on_committed c ?w))) =
      (if gm_has (reqStore w) (c_RequestDigest c) \<and> GetValidResFromCommit (votes_with c w) w = possitive
       then CurrentBlock w + 1 else CurrentBlock w)"
    using f unfolding on_committed_def v g
    by (auto simp: Let_def gm_has_def Ready_def split: option.splits vote_result.splits)
  then show ?thesis
    using f True cm
    by (auto simp: RecvCommit_def Let_def commit_decides_def case_prod_beta split: option.splits)
qed

section \<open>The request handler\<close>

definition accepts_request :: "Request \<Rightarrow> worker \<Rightarrow> bool" where
  "accepts_request req w \<longleftrightarrow> ready w \<and> rq_Sender req = leader w \<and> view w \<le> rq_View req
     \<and> \<not> gm_has (reqStore w) (newhashReq req) \<and> CurrentBlock w < rq_BlockHeight req"

lemma note_reqID_max: "note_reqID n w = w\<lparr>LastReqID := max (LastReqID w) n\<rparr>"
  by (simp add: note_reqID_def max_def)

lemma RecvRequest_rejects:
  "\<not> accepts_request req w \<Longrightarrow>
     out_state (RecvRequest now req w) = w\<lparr>LastReqID := max (LastReqID w) (rq_ReqID req)\<rparr>
     \<and> out_effects (RecvRequest now req w) = [] \<and> out_err (RecvRequest now req w) \<noteq> None"
  by (auto simp: RecvRequest_def note_reqID_max accepts_request_def Ready_def GetConStatus_def Let_def)

lemma RecvRequest_accepts:
  assumes "accepts_request req w"
  shows "RecvRequest now req w =
     (let w2 = w\<lparr>LastReqID := max (LastReqID w) (rq_ReqID req),
                  reqStore := gm_put (reqStore w) (newhashReq req) req\<rparr>
      in if rq_View req = view w then send_preprepare now req (newhashReq req) w2 else (None, w2, []))"
  using assms
  by (auto simp: RecvRequest_def note_reqID_max accepts_request_def Ready_def GetConStatus_def Let_def inV_def)

lemma send_preprepare_stores [simp]:
  "reqStore (out_state (send_preprepare now req d w)) = reqStore w"
  "LastReqID (out_state (send_preprepare now req d w)) = LastReqID w"
  by (simp_all add: send_preprepare_def Let_def split: option.splits)

section \<open>Voting\<close>

definition posts :: "effect list \<Rightarrow> ConsensusMsg list" where
  "posts effs = List.map_filter (\<lambda>e. case e of Post m \<Rightarrow> Some m | _ \<Rightarrow> None) effs"

lemma posts_simps [simp]:
  "posts [] = []" "posts (Post m # es) = m # posts es" "posts (PostTransfer t # es) = posts es"
  "posts (PostCheckpoint k # es) = posts es" "posts (PostForceSync # es) = posts es"
  "posts (Spawn tk # es) = posts es" "posts (es @ fs) = posts es @ posts fs"
  by (simp_all add: posts_def map_filter_simps map_filter_def)

lemma posts_transfer [simp]:
  "posts (sendConMsg_transfer1 now a ty w) = []" "posts (sendConMsg_transfer2 now b ty w) = []"
  "posts (sendConMsg_transfer3 now c ty w) = []"
  by (simp_all add: sendConMsg_transfer1_def sendConMsg_transfer2_def sendConMsg_transfer3_def)

text \<open>The block a node judges when it votes: the one in its pool, or else the one in the request.\<close>

definition candidate_block :: "Request \<Rightarrow> worker \<Rightarrow> Block option" where
  "candidate_block req w =
     (case GetBlockFromPossibleValidBlock (rq_BlockHeight req) (rq_BlockHash req) w of
        Some b \<Rightarrow> Some b | None \<Rightarrow> rq_Realblock req)"

text \<open>The state in which a prepare is judged: the prepare is in its certificate.\<close>

definition with_prepare :: "Prepare \<Rightarrow> worker \<Rightarrow> worker" where
  "with_prepare p w = append_prepare p (getCert (p_View p) (p_ReqID p) w)"

definition may_vote :: "Prepare \<Rightarrow> Request \<Rightarrow> worker \<Rightarrow> bool" where
  "may_vote p req w \<longleftrightarrow> p_View p = view w \<and> ready w
     \<and> gm_get (reqStore w) (p_RequestDigest p) = Some req
     \<and> CurrentBlock w < rq_BlockHeight req \<and> \<not> gm_has (commitStore w) (rq_BlockHeight req)
     \<and> prepared (p_RequestDigest p) (p_View p) (p_ReqID p) (with_prepare p w)
     \<and> \<not> mc_sentCommit (the_cert (p_View p) (p_ReqID p) w)
     \<and> candidate_block req w \<noteq> None"

lemma candidate_block_cong:
  "possibleValidBlock w' = possibleValidBlock w \<Longrightarrow> candidate_block req w' = candidate_block req w"
  using GetBlock_cong [of w' w] by (simp add: candidate_block_def)

lemma getConsensusTxExes_cong:
  "certStore w' = certStore w \<Longrightarrow> validators w' = validators w \<Longrightarrow>
   getConsensusTxExes d v n w' = getConsensusTxExes d v n w"
  by (simp add: getConsensusTxExes_def split: option.split prod.split)

lemma make_commit_cong: "nodeID w' = nodeID w \<Longrightarrow> make_commit now p r opn w' = make_commit now p r opn w"
  by (simp add: make_commit_def GetSelfNodeID_def vrsign_def)

lemma judge_block_cong:
  "certStore w' = certStore w \<Longrightarrow> validators w' = validators w \<Longrightarrow> judge_block p b w' = judge_block p b w"
  using getConsensusTxExes_cong [of w' w] by (simp add: judge_block_def)

lemma cast_commit_votes:
  assumes "CurrentBlock w < rq_BlockHeight req" and "\<not> gm_has (commitStore w) (rq_BlockHeight req)"
    and "candidate_block req w = Some b"
  shows "cast_commit now p req w =
     (let c = make_commit now p req (judge_block p b w) w;
          w1 = snd (record_commit (rq_BlockHeight req) (rq_BlockHash req) w)
      in (None, setCert (p_View p) (p_ReqID p) (\<lambda>c. c\<lparr>mc_sentCommit := True\<rparr>) w1,
          [Post (commit_msg now c w1), Spawn (TRecvCommit c)]))"
proof -
  have "fst (record_commit (rq_BlockHeight req) (rq_BlockHash req) w) = False"
    using assms(2) by (simp add: record_commit_def Let_def)
  then show ?thesis
    using assms(1,3) by (simp add: cast_commit_def candidate_block_def Let_def case_prod_beta)
qed

lemma cast_commit_posts:
  assumes "m \<in> set (posts (out_effects (cast_commit now p req w)))"
  obtains b where "CurrentBlock w < rq_BlockHeight req" "\<not> gm_has (commitStore w) (rq_BlockHeight req)"
    "candidate_block req w = Some b"
    "m = commit_msg now (make_commit now p req (judge_block p b w) w) w"
  using assms
  by (auto simp: cast_commit_def record_commit_def candidate_block_def commit_msg_def GetSelfNodeID_def
      Let_def split: option.splits if_splits)

definition prepare_fresh :: "Prepare \<Rightarrow> worker \<Rightarrow> bool" where
  "prepare_fresh p w \<longleftrightarrow> list_all (\<lambda>q. p_Sender q \<noteq> p_Sender p) (mc_prepare (the_cert (p_View p) (p_ReqID p) w))"

definition vote_of :: "time \<Rightarrow> Prepare \<Rightarrow> Request \<Rightarrow> Block \<Rightarrow> worker \<Rightarrow> Commit" where
  "vote_of now p req b w = make_commit now p req (judge_block p b (with_prepare p w)) w"

lemma with_prepare_frame [simp]:
  "CurrentBlock (with_prepare p w) = CurrentBlock w" "commitStore (with_prepare p w) = commitStore w"
  "reqStore (with_prepare p w) = reqStore w" "validators (with_prepare p w) = validators w"
  "nodeID (with_prepare p w) = nodeID w" "possibleValidBlock (with_prepare p w) = possibleValidBlock w"
  "blockbeats (with_prepare p w) = blockbeats w" "LastReqID (with_prepare p w) = LastReqID w"
  "mc_sentCommit (the_cert (p_View p) (p_ReqID p) (with_prepare p w)) = mc_sentCommit (the_cert (p_View p) (p_ReqID p) w)"
  by (simp_all add: with_prepare_def)

lemma prepared_mono:
  "prepared d v n w \<Longrightarrow> prepared d v n (append_prepare p w)"
  by (auto simp: prepared_iff prePrepared_iff)

lemma record_commit_has:
  "gm_has (commitStore (snd (record_commit h x w))) k \<longleftrightarrow>
     (k = h \<or> gm_has (commitStore w) k) \<and> \<not> k < CurrentBlock w"
  by (auto simp: record_commit_def Let_def gm_has_iff split: option.splits)

lemma may_voteD:
  assumes "may_vote p req w"
  shows "inV (p_View p) w" "Ready w"
    "GetRequestFromStore (p_RequestDigest p) (getCert v n w) = Some req"
    "\<not> rq_BlockHeight req \<le> CurrentBlock w" "\<not> gm_has (commitStore w) (rq_BlockHeight req)"
    "prepared (p_RequestDigest p) (p_View p) (p_ReqID p) (with_prepare p w)"
    "\<not> mc_sentCommit (the_cert (p_View p) (p_ReqID p) w)"
  using assms by (auto simp: may_vote_def inV_def GetConStatus_def Ready_def GetRequestFromStore_def)

text \<open>
  The common tail of the two prepare handlers: it starts after their checks, with the prepare
  already in the certificate.
\<close>

lemma cast_commit_with_prepare:
  assumes "may_vote p req w" and "candidate_block req w = Some b"
    and "certStore w' = certStore (with_prepare p w)" "CurrentBlock w' = CurrentBlock w"
      "commitStore w' = commitStore w" "possibleValidBlock w' = possibleValidBlock w"
      "nodeID w' = nodeID w" "validators w' = validators w"
  shows "cast_commit now p req w' =
     (None,
      setCert (p_View p) (p_ReqID p) (\<lambda>c. c\<lparr>mc_sentCommit := True\<rparr>)
        (snd (record_commit (rq_BlockHeight req) (rq_BlockHash req) w')),
      [Post (commit_msg now (vote_of now p req b w) w), Spawn (TRecvCommit (vote_of now p req b w))])"
proof -
  have j: "judge_block p b w' = judge_block p b (with_prepare p w)"
    using assms by (intro judge_block_cong) simp_all
  have m: "make_commit now p req opn w' = make_commit now p req opn w" for opn
    by (rule make_commit_cong) (rule assms)
  have c: "candidate_block req w' = Some b"
    using assms candidate_block_cong [of w' w] by simp
  show ?thesis
    using assms c by (subst cast_commit_votes [where b = b])
      (simp_all add: may_vote_def vote_of_def j m Let_def commit_msg_def GetSelfNodeID_def)
qed

lemma RecvPrepare_votes:
  assumes v: "may_vote p req w" and f: "prepare_fresh p w" and b: "candidate_block req w = Some b"
  shows "posts (out_effects (RecvPrepare now p w)) = [commit_msg now (vote_of now p req b w) w]
     \<and> out_err (RecvPrepare now p w) = None
     \<and> gm_has (commitStore (out_state (RecvPrepare now p w))) (rq_BlockHeight req)"
proof -
  let ?W = "with_prepare p w"
  define w' where "w' = (if preflag ?W = 0 then ?W\<lparr>preflag := 1\<rparr> else ?W)"
  have c: "cast_commit now p req w' =
     (None,
      setCert (p_View p) (p_ReqID p) (\<lambda>c. c\<lparr>mc_sentCommit := True\<rparr>)
        (snd (record_commit (rq_BlockHeight req) (rq_BlockHash req) w')),
      [Post (commit_msg now (vote_of now p req b w) w), Spawn (TRecvCommit (vote_of now p req b w))])"
    by (rule cast_commit_with_prepare [OF v b]) (simp_all add: w'_def)
  have n: "\<not> list_ex (\<lambda>q. p_Sender q = p_Sender p) (mc_prepare (the_cert (p_View p) (p_ReqID p) w))"
    using f by (auto simp: prepare_fresh_def list_ex_iff list_all_iff)
  have e: "RecvPrepare now p w =
     (case cast_commit now p req w' of
        (Some e, w4, effs) \<Rightarrow> (Some e, w4, effs)
      | (None, w4, effs) \<Rightarrow> (None, w4, effs @ sendConMsg_transfer2 now p ''PBFTPrepare'' w4))"
    using n may_voteD [OF v] unfolding w'_def with_prepare_def
    by (simp add: RecvPrepare_def with_prepare_def Let_def)
  have "\<not> rq_BlockHeight req < CurrentBlock w" using may_voteD(4) [OF v] by auto
  then show ?thesis unfolding e c
    by (simp add: record_commit_has w'_def)
qed

lemma RecvPrepare_posts:
  assumes "m \<in> set (posts (out_effects (RecvPrepare now p w)))"
  shows "\<exists>req b. may_vote p req w \<and> prepare_fresh p w \<and> candidate_block req w = Some b
           \<and> m = commit_msg now (vote_of now p req b w) w"
proof (cases "\<exists>req. may_vote p req w \<and> prepare_fresh p w")
  case True
  then obtain req where r: "may_vote p req w" "prepare_fresh p w" by blast
  then obtain b where b: "candidate_block req w = Some b" by (auto simp: may_vote_def)
  show ?thesis using RecvPrepare_votes [OF r b, of now] assms r b by auto
next
  case False
  let ?W = "with_prepare p w"
  have "posts (out_effects (cast_commit now p req w')) = []"
    if "gm_get (reqStore w) (p_RequestDigest p) = Some req" "p_View p = view w" "ready w"
      "\<not> rq_BlockHeight req \<le> CurrentBlock w" "\<not> gm_has (commitStore w) (rq_BlockHeight req)"
      "prepared (p_RequestDigest p) (p_View p) (p_ReqID p) ?W"
      "\<not> mc_sentCommit (the_cert (p_View p) (p_ReqID p) w)" "prepare_fresh p w"
      "possibleValidBlock w' = possibleValidBlock w" "CurrentBlock w' = CurrentBlock w" for req w'
    using that False candidate_block_cong [of w' w req]
    by (auto simp: may_vote_def cast_commit_def candidate_block_def [symmetric])
  then have False using assms
    by (auto simp: RecvPrepare_def Let_def case_prod_beta inV_def GetConStatus_def Ready_def
        GetRequestFromStore_def with_prepare_def prepare_fresh_def list_ex_iff list_all_iff
        split: option.splits if_splits)
  then show ?thesis ..
qed

section \<open>Checkpoints\<close>

lemma RecvCheckpoint_repeated:
  "gm_has (checkpointStore w) (k_BlockHash k) \<Longrightarrow>
     RecvCheckpoint now k w = (Some PlainError, setChkpt False (updateLeaseBeat now w))"
  by (simp add: RecvCheckpoint_def Let_def)

definition takes_checkpoint :: "Checkpoint \<Rightarrow> worker \<Rightarrow> bool" where
  "takes_checkpoint k w \<longleftrightarrow> \<not> gm_has (checkpointStore w) (k_BlockHash k) \<and> CurrentBlock w \<le> k_BlockHeight k"

lemma RecvCheckpoint_takes:
  assumes "takes_checkpoint k w"
  shows "fst (RecvCheckpoint now k w) = None"
    and "GetBlockFromPossibleValidBlock bn h (snd (RecvCheckpoint now k w)) =
           (if bn \<le> k_BlockHeight k then None else GetBlockFromPossibleValidBlock bn h w)"
    and "gm_get (checkpointStore (snd (RecvCheckpoint now k w))) h =
           (if h = k_BlockHash k then Some (k_BlockHeight k)
            else case gm_get (checkpointStore w) h of None \<Rightarrow> None
                 | Some v \<Rightarrow> if v < CurrentBlock w then None else Some v)"
    and "consensusCtx (snd (RecvCheckpoint now k w)) \<noteq> Some False"
    and "checkpointBH (snd (RecvCheckpoint now k w)) = max (checkpointBH w) (k_BlockHeight k)"
proof -
  have c: "\<not> k_BlockHeight k < CurrentBlock w" "\<not> gm_has (checkpointStore w) (k_BlockHash k)"
    using assms by (auto simp: takes_checkpoint_def)
  then have e: "RecvCheckpoint now k w = (None, setChkpt False
     ((DeletePVBAndBeats (k_BlockHeight k) (k_BlockHash k)
         (cancel_consensus (updateCheckpointBH (k_BlockHeight k) (updateLeaseBeat now w))))
        \<lparr>checkpointStore := gm_filter (\<lambda>_ v. \<not> v < CurrentBlock w)
           (gm_put (checkpointStore w) (k_BlockHash k) (k_BlockHeight k))\<rparr>))"
    by (simp add: RecvCheckpoint_def Let_def)
  show "fst (RecvCheckpoint now k w) = None" by (simp add: e)
  show "GetBlockFromPossibleValidBlock bn h (snd (RecvCheckpoint now k w)) =
           (if bn \<le> k_BlockHeight k then None else GetBlockFromPossibleValidBlock bn h w)"
    using GetBlock_Delete by (simp add: e GetBlockFromPossibleValidBlock_def)
  show "gm_get (checkpointStore (snd (RecvCheckpoint now k w))) h =
           (if h = k_BlockHash k then Some (k_BlockHeight k)
            else case gm_get (checkpointStore w) h of None \<Rightarrow> None
                 | Some v \<Rightarrow> if v < CurrentBlock w then None else Some v)"
    using c by (simp add: e split: option.splits)
  show "consensusCtx (snd (RecvCheckpoint now k w)) \<noteq> Some False"
    by (simp add: e setChkpt_def cancel_consensus_def)
  show "checkpointBH (snd (RecvCheckpoint now k w)) = max (checkpointBH w) (k_BlockHeight k)"
    by (auto simp: e updateCheckpointBH_def updateLeaseBeat_def max_def)
qed

section \<open>The outcome of a decisive commit\<close>

definition with_commit :: "Commit \<Rightarrow> worker \<Rightarrow> worker" where
  "with_commit c w = append_commit c (getCert (c_View c) (c_ReqID c) w)"

lemma with_commit_frame [simp]:
  "CurrentBlock (with_commit c w) = CurrentBlock w" "validators (with_commit c w) = validators w"
  "reqStore (with_commit c w) = reqStore w" "nodeID (with_commit c w) = nodeID w"
  "ready (with_commit c w) = ready w"
  "the_cert (c_View c) (c_ReqID c) (with_commit c w) = votes_with c w"
  by (simp_all add: with_commit_def votes_with_def)

lemma checkpoint_of_cong: "nodeID w' = nodeID w \<Longrightarrow> checkpoint_of c w' = checkpoint_of c w"
  by (simp add: checkpoint_of_def GetSelfNodeID_def)

lemma RecvCommit_decides:
  assumes d: "commit_decides possitive c w"
  shows "RecvCommit now c w =
     (let w1 = removeOldConMsg (c_ReqID c) ((with_commit c w)\<lparr>CurrentBlock := CurrentBlock w + 1\<rparr>)
      in (None, w1, PostCheckpoint (checkpoint_of c w) # sendConMsg_transfer3 now c ''PBFTCommit'' w1))"
proof -
  let ?W = "with_commit c w"
  have f: "inV (c_View c) w" "Ready w" "\<not> vr_BlockHeight (c_VR c) \<le> CurrentBlock w"
    "\<not> list_ex (\<lambda>e. c_Sender e = c_Sender c) (mc_commit (the_cert (c_View c) (c_ReqID c) w))"
    using d by (auto simp: commit_decides_def commit_fresh_def inV_def GetConStatus_def Ready_def
        list_ex_iff list_all_iff)
  have cm: "committed (c_RequestDigest c) (c_View c) (c_ReqID c) ?W"
    using d by (simp add: committed_iff commit_decides_def) (simp add: with_commit_def)
  obtain req where g: "GetRequestFromStore (c_RequestDigest c) ?W = Some req"
    using d by (auto simp: commit_decides_def GetRequestFromStore_def gm_has_iff)
  have v: "GetValidResFromCommit (votes_with c w) ?W = possitive"
    using d GetValidRes_cong [of ?W w] by (simp add: commit_decides_def)
  have k: "checkpoint_of c (?W\<lparr>CurrentBlock := CurrentBlock w + 1\<rparr>) = checkpoint_of c w"
    by (rule checkpoint_of_cong) simp
  have "on_committed c ?W = (None, removeOldConMsg (c_ReqID c) (?W\<lparr>CurrentBlock := CurrentBlock w + 1\<rparr>),
      [PostCheckpoint (checkpoint_of c w)])"
    using f(2,3) by (simp add: on_committed_def g v k Let_def Ready_def not_le)
  then show ?thesis
    using f cm by (simp add: RecvCommit_def Let_def with_commit_def)
qed

section \<open>The flag of the first prepare handler\<close>

lemma judge_block_preflag [simp]: "judge_block p b (w\<lparr>preflag := i\<rparr>) = judge_block p b w"
  by (rule judge_block_cong) simp_all

lemma preflag_irrelevant [simp]:
  "GetBlockFromPossibleValidBlock bn h (w\<lparr>preflag := i\<rparr>) = GetBlockFromPossibleValidBlock bn h w"
  "make_commit now p r opn (w\<lparr>preflag := i\<rparr>) = make_commit now p r opn w"
  "commit_msg now c (w\<lparr>preflag := i\<rparr>) = commit_msg now c w"
  "record_commit ht x (w\<lparr>preflag := i\<rparr>) = (fst (record_commit ht x w), (snd (record_commit ht x w))\<lparr>preflag := i\<rparr>)"
  "setCert v n f (w\<lparr>preflag := i\<rparr>) = (setCert v n f w)\<lparr>preflag := i\<rparr>"
  "sendConMsg_transfer2 now p ty (w\<lparr>preflag := i\<rparr>) = sendConMsg_transfer2 now p ty w"
  by (simp_all add: GetBlockFromPossibleValidBlock_def make_commit_def GetSelfNodeID_def vrsign_def commit_msg_def record_commit_def Let_def setCert_def the_cert_def
      sendConMsg_transfer2_def transfer_msg_def)

lemma cast_commit_preflag:
  "cast_commit now p r (w\<lparr>preflag := i\<rparr>) =
     (out_err (cast_commit now p r w), (out_state (cast_commit now p r w))\<lparr>preflag := i\<rparr>,
      out_effects (cast_commit now p r w))"
  by (simp add: cast_commit_def case_prod_beta Let_def split: option.split)

end
