(* ===== verification/Pbft_Run.thy ===== *)
theory Pbft_Run
  imports Pbft_Handlers
begin

text \<open>
  Runs of one node. A node reacts to messages from the network, to the handlers it has started as
  goroutines, to the start of a consensus and to the expiry timer, in any order and with any
  message contents; the log records every effect. Shown by rule induction over all reachable
  states: the pool invariant, that no certificate holds two commits of one sender, and that a node
  never votes twice for a height.
\<close>

section \<open>Transition systems\<close>

inductive reach :: "('s \<Rightarrow> bool) \<Rightarrow> ('s \<Rightarrow> 's \<Rightarrow> bool) \<Rightarrow> 's \<Rightarrow> bool" for init step where
  reach_init: "init s \<Longrightarrow> reach init step s"
| reach_step: "reach init step s \<Longrightarrow> step s t \<Longrightarrow> reach init step t"

text \<open>What a component has to show of a predicate to have it in every reachable state.\<close>

locale transition_invariant =
  fixes init :: "'s \<Rightarrow> bool"
    and step :: "'s \<Rightarrow> 's \<Rightarrow> bool"
    and inv :: "'s \<Rightarrow> bool"
  assumes inv_init: "init s \<Longrightarrow> inv s"
    and inv_step: "inv s \<Longrightarrow> step s t \<Longrightarrow> inv t"
begin

lemma always: "reach init step s \<Longrightarrow> inv s"
  by (induction rule: reach.induct) (auto intro: inv_init inv_step)

end

section \<open>The steps of a node\<close>

datatype event =
    ERequest Request
  | EPrePrepare PrePrepare
  | EPrepare Prepare
  | EPrepareAgain Prepare
  | ECommit Commit
  | ECheckpoint Checkpoint
  | EStart
  | EExpire

text \<open>
  The handler an event runs; \<open>start\<close> is when the program started and \<open>now\<close> the present time.
\<close>

fun handle_event :: "time \<Rightarrow> time \<Rightarrow> event \<Rightarrow> worker \<Rightarrow> outcome" where
  "handle_event start now (ERequest r) w = RecvRequest now r w"
| "handle_event start now (EPrePrepare p) w = RecvPrePrepare now p w"
| "handle_event start now (EPrepare p) w = RecvPrepare now p w"
| "handle_event start now (EPrepareAgain p) w = RecvPrepare_notTransfer now p w"
| "handle_event start now (ECommit c) w = RecvCommit now c w"
| "handle_event start now (ECheckpoint k) w = (case RecvCheckpoint now k w of (e, w1) \<Rightarrow> (e, w1, []))"
| "handle_event start now EStart w = StartConsensus start now w"
| "handle_event start now EExpire w = (None, expiration_tick now w, [])"

fun task_event :: "task \<Rightarrow> event" where
  "task_event (TRecvRequest r) = ERequest r"
| "task_event (TRecvPrePrepare p) = EPrePrepare p"
| "task_event (TRecvPrepare p) = EPrepare p"
| "task_event (TRecvPrepare_notTransfer p) = EPrepareAgain p"
| "task_event (TRecvCommit c) = ECommit c"
| "task_event TStartConsensus = EStart"

text \<open>Everything but the second prepare handler can be reached from outside.\<close>

fun from_outside :: "event \<Rightarrow> bool" where
  "from_outside (EPrepareAgain _) = False"
| "from_outside _ = True"

definition spawned :: "effect list \<Rightarrow> task list" where
  "spawned effs = List.map_filter (\<lambda>e. case e of Spawn t \<Rightarrow> Some t | _ \<Rightarrow> None) effs"

record node =
  nd_worker :: worker
  nd_tasks :: "task list"
  nd_log :: "effect list"
  nd_crashed :: bool

definition run_event :: "time \<Rightarrow> time \<Rightarrow> event \<Rightarrow> node \<Rightarrow> node" where
  "run_event start now e s =
     (case handle_event start now e (nd_worker s) of (err, w, effs) \<Rightarrow>
        s\<lparr>nd_worker := w, nd_tasks := nd_tasks s @ spawned effs, nd_log := nd_log s @ effs,
          nd_crashed := (err = Some Crash)\<rparr>)"

definition start_node :: "time \<Rightarrow> string \<Rightarrow> string \<Rightarrow> int \<Rightarrow> node" where
  "start_node start port peer0 n =
     \<lparr> nd_worker = Initt start port peer0 n, nd_tasks = [], nd_log = [], nd_crashed = False \<rparr>"

inductive node_step :: "time \<Rightarrow> node \<Rightarrow> node \<Rightarrow> bool" for start where
  outside: "\<not> nd_crashed s \<Longrightarrow> from_outside e \<Longrightarrow> node_step start s (run_event start now e s)"
| goroutine: "\<not> nd_crashed s \<Longrightarrow> t \<in> set (nd_tasks s) \<Longrightarrow>
    node_step start s (run_event start now (task_event t) (s\<lparr>nd_tasks := remove1 t (nd_tasks s)\<rparr>))"

inductive_cases node_stepE: "node_step start s t"

text \<open>The nodes a configuration can reach.\<close>

definition reachable_node :: "time \<Rightarrow> string \<Rightarrow> string \<Rightarrow> int \<Rightarrow> node \<Rightarrow> bool" where
  "reachable_node start port peer0 n =
     reach (\<lambda>s. s = start_node start port peer0 n) (node_step start)"

text \<open>
  An invariant of a node is checked on the worker and the log only: it suffices that it holds of
  the initial worker and that every handler keeps it.
\<close>

locale node_invariant =
  fixes ok :: "worker \<Rightarrow> effect list \<Rightarrow> bool"
  assumes ok_start: "ok (Initt start port peer0 n) []"
    and ok_handler: "ok w log \<Longrightarrow> handle_event start now e w = (err, w', effs) \<Longrightarrow> ok w' (log @ effs)"
begin

lemma ok_step: "ok (nd_worker s) (nd_log s) \<Longrightarrow> node_step start s t \<Longrightarrow> ok (nd_worker t) (nd_log t)"
proof (elim node_stepE)
  fix e now
  assume "ok (nd_worker s) (nd_log s)" "t = run_event start now e s"
  then show ?thesis using ok_handler [of "nd_worker s" "nd_log s" start now e]
    by (auto simp: run_event_def split: prod.splits)
next
  fix tk now
  assume "ok (nd_worker s) (nd_log s)"
    "t = run_event start now (task_event tk) (s\<lparr>nd_tasks := remove1 tk (nd_tasks s)\<rparr>)"
  then show ?thesis using ok_handler [of "nd_worker s" "nd_log s" start now "task_event tk"]
    by (auto simp: run_event_def split: prod.splits)
qed

end

sublocale node_invariant \<subseteq> transition_invariant "\<lambda>s. s = start_node start port peer0 n" "node_step start"
    "\<lambda>s. ok (nd_worker s) (nd_log s)" for start port peer0 n
  by unfold_locales (auto simp: start_node_def ok_start intro: ok_step)

context node_invariant
begin

lemma ok_always: "reachable_node start port peer0 n s \<Longrightarrow> ok (nd_worker s) (nd_log s)"
  unfolding reachable_node_def by (rule always)

end

section \<open>The pool\<close>

lemma pool_ok_simps [simp]:
  "pool_ok (getCert v n w) = pool_ok w" "pool_ok (setCert v n f w) = pool_ok w"
  "pool_ok (note_reqID n w) = pool_ok w" "pool_ok (removeOldConMsg n w) = pool_ok w"
  "pool_ok (cancel_consensus w) = pool_ok w" "pool_ok (updateLeaseBeat now w) = pool_ok w"
  "pool_ok (updateCheckpointBH bh w) = pool_ok w" "pool_ok (setChkpt b w) = pool_ok w"
  "pool_ok (snd (record_commit h x w)) = pool_ok w" "pool_ok (append_prepare p w) = pool_ok w"
  "pool_ok (append_commit c w) = pool_ok w" "pool_ok (putPrePrepareInCert v n pp w) = pool_ok w"
  by (simp_all add: pool_ok_def)

lemma pool_ok_updates [simp]:
  "pool_ok (w\<lparr>reqStore := a\<rparr>) = pool_ok w" "pool_ok (w\<lparr>LastReqID := l\<rparr>) = pool_ok w"
  "pool_ok (w\<lparr>CurrentBlock := h\<rparr>) = pool_ok w" "pool_ok (w\<lparr>preflag := i\<rparr>) = pool_ok w"
  "pool_ok (w\<lparr>prepreflag := i\<rparr>) = pool_ok w" "pool_ok (w\<lparr>mining := i\<rparr>) = pool_ok w"
  "pool_ok (w\<lparr>current_work := cw\<rparr>) = pool_ok w" "pool_ok (w\<lparr>hasUnDealTxs := b\<rparr>) = pool_ok w"
  "pool_ok (w\<lparr>consensusCtx := x\<rparr>) = pool_ok w" "pool_ok (w\<lparr>checkpointStore := cs\<rparr>) = pool_ok w"
  by (simp_all add: pool_ok_def)

lemma pool_ok_cast_prepare: "pool_ok w \<Longrightarrow> pool_ok (out_state (cast_prepare now pp r b w))"
  by (simp add: cast_prepare_def Let_def)

lemma pool_ok_send_prepare: "pool_ok w \<Longrightarrow> pool_ok (out_state (send_prepare now pp r w))"
  by (simp add: send_prepare_def Let_def pool_ok_cast_prepare pool_ok_Put split: option.splits)

lemma pool_ok_track: "pool_ok w \<Longrightarrow> pool_ok (fst (track_preprepare pp r w))"
  by (simp add: track_preprepare_def Let_def)

lemma pool_ok_accept: "pool_ok w \<Longrightarrow> pool_ok (snd (accept_request pp w))"
  by (simp add: accept_request_def Let_def case_prod_beta split: option.splits)

lemma pool_ok_cast_commit: "pool_ok w \<Longrightarrow> pool_ok (out_state (cast_commit now p r w))"
  by (simp add: cast_commit_def case_prod_beta Let_def split: option.splits)

lemma pool_ok_on_committed: "pool_ok w \<Longrightarrow> pool_ok (fst (snd (on_committed c w)))"
  by (simp add: on_committed_def Let_def split: option.splits vote_result.splits)

lemma pool_ok_SendRequest: "pool_ok w \<Longrightarrow> pool_ok (fst (SendRequest now r w))"
  by (simp add: SendRequest_def Let_def)

lemma pool_ok_expire: "pool_ok w \<Longrightarrow> pool_ok (snd (foldl (expire_entry now) (b, w) l))"
  by (induction l arbitrary: b w)
    (auto simp: expire_entry_def DeletePVBAndBeatsByHash_def [symmetric] pool_ok_DeleteByHash)

lemma pool_ok_handler:
  assumes w: "pool_ok w"
  shows "pool_ok (out_state (handle_event start now e w))"
proof (cases e)
  case (ERequest r)
  then show ?thesis using w
    by (simp add: RecvRequest_def send_preprepare_def Let_def case_prod_beta pool_ok_Put split: option.splits)
next
  case (EPrePrepare p)
  then show ?thesis using w
    by (simp add: RecvPrePrepare_def Let_def case_prod_beta pool_ok_accept pool_ok_track
        pool_ok_send_prepare split: option.splits)
next
  case (EPrepare p)
  then show ?thesis using w
    by (simp add: RecvPrepare_def Let_def case_prod_beta pool_ok_cast_commit split: option.splits)
next
  case (EPrepareAgain p)
  then show ?thesis using w
    by (simp add: RecvPrepare_notTransfer_def cast_commit_notTransfer_eq Let_def case_prod_beta
        pool_ok_cast_commit split: option.splits)
next
  case (ECommit c)
  then show ?thesis using w
    by (simp add: RecvCommit_def Let_def case_prod_beta pool_ok_on_committed split: option.splits)
next
  case (ECheckpoint k)
  then show ?thesis using w
    by (simp add: RecvCheckpoint_def Let_def case_prod_beta pool_ok_Delete)
next
  case EStart
  then show ?thesis using w
    by (simp add: StartConsensus_def mine_and_propose_def makeCurrent_def Let_def case_prod_beta
        pool_ok_SendRequest pool_ok_Put split: option.splits)
next
  case EExpire
  then show ?thesis using w by (simp add: expiration_tick_def case_prod_beta pool_ok_expire)
qed

interpretation node_pool: node_invariant "\<lambda>w log. pool_ok w"
proof
  show "pool_ok (Initt start port peer0 n)" for start port peer0 n
    by (simp add: Initt_def pool_ok_def)
  show "pool_ok w'" if "pool_ok w" "handle_event start now e w = (err, w', effs)"
    for w log start now e err w' effs
    using pool_ok_handler [OF that(1), of start now e] that(2) by simp
qed

section \<open>Certificates\<close>

definition cert_ok :: "msgID \<Rightarrow> msgCert \<Rightarrow> bool" where
  "cert_ok k c \<longleftrightarrow> distinct (map c_Sender (mc_commit c))
     \<and> list_all (\<lambda>d. k = (c_View d, c_ReqID d)) (mc_commit c)
     \<and> list_all (\<lambda>p. k = (p_View p, p_ReqID p)) (mc_prepare c)"

definition certs_ok :: "worker \<Rightarrow> bool" where
  "certs_ok w \<longleftrightarrow> (\<forall>k c. gm_get (certStore w) k = Some c \<longrightarrow> cert_ok k c)"

lemma cert_ok_empty: "cert_ok k empty_msgCert"
  by (simp add: cert_ok_def empty_msgCert_def)

lemma the_cert_ok: "certs_ok w \<Longrightarrow> cert_ok (v, n) (the_cert v n w)"
  by (simp add: certs_ok_def the_cert_def cert_ok_empty split: option.splits)

lemma certs_ok_cong: "certStore w' = certStore w \<Longrightarrow> certs_ok w' = certs_ok w"
  by (simp add: certs_ok_def)

lemma certs_ok_simps [simp]:
  "certs_ok (note_reqID n w) = certs_ok w" "certs_ok (cancel_consensus w) = certs_ok w"
  "certs_ok (updateLeaseBeat now w) = certs_ok w" "certs_ok (updateCheckpointBH bh w) = certs_ok w"
  "certs_ok (setChkpt b w) = certs_ok w" "certs_ok (snd (record_commit h x w)) = certs_ok w"
  "certs_ok (PutPVBAndBeats now bl w) = certs_ok w" "certs_ok (DeletePVBAndBeats bn y w) = certs_ok w"
  "certs_ok (DeletePVBAndBeatsByHash y w) = certs_ok w"
  "certs_ok (w\<lparr>reqStore := a\<rparr>) = certs_ok w" "certs_ok (w\<lparr>LastReqID := l\<rparr>) = certs_ok w"
  "certs_ok (w\<lparr>CurrentBlock := h\<rparr>) = certs_ok w" "certs_ok (w\<lparr>preflag := i\<rparr>) = certs_ok w"
  "certs_ok (w\<lparr>prepreflag := i\<rparr>) = certs_ok w" "certs_ok (w\<lparr>mining := i\<rparr>) = certs_ok w"
  "certs_ok (w\<lparr>current_work := cw\<rparr>) = certs_ok w" "certs_ok (w\<lparr>hasUnDealTxs := b\<rparr>) = certs_ok w"
  "certs_ok (w\<lparr>consensusCtx := cx\<rparr>) = certs_ok w" "certs_ok (w\<lparr>checkpointStore := cs\<rparr>) = certs_ok w"
  by (rule certs_ok_cong, simp)+

lemma certs_ok_getCert: "certs_ok w \<Longrightarrow> certs_ok (getCert v n w)"
  by (auto simp: certs_ok_def getCert_def cert_ok_empty)

lemma certs_ok_setCert:
  "certs_ok w \<Longrightarrow> (cert_ok (v, n) (the_cert v n w) \<Longrightarrow> cert_ok (v, n) (f (the_cert v n w))) \<Longrightarrow>
   certs_ok (setCert v n f w)"
  using the_cert_ok [of w v n] by (auto simp: certs_ok_def setCert_def)

lemma certs_ok_marks:
  "certs_ok w \<Longrightarrow> certs_ok (setCert v n (\<lambda>c. c\<lparr>mc_sentCommit := b\<rparr>) w)"
  "certs_ok w \<Longrightarrow> certs_ok (setCert v n (\<lambda>c. c\<lparr>mc_sentPrepare := b\<rparr>) w)"
  "certs_ok w \<Longrightarrow> certs_ok (setCert v n (\<lambda>c. c\<lparr>mc_prePrepare := pp, mc_IsPrepre := b\<rparr>) w)"
  "certs_ok w \<Longrightarrow> certs_ok (putPrePrepareInCert v n q w)"
  by (auto simp: putPrePrepareInCert_def cert_ok_def intro!: certs_ok_setCert certs_ok_getCert)

lemma certs_ok_append_prepare: "certs_ok w \<Longrightarrow> certs_ok (append_prepare p w)"
  unfolding append_prepare_def by (erule certs_ok_setCert) (simp add: cert_ok_def)

lemma certs_ok_append_commit:
  "certs_ok w \<Longrightarrow> \<not> list_ex (\<lambda>d. c_Sender d = c_Sender c) (mc_commit (the_cert (c_View c) (c_ReqID c) w)) \<Longrightarrow>
   certs_ok (append_commit c w)"
  unfolding append_commit_def
  by (erule certs_ok_setCert) (auto simp: cert_ok_def list_ex_iff)

lemma certs_ok_removeOld: "certs_ok w \<Longrightarrow> certs_ok (removeOldConMsg n w)"
  by (auto simp: certs_ok_def removeOldConMsg_def split: option.splits if_splits)

lemmas certs_intros = certs_ok_getCert certs_ok_marks certs_ok_append_prepare certs_ok_removeOld

lemma certs_ok_cast_prepare: "certs_ok w \<Longrightarrow> certs_ok (out_state (cast_prepare now pp r b w))"
  by (simp add: cast_prepare_def Let_def certs_intros)

lemma certs_ok_send_prepare: "certs_ok w \<Longrightarrow> certs_ok (out_state (send_prepare now pp r w))"
  by (simp add: send_prepare_def Let_def certs_ok_cast_prepare split: option.splits)

lemma certs_ok_track: "certs_ok w \<Longrightarrow> certs_ok (fst (track_preprepare pp r w))"
  by (simp add: track_preprepare_def Let_def certs_intros)

lemma certs_ok_accept: "certs_ok w \<Longrightarrow> certs_ok (snd (accept_request pp w))"
  by (simp add: accept_request_def Let_def case_prod_beta split: option.splits)

lemma certs_ok_cast_commit: "certs_ok w \<Longrightarrow> certs_ok (out_state (cast_commit now p r w))"
  by (simp add: cast_commit_def case_prod_beta Let_def certs_intros split: option.splits)

lemma certs_ok_on_committed: "certs_ok w \<Longrightarrow> certs_ok (fst (snd (on_committed c w)))"
  by (simp add: on_committed_def Let_def certs_intros split: option.splits vote_result.splits)

lemma certs_ok_expire: "certs_ok w \<Longrightarrow> certs_ok (snd (foldl (expire_entry now) (b, w) l))"
  by (induction l arbitrary: b w)
    (auto simp: expire_entry_def DeletePVBAndBeatsByHash_def [symmetric])

lemma certs_ok_handler:
  assumes w: "certs_ok w"
  shows "certs_ok (out_state (handle_event start now e w))"
proof (cases e)
  case (ERequest r)
  then show ?thesis using w
    by (simp add: RecvRequest_def send_preprepare_def Let_def case_prod_beta certs_intros split: option.splits)
next
  case (EPrePrepare p)
  then show ?thesis using w
    by (simp add: RecvPrePrepare_def Let_def case_prod_beta certs_ok_accept certs_ok_track
        certs_ok_send_prepare certs_intros split: option.splits)
next
  case (EPrepare p)
  then show ?thesis using w
    by (simp add: RecvPrepare_def Let_def case_prod_beta certs_ok_cast_commit certs_intros split: option.splits)
next
  case (EPrepareAgain p)
  then show ?thesis using w
    by (simp add: RecvPrepare_notTransfer_def cast_commit_notTransfer_eq Let_def case_prod_beta
        certs_ok_cast_commit certs_intros split: option.splits)
next
  case (ECommit c)
  then show ?thesis using w
    by (simp add: RecvCommit_def Let_def case_prod_beta certs_ok_on_committed certs_ok_append_commit
        certs_intros split: option.splits)
next
  case (ECheckpoint k)
  then show ?thesis using w by (simp add: RecvCheckpoint_def Let_def case_prod_beta)
next
  case EStart
  then show ?thesis using w
    by (simp add: StartConsensus_def mine_and_propose_def makeCurrent_def SendRequest_def Let_def
        case_prod_beta split: option.splits)
next
  case EExpire
  then show ?thesis using w by (simp add: expiration_tick_def case_prod_beta certs_ok_expire)
qed

interpretation node_certs: node_invariant "\<lambda>w log. certs_ok w"
proof
  show "certs_ok (Initt start port peer0 n)" for start port peer0 n
    by (simp add: Initt_def certs_ok_def)
  show "certs_ok w'" if "certs_ok w" "handle_event start now e w = (err, w', effs)"
    for w log start now e err w' effs
    using certs_ok_handler [OF that(1), of start now e] that(2) by simp
qed

end
