(* ===== verification/Pbft_Votes.thy ===== *)
theory Pbft_Votes
  imports Pbft_Run
begin

text \<open>
  The commits a node casts over a whole run: it casts at most one for each height, whatever it
  receives. \<^verbatim>\<open>commitStore\<close> carries the argument: a height that was voted for stays in it
  until the chain has reached the height.
\<close>

section \<open>The commits in a list of effects\<close>

definition commits_of :: "effect list \<Rightarrow> Commit list" where
  "commits_of effs = List.map_filter (\<lambda>e. case e of Spawn (TRecvCommit c) \<Rightarrow> Some c | _ \<Rightarrow> None) effs"

definition commit_posts :: "effect list \<Rightarrow> ConsensusMsg list" where
  "commit_posts effs = filter (\<lambda>m. cm_Type m = ''PBFTCommit'') (posts effs)"

abbreviation height_of :: "Commit \<Rightarrow> u64" where
  "height_of c \<equiv> vr_BlockHeight (c_VR c)"

lemma commits_of_simps [simp]:
  "commits_of [] = []" "commits_of (Post m # es) = commits_of es"
  "commits_of (PostTransfer t # es) = commits_of es" "commits_of (PostCheckpoint k # es) = commits_of es"
  "commits_of (PostForceSync # es) = commits_of es" "commits_of (Spawn (TRecvCommit c) # es) = c # commits_of es"
  "commits_of (Spawn (TRecvRequest r) # es) = commits_of es"
  "commits_of (Spawn (TRecvPrePrepare pp) # es) = commits_of es"
  "commits_of (Spawn (TRecvPrepare p) # es) = commits_of es"
  "commits_of (Spawn (TRecvPrepare_notTransfer p) # es) = commits_of es"
  "commits_of (Spawn TStartConsensus # es) = commits_of es"
  "commits_of (es @ fs) = commits_of es @ commits_of fs"
  by (simp_all add: commits_of_def map_filter_simps map_filter_def)

lemma commits_of_transfer [simp]:
  "commits_of (sendConMsg_transfer1 now a ty w) = []" "commits_of (sendConMsg_transfer2 now b ty w) = []"
  "commits_of (sendConMsg_transfer3 now c ty w) = []"
  by (simp_all add: sendConMsg_transfer1_def sendConMsg_transfer2_def sendConMsg_transfer3_def)

lemma commit_posts_append [simp]: "commit_posts (es @ fs) = commit_posts es @ commit_posts fs"
  by (simp add: commit_posts_def)

definition no_commits :: "effect list \<Rightarrow> bool" where
  "no_commits effs \<longleftrightarrow> commits_of effs = [] \<and> commit_posts effs = []"

lemma no_commits_append [simp]: "no_commits (es @ fs) \<longleftrightarrow> no_commits es \<and> no_commits fs"
  by (auto simp: no_commits_def)

lemma no_commits_simps [simp]:
  "no_commits []" "no_commits (PostTransfer t # es) = no_commits es"
  "no_commits (PostCheckpoint k # es) = no_commits es"
  "no_commits (Spawn (TRecvRequest r) # es) = no_commits es"
  "no_commits (Spawn (TRecvPrePrepare pp) # es) = no_commits es"
  "no_commits (Spawn (TRecvPrepare p) # es) = no_commits es"
  "no_commits (Spawn (TRecvPrepare_notTransfer p) # es) = no_commits es"
  "cm_Type m \<noteq> ''PBFTCommit'' \<Longrightarrow> no_commits (Post m # es) = no_commits es"
  by (simp_all add: no_commits_def commit_posts_def)

lemma no_commits_transfer [simp]:
  "no_commits (sendConMsg_transfer1 now a ty w)" "no_commits (sendConMsg_transfer2 now b ty w)"
  "no_commits (sendConMsg_transfer3 now c ty w)"
  by (simp_all add: no_commits_def commit_posts_def)

section \<open>What one handler may do to the votes\<close>

definition votes_step :: "worker \<Rightarrow> worker \<Rightarrow> effect list \<Rightarrow> bool" where
  "votes_step w w' effs \<longleftrightarrow>
     map cm_Msg (commit_posts effs) = map (Marshal Commit_fields) (commits_of effs)
   \<and> (commits_of effs = [] \<or>
      (\<exists>c. commits_of effs = [c] \<and> c_Sender c = nodeID w \<and> CurrentBlock w < height_of c
         \<and> \<not> gm_has (commitStore w) (height_of c) \<and> gm_has (commitStore w') (height_of c)))
   \<and> nodeID w' = nodeID w \<and> CurrentBlock w \<le> CurrentBlock w'
   \<and> (\<forall>k. gm_has (commitStore w) k \<longrightarrow> k \<le> CurrentBlock w' \<or> gm_has (commitStore w') k)"

lemma votes_step_quiet:
  "no_commits effs \<Longrightarrow> nodeID w' = nodeID w \<Longrightarrow> CurrentBlock w \<le> CurrentBlock w' \<Longrightarrow>
   commitStore w' = commitStore w \<Longrightarrow> votes_step w w' effs"
  by (simp add: votes_step_def no_commits_def)

lemma make_commit_simps [simp]:
  "c_Sender (make_commit now p r opn w) = nodeID w"
  "height_of (make_commit now p r opn w) = rq_BlockHeight r"
  by (simp_all add: make_commit_def vrsign_def GetSelfNodeID_def Let_def)

lemma cast_commit_step:
  "votes_step w (out_state (cast_commit now p r w)) (out_effects (cast_commit now p r w))"
proof (cases "CurrentBlock w < rq_BlockHeight r \<and> candidate_block r w \<noteq> None \<and> \<not> gm_has (commitStore w) (rq_BlockHeight r)")
  case True
  then obtain b where b: "candidate_block r w = Some b" by blast
  then have "\<not> rq_BlockHeight r < CurrentBlock w" using True by auto
  then show ?thesis
    using True b
    by (subst cast_commit_votes [where b = b], simp_all add: Let_def)+
      (auto simp: votes_step_def commit_posts_def commit_msg_def record_commit_has)
next
  case False
  then have "no_commits (out_effects (cast_commit now p r w))"
    by (auto simp: cast_commit_def candidate_block_def record_commit_def Let_def split: option.splits if_splits)
  moreover have "gm_has (commitStore (out_state (cast_commit now p r w))) k \<or> k \<le> CurrentBlock w"
    if "gm_has (commitStore w) k" for k
    using that by (auto simp: cast_commit_def Let_def case_prod_beta record_commit_has split: option.splits)
  moreover have "nodeID (out_state (cast_commit now p r w)) = nodeID w"
    by (simp add: cast_commit_def Let_def case_prod_beta split: option.splits)
  ultimately show ?thesis by (auto simp: votes_step_def no_commits_def)
qed

lemma votes_step_from:
  "votes_step w1 w' effs \<Longrightarrow> nodeID w1 = nodeID w \<Longrightarrow> CurrentBlock w1 = CurrentBlock w \<Longrightarrow>
   commitStore w1 = commitStore w \<Longrightarrow> no_commits fs \<Longrightarrow> votes_step w w' (effs @ fs)"
  by (auto simp: votes_step_def no_commits_def)

lemma cast_commit_step_from:
  assumes "nodeID w1 = nodeID w" "CurrentBlock w1 = CurrentBlock w" "commitStore w1 = commitStore w"
    and "cast_commit now p r w1 = (e, w', effs)" "no_commits fs"
  shows "votes_step w w' (effs @ fs)"
  using cast_commit_step [of w1 now p r] assms votes_step_from by simp

lemmas quiet = votes_step_quiet [OF no_commits_simps(1)]

lemma RecvPrepare_step:
  "votes_step w (out_state (RecvPrepare now p w)) (out_effects (RecvPrepare now p w))"
proof -
  let ?W = "append_prepare p (getCert (p_View p) (p_ReqID p) w)"
  have c: "votes_step w w' effs \<and> votes_step w w' (effs @ sendConMsg_transfer2 now p ty w'')"
    if "cast_commit now p r w1 = (e, w', effs)" "nodeID w1 = nodeID w" "CurrentBlock w1 = CurrentBlock w"
      "commitStore w1 = commitStore w" for r w1 e w' effs ty w''
    using cast_commit_step_from [OF that(2-4,1), of "[]"]
      cast_commit_step_from [OF that(2-4,1), of "sendConMsg_transfer2 now p ty w''"] by simp
  show ?thesis
    by (auto simp: RecvPrepare_def Let_def quiet votes_step_quiet c split: option.splits prod.splits)
qed

lemma RecvPrepare_notTransfer_step:
  "votes_step w (out_state (RecvPrepare_notTransfer now p w)) (out_effects (RecvPrepare_notTransfer now p w))"
proof -
  have c: "votes_step w w' effs \<and> votes_step w w' (effs @ sendConMsg_transfer2 now p ty w'')"
    if "cast_commit now p r w1 = (e, w', effs)" "nodeID w1 = nodeID w" "CurrentBlock w1 = CurrentBlock w"
      "commitStore w1 = commitStore w" for r w1 e w' effs ty w''
    using cast_commit_step_from [OF that(2-4,1), of "[]"]
      cast_commit_step_from [OF that(2-4,1), of "sendConMsg_transfer2 now p ty w''"] by simp
  show ?thesis
    by (auto simp: RecvPrepare_notTransfer_def cast_commit_notTransfer_eq Let_def quiet votes_step_quiet c
        split: option.splits prod.splits)
qed

lemma RecvRequest_step:
  "votes_step w (out_state (RecvRequest now r w)) (out_effects (RecvRequest now r w))"
  by (auto simp: RecvRequest_def send_preprepare_def Let_def case_prod_beta quiet
      intro!: votes_step_quiet split: option.splits)

lemma cast_prepare_quiet:
  "no_commits (out_effects (cast_prepare now pp r b w))"
  "nodeID (out_state (cast_prepare now pp r b w)) = nodeID w"
  "commitStore (out_state (cast_prepare now pp r b w)) = commitStore w"
  by (simp_all add: cast_prepare_def Let_def)

lemma send_prepare_quiet:
  "no_commits (out_effects (send_prepare now pp r w))"
  "nodeID (out_state (send_prepare now pp r w)) = nodeID w"
  "commitStore (out_state (send_prepare now pp r w)) = commitStore w"
  by (simp_all add: send_prepare_def Let_def cast_prepare_quiet split: option.splits)

lemma track_preprepare_quiet:
  "no_commits (snd (track_preprepare pp r w))" "nodeID (fst (track_preprepare pp r w)) = nodeID w"
  "commitStore (fst (track_preprepare pp r w)) = commitStore w"
  by (simp_all add: track_preprepare_def Let_def split: list.splits)

lemma accept_request_quiet:
  "nodeID (snd (accept_request pp w)) = nodeID w" "commitStore (snd (accept_request pp w)) = commitStore w"
  by (simp_all add: accept_request_def Let_def case_prod_beta split: option.splits)

lemma RecvPrePrepare_step:
  "votes_step w (out_state (RecvPrePrepare now pp w)) (out_effects (RecvPrePrepare now pp w))"
  by (rule votes_step_quiet)
    (simp_all add: RecvPrePrepare_def Let_def case_prod_beta send_prepare_quiet track_preprepare_quiet
      accept_request_quiet split: option.splits)

lemma on_committed_quiet:
  "no_commits (snd (snd (on_committed c w)))" "nodeID (fst (snd (on_committed c w))) = nodeID w"
  "commitStore (fst (snd (on_committed c w))) = commitStore w"
  by (simp_all add: on_committed_def Let_def split: option.splits vote_result.splits)

lemma next_height: "(h :: u64) < k \<Longrightarrow> h \<le> h + 1"
  using unat_Suc_below [of h k] by (simp add: word_le_nat_alt)

lemma RecvCommit_step:
  "votes_step w (out_state (RecvCommit now c w)) (out_effects (RecvCommit now c w))"
proof (rule votes_step_quiet)
  show "CurrentBlock w \<le> CurrentBlock (out_state (RecvCommit now c w))"
    using next_height [of "CurrentBlock w" "height_of c"]
    by (simp add: RecvCommit_height commit_decides_def commit_fresh_def)
qed (simp_all add: RecvCommit_def Let_def case_prod_beta on_committed_quiet split: option.splits)

lemma StartConsensus_step:
  "votes_step w (out_state (StartConsensus start now w)) (out_effects (StartConsensus start now w))"
  by (rule votes_step_quiet)
    (simp_all add: StartConsensus_def mine_and_propose_def makeCurrent_def SendRequest_def Let_def
      case_prod_beta split: option.splits)

lemma expire_quiet:
  "nodeID (snd (foldl (expire_entry now) (b, w) l)) = nodeID w
   \<and> commitStore (snd (foldl (expire_entry now) (b, w) l)) = commitStore w"
  by (induction l arbitrary: b w)
    (auto simp: expire_entry_def DeletePVBAndBeatsByHash_def [symmetric])

lemma votes_step_handler:
  assumes "handle_event start now e w = (err, w', effs)"
  shows "votes_step w w' effs"
proof -
  have "votes_step w (out_state (handle_event start now e w)) (out_effects (handle_event start now e w))"
  proof (cases e)
    case (ECheckpoint k)
    then show ?thesis
      by (simp add: case_prod_beta, intro quiet) (simp_all add: RecvCheckpoint_def Let_def)
  next
    case EExpire
    then show ?thesis
      by (simp, intro quiet) (simp_all add: expiration_tick_def case_prod_beta expire_quiet expire_fold_CurrentBlock)
  qed (simp_all add: RecvRequest_step RecvPrePrepare_step RecvPrepare_step RecvPrepare_notTransfer_step
      RecvCommit_step StartConsensus_step)
  then show ?thesis using assms by simp
qed

section \<open>One vote per height\<close>

definition voted_ok :: "worker \<Rightarrow> effect list \<Rightarrow> bool" where
  "voted_ok w log \<longleftrightarrow>
     map cm_Msg (commit_posts log) = map (Marshal Commit_fields) (commits_of log)
   \<and> distinct (map height_of (commits_of log))
   \<and> list_all (\<lambda>c. c_Sender c = nodeID w) (commits_of log)
   \<and> list_all (\<lambda>c. height_of c \<le> CurrentBlock w \<or> gm_has (commitStore w) (height_of c)) (commits_of log)"

lemma voted_ok_step:
  assumes v: "voted_ok w log" and s: "votes_step w w' effs"
  shows "voted_ok w' (log @ effs)"
proof -
  have old: "height_of c \<le> CurrentBlock w' \<or> gm_has (commitStore w') (height_of c)"
    if "c \<in> set (commits_of log)" for c
    using v s that order.trans [of "height_of c" "CurrentBlock w" "CurrentBlock w'"]
    by (auto simp: voted_ok_def votes_step_def list_all_iff)
  have new: "height_of c \<notin> height_of ` set (commits_of log)"
    if "commits_of effs = [c]" for c
    using v s that by (fastforce simp: voted_ok_def votes_step_def list_all_iff)
  show ?thesis
    using v s old new by (auto simp: voted_ok_def votes_step_def list_all_iff)
qed

interpretation node_votes: node_invariant voted_ok
proof
  show "voted_ok (Initt start port peer0 n) []" for start port peer0 n
    by (simp add: voted_ok_def commit_posts_def)
  show "voted_ok w' (log @ effs)" if "voted_ok w log" "handle_event start now e w = (err, w', effs)"
    for w log start now e err w' effs
    using that votes_step_handler voted_ok_step by blast
qed

lemma Initt_simps [simp]:
  "nodeID (Initt start port peer0 n) = ''127.0.0.1'' @ port" "validators (Initt start port peer0 n) = n"
  "CurrentBlock (Initt start port peer0 n) = 1" "view (Initt start port peer0 n) = 1"
  "commitStore (Initt start port peer0 n) = gm_empty"
  by (simp_all add: Initt_def)

lemma votes_with_ok:
  assumes f: "commit_fresh c w" and ok: "certs_ok w"
  shows "cert_ok (c_View c, c_ReqID c) (votes_with c w)"
proof -
  have "list_all (\<lambda>d. c_Sender d \<noteq> c_Sender c) (mc_commit (the_cert (c_View c) (c_ReqID c) w))"
    using f unfolding commit_fresh_def by blast
  then have "c_Sender c \<notin> c_Sender ` set (mc_commit (the_cert (c_View c) (c_ReqID c) w))"
    by (auto simp: list_all_iff)
  then show ?thesis
    using the_cert_ok [OF ok, of "c_View c" "c_ReqID c"] by (simp add: votes_with_def cert_ok_def)
qed

lemma positive_quorum_decides:
  assumes f: "commit_fresh c w" and p: "prepared (c_RequestDigest c) (c_View c) (c_ReqID c) w"
    and r: "gm_has (reqStore w) (c_RequestDigest c)" and ok: "certs_ok w"
    and q: "getQuorum (validators w) \<le> int (card (supporters (mc_commit (votes_with c w))))"
  shows "commit_decides possitive c w"
proof -
  let ?cs = "mc_commit (votes_with c w)"
  have "\<forall>d \<in> set ?cs. c_View d = c_View c \<and> c_ReqID d = c_ReqID c"
    and d: "distinct (map c_Sender ?cs)"
    using votes_with_ok [OF f ok] by (auto simp: cert_ok_def list_all_iff)
  then have s: "supporters ?cs \<subseteq> c_Sender ` {d \<in> set ?cs. c_View d = c_View c \<and> c_ReqID d = c_ReqID c}"
    unfolding supporters_def by blast
  have "card (supporters ?cs) \<le> card (c_Sender ` {d \<in> set ?cs. c_View d = c_View c \<and> c_ReqID d = c_ReqID c})"
    by (rule card_mono [OF _ s]) simp
  moreover have "GetValidResFromCommit (votes_with c w) w = possitive"
    using q by (simp add: GetValidRes_distinct [OF d])
  ultimately show ?thesis using f p r q unfolding commit_decides_def by linarith
qed

end
