(* ===== verification/Pbft_Scenario.thy ===== *)
theory Pbft_Scenario
  imports Pbft_Votes
begin

text \<open>
  Concrete runs: executing a list of outside events on a node, and a small network in which block
  2 is proposed, prepared and committed.
\<close>

section \<open>Running a list of events\<close>

fun outside_run :: "time \<Rightarrow> (time \<times> event) list \<Rightarrow> node \<Rightarrow> node option" where
  "outside_run start [] s = Some s"
| "outside_run start ((now, e) # es) s =
     (if nd_crashed s \<or> \<not> from_outside e then None else outside_run start es (run_event start now e s))"

lemma outside_run_reachable:
  "reachable_node start port peer0 n s \<Longrightarrow> outside_run start es s = Some t \<Longrightarrow>
   reachable_node start port peer0 n t"
proof (induction es arbitrary: s)
  case (Cons e es)
  obtain now ev where e: "e = (now, ev)" by (cases e)
  have "node_step start s (run_event start now ev s)"
    using Cons.prems(2) by (auto simp: e intro: node_step.outside split: if_splits)
  then have "reachable_node start port peer0 n (run_event start now ev s)"
    using Cons.prems(1) reach_step unfolding reachable_node_def by metis
  then show ?case using Cons.IH Cons.prems(2) by (auto simp: e split: if_splits)
qed simp

lemma start_reachable: "reachable_node start port peer0 n (start_node start port peer0 n)"
  unfolding reachable_node_def by (rule reach_init) simp

section \<open>A network of two nodes\<close>

definition sc_header :: Header where
  "sc_header = \<lparr> h_ParentHash = ''1'', h_Number = Some 2, h_Coinbase = replicate AddressLength 0,
     h_Extra = [], h_Time = Some 0, h_ChainName = [], h_Root = [CHR 0x02, CHR ''1''] \<rparr>"

definition sc_block :: Block where
  "sc_block = new_block 1 sc_header"

definition sc_request :: Request where
  "sc_request = \<lparr> rq_ReqID = 2, rq_Sender = ''127.0.0.1:1'', rq_View = 1, rq_Timestamp = 0,
     rq_BlockHeight = 2, rq_BlockHash = ''2'', rq_BlockCreator = replicate AddressLength 0,
     rq_Block = [], rq_Realblock = Some sc_block \<rparr>"

definition sc_preprepare :: PrePrepare where
  "sc_preprepare = \<lparr> pp_Sender = ''127.0.0.1:1'', pp_View = 1, pp_Timestamp = 0, pp_ReqID = 2,
     pp_RequestDigest = ''2'', pp_Request = Some sc_request \<rparr>"

definition sc_prepare :: "string \<Rightarrow> Prepare" where
  "sc_prepare sender = \<lparr> p_Sender = sender, p_View = 1, p_Timestamp = 0, p_ReqID = 2,
     p_RequestDigest = ''2'', p_TxsExeSeqs = [1], p_RealTxsExeSeqs = None \<rparr>"

definition sc_commit :: "string \<Rightarrow> Commit" where
  "sc_commit sender = \<lparr> c_Sender = sender, c_View = 1, c_Timestamp = 0, c_ReqID = 2,
     c_RequestDigest = ''2'',
     c_VR = \<lparr> vr_Sender = sender, vr_BlockHeight = 2, vr_BlockHash = ''2'',
              vr_BlockCreator = replicate AddressLength 0, vr_Opinion = True, vr_Sign = sender \<rparr> \<rparr>"

definition sc_events :: "(time \<times> event) list" where
  "sc_events = [(0, EPrePrepare sc_preprepare), (0, EPrepare (sc_prepare ''127.0.0.1:1'')),
     (0, EPrepare (sc_prepare ''127.0.0.1:2''))]"

definition sc_node :: "string \<Rightarrow> node option" where
  "sc_node port = outside_run 0 sc_events (start_node 0 port '':1'' 2)"


text \<open>
  The first node once the request is pre-prepared, with the given prepares and commits received.
\<close>

definition sc_cert :: "Prepare list \<Rightarrow> Commit list \<Rightarrow> msgCert" where
  "sc_cert ps cs = empty_msgCert\<lparr>mc_prePrepare := Some sc_preprepare, mc_sentPrepare := True,
     mc_prepare := ps, mc_commit := cs\<rparr>"

definition sc_state :: "Prepare list \<Rightarrow> Commit list \<Rightarrow> worker" where
  "sc_state ps cs = (Initt 0 '':1'' '':1'' 2)
     \<lparr>reqStore := gm_put gm_empty ''2'' sc_request,
      certStore := gm_put gm_empty (1, 2) (sc_cert ps cs)\<rparr>"

lemmas sc_defs = sc_state_def sc_cert_def sc_request_def sc_preprepare_def sc_prepare_def sc_commit_def
  empty_msgCert_def

lemma sc_state_simps [simp]:
  "the_cert 1 2 (sc_state ps cs) = sc_cert ps cs" "CurrentBlock (sc_state ps cs) = 1"
  "view (sc_state ps cs) = 1" "ready (sc_state ps cs)" "validators (sc_state ps cs) = 2"
  "gm_get (reqStore (sc_state ps cs)) ''2'' = Some sc_request"
  "gm_has (reqStore (sc_state ps cs)) ''2''" "\<not> gm_has (commitStore (sc_state ps cs)) h"
  by (simp_all add: sc_state_def the_cert_def Initt_def)

lemma sc_prepared:
  "prepared ''2'' 1 2 (sc_state (sc_prepare s # sc_prepare t # ps) cs)"
  by (simp add: prepared_iff prePrepared_iff sc_cert_def sc_preprepare_def sc_prepare_def
      prepare_matches_def getQuorum_def)

lemma sc_decides_hyps:
  defines "c \<equiv> sc_commit ''127.0.0.1:2''"
    and "w \<equiv> sc_state [sc_prepare ''127.0.0.1:1'', sc_prepare ''127.0.0.1:2''] [sc_commit ''127.0.0.1:1'']"
  shows "commit_fresh c w" "prepared (c_RequestDigest c) (c_View c) (c_ReqID c) w"
    "gm_has (reqStore w) (c_RequestDigest c)" "certs_ok w"
    "getQuorum (validators w) \<le> int (card (supporters (mc_commit (votes_with c w))))"
proof -
  have c: "c_View c = 1" "c_ReqID c = 2" "c_RequestDigest c = ''2''" "height_of c = 2"
    by (simp_all add: c_def sc_commit_def)
  show "commit_fresh c w" unfolding commit_fresh_def c w_def
    by (simp add: c_def) (simp add: sc_defs)
  show "prepared (c_RequestDigest c) (c_View c) (c_ReqID c) w"
    unfolding c w_def by (rule sc_prepared)
  show "gm_has (reqStore w) (c_RequestDigest c)" unfolding c w_def by simp
  show "certs_ok w" by (auto simp: certs_ok_def w_def sc_defs cert_ok_def split: if_splits)
  show "getQuorum (validators w) \<le> int (card (supporters (mc_commit (votes_with c w))))"
    unfolding votes_with_def c w_def
    by (simp add: supporters_Cons c_def getQuorum_def) (simp add: sc_defs supporters_Cons)
qed

lemma sc_decides:
  "commit_decides possitive (sc_commit ''127.0.0.1:2'')
     (sc_state [sc_prepare ''127.0.0.1:1'', sc_prepare ''127.0.0.1:2''] [sc_commit ''127.0.0.1:1''])"
  by (rule positive_quorum_decides) (rule sc_decides_hyps)+

text \<open>The first node after it has started a consensus.\<close>

definition sc_started :: node where
  "sc_started = run_event 0 0 EStart (start_node 0 '':1'' '':1'' 2)"

lemma sc_started_reachable: "reachable_node 0 '':1'' '':1'' 2 sc_started"
  by (rule outside_run_reachable [OF start_reachable, where es = "[(0, EStart)]"])
    (simp add: sc_started_def start_node_def)

lemma sc_node_reachable: "sc_node port = Some s \<Longrightarrow> reachable_node 0 port '':1'' 2 s"
  unfolding sc_node_def by (rule outside_run_reachable [OF start_reachable])

lemma sc_node_1:
  "\<exists>s cert. sc_node '':1'' = Some s \<and> commits_of (nd_log s) = [sc_commit ''127.0.0.1:1'']
     \<and> gm_get (certStore (nd_worker s)) (1, 2) = Some cert \<and> length (mc_prepare cert) = 2
     \<and> nodeID (nd_worker s) = ''127.0.0.1:1''"
proof -
  have "(case sc_node '':1'' of None \<Rightarrow> False
     | Some s \<Rightarrow> commits_of (nd_log s) = [sc_commit ''127.0.0.1:1'']
         \<and> (case gm_get (certStore (nd_worker s)) (1, 2) of None \<Rightarrow> False
            | Some cert \<Rightarrow> length (mc_prepare cert) = 2) \<and> nodeID (nd_worker s) = ''127.0.0.1:1'')"
    by code_simp
  then show ?thesis by (auto split: option.splits)
qed

lemma sc_node_2:
  "\<exists>s. sc_node '':2'' = Some s \<and> commits_of (nd_log s) = [sc_commit ''127.0.0.1:2'']
     \<and> nodeID (nd_worker s) = ''127.0.0.1:2''"
proof -
  have "(case sc_node '':2'' of None \<Rightarrow> False
     | Some s \<Rightarrow> commits_of (nd_log s) = [sc_commit ''127.0.0.1:2''] \<and> nodeID (nd_worker s) = ''127.0.0.1:2'')"
    by code_simp
  then show ?thesis by (auto split: option.splits)
qed

end
