(* ===== verification/Pbft_Network.thy ===== *)
theory Pbft_Network
  imports Pbft_Scenario
begin

text \<open>
  Several nodes. A network is a map from node identifiers to nodes, each with its own run; the
  messages between them are not restricted, except that a faulty node cannot speak in the name of
  a correct one. That is a hypothesis on the network: \<^verbatim>\<open>Eth_Wire\<close> shows that the manager checks the
  signature of the peer a message comes from, but not that the peer is the sender named in the message.
\<close>

definition authentic :: "(string \<Rightarrow> node) \<Rightarrow> string set \<Rightarrow> string set \<Rightarrow> Commit list \<Rightarrow> bool" where
  "authentic net nodes faulty cs \<longleftrightarrow> (\<forall>c \<in> set cs. c_Sender c \<in> nodes \<and>
     (c_Sender c \<in> faulty \<or> c \<in> set (commits_of (nd_log (net (c_Sender c))))))"

definition all_for :: "u64 \<Rightarrow> string \<Rightarrow> Commit list \<Rightarrow> bool" where
  "all_for h x cs \<longleftrightarrow> (\<forall>c \<in> set cs. vr_Opinion (c_VR c) \<longrightarrow> height_of c = h \<and> vr_BlockHash (c_VR c) = x)"

definition correct_nodes :: "time \<Rightarrow> string \<Rightarrow> (string \<Rightarrow> node) \<Rightarrow> string set \<Rightarrow> string set \<Rightarrow> bool" where
  "correct_nodes start peer0 net nodes faulty \<longleftrightarrow>
     finite nodes \<and> 2 \<le> card nodes \<and> faulty \<subseteq> nodes \<and> card faulty \<le> max_faulty (card nodes)
   \<and> (\<forall>p \<in> nodes - faulty. \<exists>port. reachable_node start port peer0 (int (card nodes)) (net p))"

text \<open>The commits of a correct node for one height are one commit.\<close>

lemma one_commit:
  assumes "reachable_node start port peer0 n s"
    and "c \<in> set (commits_of (nd_log s))" "d \<in> set (commits_of (nd_log s))" "height_of c = height_of d"
  shows "c = d"
proof -
  have "distinct (map height_of (commits_of (nd_log s)))"
    using node_votes.ok_always [OF assms(1)] by (simp add: voted_ok_def)
  with assms(2-4) show ?thesis by (simp add: distinct_map inj_on_def)
qed

lemma supporters_in: "authentic net nodes faulty cs \<Longrightarrow> supporters cs \<subseteq> nodes"
  by (auto simp: authentic_def supporters_def)

lemma quorum_of_verdict:
  assumes "GetValidResFromCommit cert w = possitive" "validators w = int n"
  shows "nat (getQuorum (int n)) \<le> card (supporters (mc_commit cert))"
  using GetValidRes_possitive [OF assms(1)] assms(2) by simp

section \<open>The network of the scenario\<close>

definition sc_net :: "string \<Rightarrow> node" where
  "sc_net p = (case sc_node (drop 9 p) of None \<Rightarrow> start_node 0 '':1'' '':1'' 2 | Some s \<Rightarrow> s)"

definition sc_names :: "string set" where
  "sc_names = {''127.0.0.1:1'', ''127.0.0.1:2''}"

definition sc_votes :: "Commit list" where
  "sc_votes = [sc_commit ''127.0.0.1:1'', sc_commit ''127.0.0.1:2'']"

lemma sc_net_correct: "correct_nodes 0 '':1'' sc_net sc_names {}"
proof -
  obtain s t where "sc_node '':1'' = Some s" "sc_node '':2'' = Some t"
    using sc_node_1 sc_node_2 by blast
  then show ?thesis
    by (auto simp: correct_nodes_def sc_names_def sc_net_def intro!: sc_node_reachable)
qed

lemma sc_net_authentic: "authentic sc_net sc_names {} sc_votes"
proof -
  obtain s t where "sc_node '':1'' = Some s" "commits_of (nd_log s) = [sc_commit ''127.0.0.1:1'']"
    "sc_node '':2'' = Some t" "commits_of (nd_log t) = [sc_commit ''127.0.0.1:2'']"
    using sc_node_1 sc_node_2 by blast
  moreover have "c_Sender (sc_commit x) = x" for x by (simp add: sc_commit_def)
  ultimately show ?thesis by (simp add: authentic_def sc_net_def sc_names_def sc_votes_def)
qed

lemma sc_votes_for_2: "all_for 2 ''2'' sc_votes"
  by (simp add: all_for_def sc_votes_def sc_commit_def)

lemma sc_votes_positive: "GetValidResFromCommit (sc_cert [] sc_votes) (sc_state [] []) = possitive"
proof -
  have "supporters sc_votes = sc_names" "map c_Sender sc_votes = [''127.0.0.1:1'', ''127.0.0.1:2'']"
    by (simp_all add: sc_votes_def sc_names_def supporters_Cons sc_commit_def)
  then show ?thesis
    by (simp add: GetValidRes_distinct sc_cert_def sc_names_def getQuorum_def)
qed

end
