(* ===== verification/Pbft_Exec.thy ===== *)
theory Pbft_Exec
  imports Pbft_Basic
begin

text \<open>
  The vote on the execution sequence of a block (\<^verbatim>\<open>getConsensusTxExes\<close>): the counting map and
  the search for its largest entry, related to the number of prepares that carry a sequence.
\<close>

definition agreeing :: "string \<Rightarrow> u64 \<Rightarrow> u64 \<Rightarrow> bytes \<Rightarrow> Prepare list \<Rightarrow> nat" where
  "agreeing d v n x ps = length (filter (\<lambda>p. prepare_matches d v n p \<and> p_TxsExeSeqs p = x) ps)"

lemma exe_counts_get:
  "gm_get (exe_counts d v n m ps) x =
     (if x \<noteq> [] \<and> 0 < agreeing d v n x ps
      then Some ((case gm_get m x of None \<Rightarrow> 0 | Some c \<Rightarrow> c) + int (agreeing d v n x ps))
      else gm_get m x)"
  by (induction ps arbitrary: m) (auto simp: agreeing_def split: option.splits)

lemma exe_counts_ok: "gm_ok m \<Longrightarrow> gm_ok (exe_counts d v n m ps)"
  by (induction ps arbitrary: m) auto

lemma best_exe_max:
  "best_exe c e m = (c', e') \<Longrightarrow>
     c \<le> c' \<and> (\<forall>(x, k) \<in> set m. k \<le> c') \<and> ((c', e') = (c, e) \<or> (e', c') \<in> set m)"
proof (induction m arbitrary: c e)
  case (Cons a m)
  obtain x k where a: "a = (x, k)" by (cases a)
  show ?case
    using Cons.IH [of k x] Cons.IH [of c e] Cons.prems by (auto simp: a split: if_splits)
qed simp

lemma best_exe_counts:
  assumes b: "best_exe 0 [] (exe_counts d v n gm_empty ps) = (c, e)"
  shows "0 \<le> c" and "x \<noteq> [] \<Longrightarrow> int (agreeing d v n x ps) \<le> c"
    and "0 < c \<Longrightarrow> e \<noteq> [] \<and> c = int (agreeing d v n e ps)"
proof -
  let ?m = "exe_counts d v n gm_empty ps"
  have ok: "gm_ok ?m" by (simp add: exe_counts_ok)
  note mx = best_exe_max [OF b]
  show "0 \<le> c" using mx by blast
  show "int (agreeing d v n x ps) \<le> c" if "x \<noteq> []"
  proof (cases "agreeing d v n x ps")
    case (Suc k)
    then have "gm_get ?m x = Some (int (agreeing d v n x ps))"
      using that by (simp add: exe_counts_get)
    then have "(x, int (agreeing d v n x ps)) \<in> set ?m" using gm_ok_member [OF ok] by blast
    then show ?thesis using mx by blast
  qed (use mx in simp)
  show "e \<noteq> [] \<and> c = int (agreeing d v n e ps)" if "0 < c"
  proof -
    have "(e, c) \<in> set ?m" using mx that by auto
    then have "gm_get ?m e = Some c" using gm_ok_member [OF ok] by blast
    then show ?thesis by (auto simp: exe_counts_get split: if_splits)
  qed
qed

text \<open>A sequence is agreed on exactly when a quorum of prepares carries it.\<close>

lemma getConsensusTxExes_Inr:
  assumes "getConsensusTxExes d v n w = Inr e"
  shows "e \<noteq> [] \<and> getQuorum (validators w) \<le> int (agreeing d v n e (mc_prepare (the_cert v n w)))
    \<and> (\<forall>x. x \<noteq> [] \<longrightarrow> agreeing d v n x (mc_prepare (the_cert v n w)) \<le> agreeing d v n e (mc_prepare (the_cert v n w)))"
proof -
  obtain cert where c: "gm_get (certStore w) (v, n) = Some cert"
    using assms by (auto simp: getConsensusTxExes_def split: option.splits)
  obtain k f where b: "best_exe 0 [] (exe_counts d v n gm_empty (mc_prepare cert)) = (k, f)"
    by (cases "best_exe 0 [] (exe_counts d v n gm_empty (mc_prepare cert))")
  have e: "f = e" "getQuorum (validators w) \<le> k"
    using assms by (simp_all add: getConsensusTxExes_def c b split: if_splits)
  have "0 < k" using e(2) getQuorum_pos [of "validators w"] by linarith
  from best_exe_counts(3) [OF b this] e best_exe_counts(2) [OF b] show ?thesis
    by (simp add: the_cert_def c)
qed

lemma getConsensusTxExes_Inl:
  assumes "getConsensusTxExes d v n w = Inl err" and "x \<noteq> []"
  shows "int (agreeing d v n x (mc_prepare (the_cert v n w))) < getQuorum (validators w)"
proof (cases "gm_get (certStore w) (v, n)")
  case None
  then show ?thesis using getQuorum_pos [of "validators w"]
    by (simp add: the_cert_def empty_msgCert_def agreeing_def)
next
  case (Some cert)
  obtain k f where b: "best_exe 0 [] (exe_counts d v n gm_empty (mc_prepare cert)) = (k, f)"
    by (cases "best_exe 0 [] (exe_counts d v n gm_empty (mc_prepare cert))")
  have "k < getQuorum (validators w)"
    using assms(1) by (simp add: getConsensusTxExes_def Some b split: if_splits)
  then show ?thesis using best_exe_counts(2) [OF b assms(2)] by (simp add: the_cert_def Some)
qed

end
