(* ===== verification/Pbft_Expiry.thy ===== *)
theory Pbft_Expiry
  imports Pbft_Run
begin

text \<open>
  Proposing a block (\<^verbatim>\<open>StartConsensus\<close>) and letting it expire (one tick of
  \<^verbatim>\<open>expirationLoop\<close>): what the two timers of a node do to its pool and to the running
  consensus.
\<close>

section \<open>Expiry\<close>

definition expired :: "time \<Rightarrow> worker \<Rightarrow> string \<Rightarrow> bool" where
  "expired now w h = (case gm_get (blockbeats w) h of None \<Rightarrow> False
                      | Some beat \<Rightarrow> now - beat > maxConsensusLifetime w)"

text \<open>The effect of the loop over a part of the beats, with distinct hashes.\<close>

definition outdated :: "time \<Rightarrow> worker \<Rightarrow> (string \<times> time) list \<Rightarrow> string \<Rightarrow> bool" where
  "outdated now w l h \<longleftrightarrow> (\<exists>beat. (h, beat) \<in> set l \<and> now - beat > maxConsensusLifetime w)"

lemma outdated_Nil [simp]: "\<not> outdated now w [] h"
  by (simp add: outdated_def)

lemma outdated_snoc:
  "outdated now w (l @ [(k, beat)]) h \<longleftrightarrow>
     outdated now w l h \<or> (h = k \<and> now - beat > maxConsensusLifetime w)"
  by (auto simp: outdated_def)

lemma lifetime_DeleteByHash [simp]:
  "maxConsensusLifetime (DeletePVBAndBeatsByHash h w) = maxConsensusLifetime w"
  by (simp add: DeletePVBAndBeatsByHash_def deletePVBAndBeatsByHash_def deletbeats_def Let_def
      deleteImpossibleValidBlockByHash_def split: option.splits)

lemma expire_entry_eq:
  "expire_entry now (b, w) (k, beat) =
     (if now - beat > maxConsensusLifetime w
      then ((case getPossibleBHByHash k w of (bh, None) \<Rightarrow> b \<or> bh = CurrentBlock w + 1 | (bh, Some _) \<Rightarrow> b),
            DeletePVBAndBeatsByHash k w)
      else (b, w))"
  by (simp add: expire_entry_def DeletePVBAndBeatsByHash_def)

lemma height_found:
  assumes "pool_ok w"
  shows "(case getPossibleBHByHash k w of (bh, None) \<Rightarrow> b \<or> bh = n | (bh, Some _) \<Rightarrow> b) \<longleftrightarrow>
         b \<or> GetBlockFromPossibleValidBlock n k w \<noteq> None"
  using GetBlock_in_pool [OF assms, of n k]
  by (auto simp: getPossibleBHByHash_def split: option.splits)

lemma expire_loop:
  assumes w: "pool_ok w" and d: "distinct (map fst l)" and r: "foldl (expire_entry now) (False, w) l = (b, s)"
  shows "pool_ok s \<and> maxConsensusLifetime s = maxConsensusLifetime w \<and> CurrentBlock s = CurrentBlock w
    \<and> consensusCtx s = consensusCtx w
    \<and> (\<forall>bn h. GetBlockFromPossibleValidBlock bn h s =
         (if outdated now w l h then None else GetBlockFromPossibleValidBlock bn h w))
    \<and> (\<forall>h. gm_get (blockbeats s) h = (if outdated now w l h then None else gm_get (blockbeats w) h))
    \<and> (b \<longleftrightarrow> (\<exists>h. outdated now w l h \<and> GetBlockFromPossibleValidBlock (CurrentBlock w + 1) h w \<noteq> None))"
  using d r
proof (induction l arbitrary: b s rule: rev_induct)
  case (snoc e l)
  obtain k beat where e: "e = (k, beat)" by (cases e)
  obtain b0 s0 where r0: "foldl (expire_entry now) (False, w) l = (b0, s0)"
    by (cases "foldl (expire_entry now) (False, w) l")
  have k: "k \<notin> fst ` set l" and d0: "distinct (map fst l)" using snoc.prems(1) by (auto simp: e)
  note IH = snoc.IH [OF d0 r0]
  have nk: "\<not> outdated now w l k" using k by (force simp: outdated_def)
  have s: "expire_entry now (b0, s0) (k, beat) = (b, s)" using snoc.prems(2) by (simp add: e r0)
  show ?case
  proof (cases "now - beat > maxConsensusLifetime w")
    case False
    then have "b = b0" "s = s0" using s IH by (simp_all add: expire_entry_eq)
    moreover have "outdated now w (l @ [e]) = outdated now w l" using False by (auto simp: e outdated_snoc)
    ultimately show ?thesis using IH by simp
  next
    case True
    then have s: "s = DeletePVBAndBeatsByHash k s0"
      and b: "b \<longleftrightarrow> b0 \<or> GetBlockFromPossibleValidBlock (CurrentBlock s0 + 1) k s0 \<noteq> None"
      using s IH height_found [of s0 b0 "CurrentBlock s0 + 1" k] by (auto simp: expire_entry_eq)
    have o: "outdated now w (l @ [e]) h \<longleftrightarrow> outdated now w l h \<or> h = k" for h
      using True by (auto simp: e outdated_snoc)
    show ?thesis unfolding o
      using IH nk by (auto simp: s b pool_ok_DeleteByHash GetBlock_DeleteByHash)
  qed
qed (use w in simp)

lemma outdated_beats: "pool_ok w \<Longrightarrow> outdated now w (blockbeats w) h \<longleftrightarrow> expired now w h"
  using gm_ok_member [OF pool_okD(4)] by (auto simp: outdated_def expired_def split: option.splits)

lemma expiration_tick_effect:
  assumes w: "pool_ok w"
  shows "GetBlockFromPossibleValidBlock bn h (expiration_tick now w) =
           (if expired now w h then None else GetBlockFromPossibleValidBlock bn h w)"
    and "gm_get (blockbeats (expiration_tick now w)) h =
           (if expired now w h then None else gm_get (blockbeats w) h)"
    and "consensusCtx (expiration_tick now w) =
           (if (\<exists>k. expired now w k \<and> GetBlockFromPossibleValidBlock (CurrentBlock w + 1) k w \<noteq> None)
               \<and> consensusCtx w \<noteq> None
            then Some True else consensusCtx w)"
proof -
  obtain b s where r: "foldl (expire_entry now) (False, w) (blockbeats w) = (b, s)"
    by (cases "foldl (expire_entry now) (False, w) (blockbeats w)")
  have d: "distinct (map fst (blockbeats w))" using pool_okD(4) [OF w] by (simp add: gm_ok_def)
  note e = expire_loop [OF w d r, unfolded outdated_beats [OF w]]
  have t: "expiration_tick now w = (if b then cancel_consensus s else s)"
    by (simp add: expiration_tick_def r)
  show "GetBlockFromPossibleValidBlock bn h (expiration_tick now w) =
           (if expired now w h then None else GetBlockFromPossibleValidBlock bn h w)"
    using e by (auto simp: t cancel_consensus_def GetBlockFromPossibleValidBlock_def)
  show "gm_get (blockbeats (expiration_tick now w)) h =
           (if expired now w h then None else gm_get (blockbeats w) h)"
    using e by (auto simp: t cancel_consensus_def)
  show "consensusCtx (expiration_tick now w) =
           (if (\<exists>k. expired now w k \<and> GetBlockFromPossibleValidBlock (CurrentBlock w + 1) k w \<noteq> None)
               \<and> consensusCtx w \<noteq> None
            then Some True else consensusCtx w)"
    using e by (auto simp: t cancel_consensus_def)
qed

section \<open>Proposing\<close>

definition proposal :: "time \<Rightarrow> time \<Rightarrow> worker \<Rightarrow> Request" where
  "proposal start now w = make_request now
     \<lparr> ra_Block = new_block 1 (new_header start now w), ra_Blockbyte = block_bytes \<rparr>
     (w\<lparr>LastReqID := LastReqID w + 1\<rparr>)"

lemma currentblock_Number [simp]: "b_Number (currentblock start) = 1"
  by (simp add: currentblock_def)

lemma new_header_cong: "coinbase w' = coinbase w \<Longrightarrow> extra w' = extra w \<Longrightarrow> chainName w' = chainName w \<Longrightarrow>
   new_header start now w' = new_header start now w"
  by (simp add: new_header_def)

definition may_propose :: "worker \<Rightarrow> bool" where
  "may_propose w \<longleftrightarrow> txNum_startconsens w \<le> 0 \<and> CanMining w \<and> consensusCtx w \<noteq> Some False
     \<and> (\<exists>c. current_work w = Some c \<and> wk_localMinedBlocks c = None) \<and> CurrentBlock w < 2"

lemma itoa_2: "itoa 2 = ''2''"
  by code_simp

lemma StartConsensus_proposes:
  assumes p: "may_propose w"
  shows "\<exists>w'. StartConsensus start now w =
      (None, w', [Spawn (TRecvRequest (proposal start now w)),
                  Post \<lparr> cm_Msg = Marshal Request_fields (proposal start now w), cm_Timestamp = now,
                         cm_Type = ''PBFTRequest'', cm_Sender = nodeID w \<rparr>])
    \<and> consensusCtx w' = Some False \<and> mining w' = 0 \<and> LastReqID w' = LastReqID w + 1
    \<and> CurrentBlock w' = CurrentBlock w
    \<and> GetBlockFromPossibleValidBlock 2 ''2'' w' = rq_Realblock (proposal start now w)"
proof -
  obtain c where c: "current_work w = Some c" "wk_localMinedBlocks c = None"
    using p by (auto simp: may_propose_def)
  have h: "\<not> (2::u64) \<le> CurrentBlock w" using p by (auto simp: may_propose_def)
  have g: "\<not> (txNum_startconsens w > 0 \<and> int (length (fst TxPool)) < txNum_startconsens w)"
    "CanMining w" "consensusCtx w \<noteq> Some False" using p by (auto simp: may_propose_def)
  let ?w1 = "w\<lparr>consensusCtx := Some False, mining := 1\<rparr>"
  let ?hd = "new_header start now ?w1"
  let ?w3 = "(PutPVBAndBeats now (new_block 1 ?hd) (makeCurrent now ?hd ?w1))\<lparr>current_work := Some c\<rparr>"
  have hd: "?hd = new_header start now w" by (rule new_header_cong) simp_all
  have n: "b_Number (new_block 1 x) = 2" "Block_Hash (new_block 1 x) = ''2''" for x
    by (simp_all add: new_block_def Block_Hash_def itoa_2)
  show ?thesis
    using g c h
    by (simp add: StartConsensus_def mine_and_propose_def SendRequest_def Let_def logLocalMinedBlocks_def n
        makeCurrent_def proposal_def make_request_def hd GetBlockFromPossibleValidBlock_def n
        GetBlock_Put [unfolded GetBlockFromPossibleValidBlock_def] GetSelfNodeID_def GetConStatus_def)
qed

text \<open>
  Nothing is proposed when the block under way is still in the pool or its context still open, and
  nothing once the chain has reached the height of the only block ever proposed.
\<close>

lemma StartConsensus_silent:
  assumes "consensusCtx w = Some False \<or> \<not> CanMining w \<or> 2 \<le> CurrentBlock w"
  shows "out_effects (StartConsensus start now w) = []"
proof -
  have n: "b_Number (new_block 1 x) = 2" for x by (simp add: new_block_def)
  show ?thesis using assms
    by (auto simp: StartConsensus_def mine_and_propose_def SendRequest_def Let_def n case_prod_beta
        makeCurrent_def split: option.split)
qed

lemma proposal_fields:
  "rq_ReqID (proposal start now w) = LastReqID w + 1" "rq_View (proposal start now w) = view w"
  "rq_Sender (proposal start now w) = nodeID w" "rq_BlockHeight (proposal start now w) = 2"
  "rq_BlockHash (proposal start now w) = ''2''"
  by (simp_all add: proposal_def make_request_def GetSelfNodeID_def GetConStatus_def new_block_def
      Block_Hash_def itoa_2)

end
