(* ===== verification/Pbft_Props.thy ===== *)
theory Pbft_Props
  imports Pbft_Network Pbft_Exec Pbft_Expiry
begin

text \<open>
  The properties of the consensus engine, each with a witness on a concrete node where it has
  hypotheses.
\<close>

section \<open>Handlers\<close>





text \<open>
  C3: when the chain grows. The height after \<^verbatim>\<open>RecvCommit\<close> is the old one or the next one,
  without wrapping around. It moves only for a commit of the current view, above the chain, from a
  sender not counted before, for a request that is stored and prepared; and only when at least
  \<^verbatim>\<open>getQuorum\<close> different senders have a positive commit in the certificate.
\<close>

theorem height_moves_only_with_quorum:
  assumes "CurrentBlock (out_state (RecvCommit now c w)) \<noteq> CurrentBlock w"
  shows "unat (CurrentBlock (out_state (RecvCommit now c w))) = unat (CurrentBlock w) + 1
    \<and> commit_fresh c w
    \<and> prepared (c_RequestDigest c) (c_View c) (c_ReqID c) w
    \<and> gm_has (reqStore w) (c_RequestDigest c)
    \<and> getQuorum (validators w) \<le> int (card (supporters (mc_commit (votes_with c w))))"
proof -
  have d: "commit_decides possitive c w"
    using assms by (simp add: RecvCommit_height split: if_splits)
  then have h: "CurrentBlock (out_state (RecvCommit now c w)) = CurrentBlock w + 1"
    by (simp add: RecvCommit_height)
  have "CurrentBlock w < height_of c"
    using d unfolding commit_decides_def commit_fresh_def by blast
  then have "unat (CurrentBlock w + 1) = unat (CurrentBlock w) + 1"
    using unat_Suc_below [of "CurrentBlock w" "height_of c"] by simp
  then show ?thesis
    using d GetValidRes_possitive [of "votes_with c w" w] unfolding h commit_decides_def by blast
qed

theorem height_moves_only_with_quorum_witness:
  "CurrentBlock (out_state (RecvCommit 7 (sc_commit ''127.0.0.1:2'')
       (sc_state [sc_prepare ''127.0.0.1:1'', sc_prepare ''127.0.0.1:2''] [sc_commit ''127.0.0.1:1'']))) = 2
   \<and> 2 \<le> card (supporters (mc_commit (votes_with (sc_commit ''127.0.0.1:2'')
       (sc_state [sc_prepare ''127.0.0.1:1'', sc_prepare ''127.0.0.1:2''] [sc_commit ''127.0.0.1:1'']))))"
proof -
  let ?c = "sc_commit ''127.0.0.1:2''"
    and ?w = "sc_state [sc_prepare ''127.0.0.1:1'', sc_prepare ''127.0.0.1:2''] [sc_commit ''127.0.0.1:1'']"
  have h: "CurrentBlock (out_state (RecvCommit 7 ?c ?w)) = 2"
    using sc_decides by (simp add: RecvCommit_height)
  then show ?thesis
    using height_moves_only_with_quorum [of 7 ?c ?w] by (simp add: getQuorum_def)
qed

text \<open>
  C4: progress. A commit of the current view above the chain, from a new sender, for a prepared and
  stored request, whose certificate then has one commit per sender, all of its view and number,
  and at least \<^verbatim>\<open>getQuorum\<close> positive ones, moves the chain to the next height, posts the
  checkpoint and removes the messages of this and of older requests.
\<close>

theorem commit_quorum_advances:
  assumes "commit_fresh c w" and "prepared (c_RequestDigest c) (c_View c) (c_ReqID c) w"
    and "gm_has (reqStore w) (c_RequestDigest c)" and "certs_ok w"
    and "getQuorum (validators w) \<le> int (card (supporters (mc_commit (votes_with c w))))"
  shows "CurrentBlock (out_state (RecvCommit now c w)) = CurrentBlock w + 1
    \<and> PostCheckpoint (checkpoint_of c w) \<in> set (out_effects (RecvCommit now c w))
    \<and> gm_get (certStore (out_state (RecvCommit now c w))) (c_View c, c_ReqID c) = None"
proof -
  have d: "commit_decides possitive c w" by (rule positive_quorum_decides) fact+
  show ?thesis unfolding RecvCommit_decides [OF d] Let_def
    by (simp add: removeOldConMsg_def split: option.split)
qed

theorem commit_quorum_advances_witness:
  "CurrentBlock (out_state (RecvCommit 7 (sc_commit ''127.0.0.1:2'')
       (sc_state [sc_prepare ''127.0.0.1:1'', sc_prepare ''127.0.0.1:2''] [sc_commit ''127.0.0.1:1'']))) = 2"
proof -
  let ?c = "sc_commit ''127.0.0.1:2''"
    and ?w = "sc_state [sc_prepare ''127.0.0.1:1'', sc_prepare ''127.0.0.1:2''] [sc_commit ''127.0.0.1:1'']"
  have "CurrentBlock (out_state (RecvCommit 7 ?c ?w)) = CurrentBlock ?w + 1"
    using sc_decides_hyps commit_quorum_advances [of ?c ?w 7] by blast
  then show ?thesis by simp
qed



text \<open>
  C11: agreement on the execution sequence. \<^verbatim>\<open>getConsensusTxExes\<close> succeeds exactly when some
  non-empty sequence is carried by at least \<^verbatim>\<open>getQuorum\<close> matching prepares of the certificate,
  and then returns a sequence carried by at least as many prepares as any other.
\<close>

theorem execution_sequence_vote:
  defines "votes d v n w x \<equiv> int (agreeing d v n x (mc_prepare (the_cert v n w)))"
  shows "((\<exists>e. getConsensusTxExes d v n w = Inr e) \<longleftrightarrow>
      (\<exists>x. x \<noteq> [] \<and> getQuorum (validators w) \<le> votes d v n w x))
    \<and> (\<forall>e. getConsensusTxExes d v n w = Inr e \<longrightarrow>
         e \<noteq> [] \<and> getQuorum (validators w) \<le> votes d v n w e \<and> (\<forall>x. x = [] \<or> votes d v n w x \<le> votes d v n w e))"
proof -
  have "\<exists>e. getConsensusTxExes d v n w = Inr e"
    if "x \<noteq> []" "getQuorum (validators w) \<le> votes d v n w x" for x
    using getConsensusTxExes_Inl [of d v n w _ x] that
    by (cases "getConsensusTxExes d v n w") (auto simp: votes_def)
  moreover have "e \<noteq> [] \<and> getQuorum (validators w) \<le> votes d v n w e
      \<and> (\<forall>x. x = [] \<or> votes d v n w x \<le> votes d v n w e)"
    if "getConsensusTxExes d v n w = Inr e" for e
    using getConsensusTxExes_Inr [OF that] by (auto simp: votes_def)
  ultimately show ?thesis by blast
qed

theorem execution_sequence_vote_witness:
  "\<exists>e. getConsensusTxExes ''2'' 1 2 (sc_state [sc_prepare ''a'', sc_prepare ''b''] []) = Inr e \<and> e \<noteq> []"
proof -
  let ?w = "sc_state [sc_prepare ''a'', sc_prepare ''b''] []"
  have "getQuorum (validators ?w) \<le> int (agreeing ''2'' 1 2 [1] (mc_prepare (the_cert 1 2 ?w)))"
    by (simp add: sc_cert_def sc_prepare_def agreeing_def prepare_matches_def getQuorum_def)
  then obtain e where "getConsensusTxExes ''2'' 1 2 ?w = Inr e"
    using execution_sequence_vote [of "''2''" 1 2 ?w] by blast
  then show ?thesis using execution_sequence_vote [of "''2''" 1 2 ?w] by blast
qed

text \<open>
  C12: the two prepare handlers agree on a prepare whose sender is new to the certificate:
  \<^verbatim>\<open>RecvPrepare_notTransfer\<close> then returns the same error, posts the same messages in the same
  order and reaches the same state but for the flag \<^verbatim>\<open>preflag\<close>.
\<close>

theorem prepare_handlers_agree:
  assumes "prepare_fresh p w"
  shows "out_err (RecvPrepare_notTransfer now p w) = out_err (RecvPrepare now p w)
    \<and> out_effects (RecvPrepare_notTransfer now p w) = out_effects (RecvPrepare now p w)
    \<and> (out_state (RecvPrepare_notTransfer now p w))\<lparr>preflag := 0\<rparr> = (out_state (RecvPrepare now p w))\<lparr>preflag := 0\<rparr>"
proof -
  have n: "\<not> list_ex (\<lambda>q. p_Sender q = p_Sender p) (mc_prepare (the_cert (p_View p) (p_ReqID p) w))"
    using assms by (simp add: prepare_fresh_def list_ex_iff list_all_iff)
  show ?thesis
    using n by (auto simp: RecvPrepare_notTransfer_def RecvPrepare_def cast_commit_notTransfer_eq
        cast_commit_preflag Let_def case_prod_beta split: option.split)
qed

theorem prepare_handlers_agree_witness:
  "out_effects (RecvPrepare_notTransfer 3 (sc_prepare ''b'') (sc_state [sc_prepare ''a''] []))
   = out_effects (RecvPrepare 3 (sc_prepare ''b'') (sc_state [sc_prepare ''a''] []))"
proof -
  have "prepare_fresh (sc_prepare ''b'') (sc_state [sc_prepare ''a''] [])"
    using sc_state_simps(1) [of "[sc_prepare ''a'']" "[]"]
    by (simp add: prepare_fresh_def sc_prepare_def sc_cert_def)
  then show ?thesis
    using prepare_handlers_agree [of "sc_prepare ''b''" "sc_state [sc_prepare ''a''] []" 3] by blast
qed

text \<open>
  C13: a checkpoint whose hash is not recorded yet and whose height is not below the chain is taken.
  It empties the pool up to its height and leaves the blocks above, cancels the running consensus,
  raises the largest checkpointed height, records its hash and forgets the recorded hashes below
  the chain, so that the same checkpoint is refused when it comes again.
\<close>

theorem checkpoint_effects:
  assumes "takes_checkpoint k w"
  shows "fst (RecvCheckpoint now k w) = None
    \<and> (\<forall>bn h. GetBlockFromPossibleValidBlock bn h (snd (RecvCheckpoint now k w)) =
           (if bn \<le> k_BlockHeight k then None else GetBlockFromPossibleValidBlock bn h w))
    \<and> consensusCtx (snd (RecvCheckpoint now k w)) \<noteq> Some False
    \<and> checkpointBH (snd (RecvCheckpoint now k w)) = max (checkpointBH w) (k_BlockHeight k)
    \<and> (\<forall>h. gm_get (checkpointStore (snd (RecvCheckpoint now k w))) h =
           (if h = k_BlockHash k then Some (k_BlockHeight k)
            else case gm_get (checkpointStore w) h of None \<Rightarrow> None
                 | Some v \<Rightarrow> if v < CurrentBlock w then None else Some v))
    \<and> fst (RecvCheckpoint later k (snd (RecvCheckpoint now k w))) = Some PlainError"
proof -
  have "gm_has (checkpointStore (snd (RecvCheckpoint now k w))) (k_BlockHash k)"
    using RecvCheckpoint_takes(3) [OF assms, of now "k_BlockHash k"] by (simp add: gm_has_iff)
  then show ?thesis
    using RecvCheckpoint_takes [OF assms] by (simp add: RecvCheckpoint_repeated)
qed

theorem checkpoint_effects_witness:
  "takes_checkpoint \<lparr> k_Sender = ''a'', k_BlockHeight = 2, k_ReqID = 2, k_BlockHash = ''2'' \<rparr> (sc_state [] [])
   \<and> fst (RecvCheckpoint 0 \<lparr> k_Sender = ''a'', k_BlockHeight = 2, k_ReqID = 2, k_BlockHash = ''2'' \<rparr> (sc_state [] [])) = None"
proof -
  let ?k = "\<lparr> k_Sender = ''a'', k_BlockHeight = 2, k_ReqID = 2, k_BlockHash = ''2'' \<rparr> :: Checkpoint"
  have "takes_checkpoint ?k (sc_state [] [])"
    by (simp add: takes_checkpoint_def) (simp add: sc_state_def Initt_def)
  then show ?thesis using checkpoint_effects [of ?k "sc_state [] []" 0 0] by blast
qed



text \<open>
  C7: the pool of a node. In every reachable state of a node each block of the pool sits under its
  own height and its own hash, so that the search by hash alone finds it together with its height,
  and every clock reading belongs to a block of the pool.
\<close>

theorem pool_of_reachable_node:
  assumes "reachable_node start port peer0 n s"
  shows "(GetBlockFromPossibleValidBlock bn h (nd_worker s) = Some b \<longrightarrow>
            b_Number b = bn \<and> h = Block_Hash b
          \<and> GetBlockFromPVBlockByHash h (nd_worker s) = (Some b, bn)
          \<and> GetPossibleBHByHash h (nd_worker s) = (bn, None))
    \<and> (gm_has (blockbeats (nd_worker s)) h \<longrightarrow>
            (\<exists>b. GetBlockFromPVBlockByHash h (nd_worker s) = (Some b, b_Number b)))"
proof -
  let ?w = "nd_worker s"
  have ok: "pool_ok ?w" by (rule node_pool.ok_always [OF assms])
  have find: "b_Number b = bn \<and> h = Block_Hash b \<and> GetBlockFromPVBlockByHash h ?w = (Some b, bn)
      \<and> GetPossibleBHByHash h ?w = (bn, None)"
    if g: "GetBlockFromPossibleValidBlock bn h ?w = Some b" for bn b
  proof -
    obtain bs where bs: "gm_get (possibleValidBlock ?w) bn = Some bs" "gm_get bs h = Some b"
      using g by (auto simp: GetBlockFromPossibleValidBlock_def split: option.splits)
    then have "find_entry_with h (possibleValidBlock ?w) = Some (bn, bs)"
      by (simp add: find_entry_pool [OF ok] gm_has_iff)
    then show ?thesis
      using bs pool_okD(2) [OF ok bs(1)]
      by (simp add: entry_ok_def GetBlockFromPVBlockByHash_def GetPossibleBHByHash_def getPossibleBHByHash_def)
  qed
  have "\<exists>b. GetBlockFromPVBlockByHash h ?w = (Some b, b_Number b)" if t: "gm_has (blockbeats ?w) h"
  proof -
    obtain bn bs b where "gm_get (possibleValidBlock ?w) bn = Some bs" "gm_get bs h = Some b"
      using pool_okD(3) [OF ok t] by (auto simp: gm_has_iff)
    then have "GetBlockFromPossibleValidBlock bn h ?w = Some b"
      by (simp add: GetBlockFromPossibleValidBlock_def)
    from find [OF this] show ?thesis by auto
  qed
  then show ?thesis using find by blast
qed

theorem pool_of_reachable_node_witness:
  "GetBlockFromPVBlockByHash ''2'' (nd_worker sc_started) = (Some sc_block, 2)"
proof -
  have "GetBlockFromPossibleValidBlock 2 ''2'' (nd_worker sc_started) = Some sc_block"
    by code_simp
  then show ?thesis
    using pool_of_reachable_node [OF sc_started_reachable, of 2 "''2''" sc_block] by blast
qed

section \<open>Runs\<close>

text \<open>
  C2: a node never votes twice. In every reachable state of a node, whatever messages it was sent
  and in whatever order its handlers ran, the commits it has cast are for pairwise different
  heights, all in its own name, and the messages of type \<^verbatim>\<open>PBFTCommit\<close> it has posted are
  exactly these commits.
\<close>

theorem one_vote_per_height:
  assumes "reachable_node start port peer0 n s"
  shows "distinct (map height_of (commits_of (nd_log s)))
    \<and> (\<forall>c \<in> set (commits_of (nd_log s)). c_Sender c = nodeID (nd_worker s))
    \<and> map cm_Msg (commit_posts (nd_log s)) = map (Marshal Commit_fields) (commits_of (nd_log s))"
  using node_votes.ok_always [OF assms] by (simp add: voted_ok_def list_all_iff)

theorem one_vote_per_height_witness:
  "\<exists>s. sc_node '':1'' = Some s \<and> commits_of (nd_log s) = [sc_commit ''127.0.0.1:1'']
     \<and> distinct (map height_of (commits_of (nd_log s)))
     \<and> map cm_Msg (commit_posts (nd_log s)) = map (Marshal Commit_fields) (commits_of (nd_log s))"
proof -
  obtain s where s: "sc_node '':1'' = Some s" "commits_of (nd_log s) = [sc_commit ''127.0.0.1:1'']"
    using sc_node_1 by blast
  then show ?thesis using one_vote_per_height [OF sc_node_reachable [OF s(1)]] by simp
qed



text \<open>
  The chain of a node never shrinks and never skips. A step leaves the height as it is or adds
  one, and it adds one only by handling a commit.
\<close>

theorem height_along_steps:
  assumes "node_step start s t"
  shows "unat (CurrentBlock (nd_worker t)) = unat (CurrentBlock (nd_worker s))
    \<or> (unat (CurrentBlock (nd_worker t)) = unat (CurrentBlock (nd_worker s)) + 1
       \<and> (\<exists>now c. nd_worker t = out_state (RecvCommit now c (nd_worker s))))"
proof -
  obtain now e where t: "nd_worker t = out_state (handle_event start now e (nd_worker s))"
    using assms by (elim node_stepE) (auto simp: run_event_def case_prod_beta)
  show ?thesis
  proof (cases "\<exists>c. e = ECommit c")
    case True
    then obtain c where e: "e = ECommit c" by blast
    let ?w = "nd_worker s"
    have "commit_decides possitive c ?w \<Longrightarrow> unat (CurrentBlock ?w + 1) = unat (CurrentBlock ?w) + 1"
      using unat_Suc_below [of "CurrentBlock ?w" "height_of c"]
      unfolding commit_decides_def commit_fresh_def by auto
    then have "unat (CurrentBlock (out_state (RecvCommit now c ?w))) = unat (CurrentBlock ?w)
      \<or> unat (CurrentBlock (out_state (RecvCommit now c ?w))) = unat (CurrentBlock ?w) + 1"
      unfolding RecvCommit_height by auto
    then show ?thesis unfolding t e handle_event.simps by blast
  next
    case False
    then have "CurrentBlock (out_state (handle_event start now e (nd_worker s))) = CurrentBlock (nd_worker s)"
      by (cases e) (simp_all add: case_prod_beta)
    then show ?thesis by (simp add: t)
  qed
qed

theorem height_along_steps_witness:
  "node_step 0 (start_node 0 '':1'' '':1'' 2) sc_started
   \<and> unat (CurrentBlock (nd_worker sc_started)) \<le> 2"
proof -
  have "node_step 0 (start_node 0 '':1'' '':1'' 2) sc_started"
    unfolding sc_started_def by (rule node_step.outside) (simp_all add: start_node_def)
  then show ?thesis
    using height_along_steps [of 0 "start_node 0 '':1'' '':1'' 2" sc_started]
    by (auto simp: start_node_def Initt_def)
qed

section \<open>Proposing and expiry\<close>

text \<open>
  C14: a leader proposes one block at a time. When \<^verbatim>\<open>StartConsensus\<close> may mine, it files block 2
  in the pool, opens the consensus context, raises the request number and sends one request for
  that block to itself and to the network. Whatever the clock shows, the next
  \<^verbatim>\<open>StartConsensus\<close> sends nothing.
\<close>

theorem one_proposal_at_a_time:
  assumes "may_propose w"
  shows "\<exists>w' req. StartConsensus start now w =
      (None, w', [Spawn (TRecvRequest req),
                  Post \<lparr> cm_Msg = Marshal Request_fields req, cm_Timestamp = now,
                         cm_Type = ''PBFTRequest'', cm_Sender = nodeID w \<rparr>])
    \<and> rq_ReqID req = LastReqID w + 1 \<and> LastReqID w' = rq_ReqID req \<and> rq_View req = view w
    \<and> rq_Sender req = nodeID w \<and> rq_BlockHeight req = 2 \<and> rq_BlockHash req = ''2''
    \<and> GetBlockFromPossibleValidBlock 2 ''2'' w' = rq_Realblock req
    \<and> consensusCtx w' = Some False \<and> out_effects (StartConsensus start later w') = []"
proof -
  obtain w' where w': "StartConsensus start now w =
      (None, w', [Spawn (TRecvRequest (proposal start now w)),
                  Post \<lparr> cm_Msg = Marshal Request_fields (proposal start now w), cm_Timestamp = now,
                         cm_Type = ''PBFTRequest'', cm_Sender = nodeID w \<rparr>])"
    "consensusCtx w' = Some False" "LastReqID w' = LastReqID w + 1"
    "GetBlockFromPossibleValidBlock 2 ''2'' w' = rq_Realblock (proposal start now w)"
    using StartConsensus_proposes [OF assms, of start now] by blast
  then show ?thesis
    using StartConsensus_silent [of w' start later] proposal_fields [of start now w] by auto
qed

theorem one_proposal_at_a_time_witness:
  "may_propose (Initt 0 '':1'' '':1'' 2)
   \<and> (\<exists>w' effs. StartConsensus 0 5 (Initt 0 '':1'' '':1'' 2) = (None, w', effs) \<and> LastReqID w' = 2)"
proof -
  have "may_propose (Initt 0 '':1'' '':1'' 2)"
    by (simp add: may_propose_def CanMining_def ISLeader_def Ready_def GetConStatus_def GetSelfNodeID_def
        Initt_def initial_work_def)
  then show ?thesis
    using one_proposal_at_a_time [of "Initt 0 '':1'' '':1'' 2" 0 5 9] by (auto simp: Initt_def)
qed

text \<open>
  C15: the chain ends at height 2. \<^verbatim>\<open>currentblock\<close> is never updated, so that the only block a
  node builds has height 2: once its chain has reached that height, \<^verbatim>\<open>StartConsensus\<close> never
  sends a request again, in no state and at no time.
\<close>

theorem no_proposal_above_2:
  assumes "2 \<le> CurrentBlock w"
  shows "out_effects (StartConsensus start now w) = []"
  using assms by (simp add: StartConsensus_silent)

theorem no_proposal_above_2_witness:
  "out_effects (StartConsensus 0 5 ((Initt 0 '':1'' '':1'' 2)\<lparr>CurrentBlock := 2\<rparr>)) = []"
  using no_proposal_above_2 [of "(Initt 0 '':1'' '':1'' 2)\<lparr>CurrentBlock := 2\<rparr>" 0 5] by simp



end
