(* ===== verification/Rlp_Head.thy ===== *)
theory Rlp_Head
  imports Common
begin

text \<open>
  The size and integer headers of \<^verbatim>\<open>rlp/encode.go\<close> and their readers of \<^verbatim>\<open>rlp/raw.go\<close>:
  \<^verbatim>\<open>putint\<close> writes an unsigned integer with as few big-endian bytes as possible, \<^verbatim>\<open>readSize\<close>
  reads it back. The functions that fill a buffer from its start return the bytes they wrote.
\<close>

section \<open>Writing sizes\<close>

lemma unat_shift: "unat (drop_bit k (i :: u64)) = unat i div 2 ^ k"
  unfolding unat_drop_bit_eq by (rule drop_bit_eq_div)

definition putint :: "u64 \<Rightarrow> bytes" where
  "putint i =
     (if i < 0x100 then [ucast i]
      else if i < 0x10000 then [ucast (drop_bit 8 i), ucast i]
      else if i < 0x1000000 then [ucast (drop_bit 16 i), ucast (drop_bit 8 i), ucast i]
      else if i < 0x100000000
      then [ucast (drop_bit 24 i), ucast (drop_bit 16 i), ucast (drop_bit 8 i), ucast i]
      else if i < 0x10000000000
      then [ucast (drop_bit 32 i), ucast (drop_bit 24 i), ucast (drop_bit 16 i),
            ucast (drop_bit 8 i), ucast i]
      else if i < 0x1000000000000
      then [ucast (drop_bit 40 i), ucast (drop_bit 32 i), ucast (drop_bit 24 i),
            ucast (drop_bit 16 i), ucast (drop_bit 8 i), ucast i]
      else if i < 0x100000000000000
      then [ucast (drop_bit 48 i), ucast (drop_bit 40 i), ucast (drop_bit 32 i),
            ucast (drop_bit 24 i), ucast (drop_bit 16 i), ucast (drop_bit 8 i), ucast i]
      else [ucast (drop_bit 56 i), ucast (drop_bit 48 i), ucast (drop_bit 40 i),
            ucast (drop_bit 32 i), ucast (drop_bit 24 i), ucast (drop_bit 16 i),
            ucast (drop_bit 8 i), ucast i])"

function intsize_loop :: "nat \<Rightarrow> u64 \<Rightarrow> nat" where
  "intsize_loop n i =
     (let i' = drop_bit 8 i in if i' = 0 then n else intsize_loop (n + 1) i')"
  by pat_completeness auto
termination
proof (relation "measure (\<lambda>(_, i). unat i)")
  fix n and i i' :: u64
  assume "i' = drop_bit 8 i" "i' \<noteq> 0"
  moreover from this have "unat i \<noteq> 0" by (metis drop_bit_of_0 unat_eq_zero)
  ultimately show "((n + 1, i'), (n, i)) \<in> measure (\<lambda>(_, i). unat i)"
    by (simp add: unat_shift)
qed simp

definition intsize :: "u64 \<Rightarrow> nat" where
  "intsize i = intsize_loop 1 i"

definition headsize :: "u64 \<Rightarrow> nat" where
  "headsize sz = (if sz < 56 then 1 else 1 + intsize sz)"

definition puthead :: "u8 \<Rightarrow> u8 \<Rightarrow> u64 \<Rightarrow> bytes" where
  "puthead smalltag largetag sz =
     (if sz < 56 then [smalltag + ucast sz]
      else let b = putint sz in (largetag + word_of_nat (length b)) # b)"

definition ListSize :: "u64 \<Rightarrow> u64" where
  "ListSize contentSize = word_of_nat (headsize contentSize) + contentSize"

section \<open>Shortest renderings\<close>

declare intsize_loop.simps [simp del]

lemma be_bytes_0 [simp]: "be_bytes 0 = []"
  by (simp add: be_bytes.simps)

lemma be_bytes_split:
  "0 < n \<Longrightarrow> be_bytes n = be_bytes (n div 256) @ [of_nat (n mod 256)]"
  by (subst be_bytes.simps) simp

lemma be_bytes_digits:
  "256 ^ k \<le> n \<Longrightarrow> n < 256 ^ Suc k \<Longrightarrow>
   be_bytes n = map (\<lambda>j. of_nat (n div 256 ^ j mod 256)) (rev [0..<Suc k])"
proof (induction k arbitrary: n)
  case 0
  then show ?case by (simp add: be_bytes_split)
next
  case (Suc k)
  have "256 ^ k \<le> n div 256" "n div 256 < 256 ^ Suc k" "0 < n"
    using Suc.prems by (auto simp: less_eq_div_iff_mult_less_eq div_less_iff_less_mult intro: ccontr)
  then have "be_bytes n = map (\<lambda>j. of_nat (n div 256 div 256 ^ j mod 256)) (rev [0..<Suc k]) @ [of_nat (n mod 256)]"
    using Suc.IH by (simp add: be_bytes_split)
  also have "\<dots> = map (\<lambda>j. of_nat (n div 256 ^ j mod 256)) (rev [0..<Suc (Suc k)])"
    by (simp only: upt_conv_Cons [of 0 "Suc (Suc k)"] map_Suc_upt [symmetric] rev_map map_append map_map rev.simps)
      (simp add: o_def div_mult2_eq)
  finally show ?case .
qed

lemma byte_of_word: "(of_nat (unat (i :: u64) div 2 ^ k mod 256) :: u8) = ucast (drop_bit k i)"
proof -
  have "unat i div 2 ^ k mod 256 = unat (drop_bit k i) mod 2 ^ 8"
    by (simp add: unat_shift)
  then show ?thesis
    by (intro word_unat_eq_iff [THEN iffD2]) (simp add: unsigned_ucast_eq unsigned_of_nat take_bit_eq_mod)
qed

lemma count_down:
  "rev [0..<3] = [2, 1, 0]" "rev [0..<4] = [3, 2, 1, 0]" "rev [0..<5] = [4, 3, 2, 1, 0]"
  "rev [0..<6] = [5, 4, 3, 2, 1, 0]" "rev [0..<7] = [6, 5, 4, 3, 2, 1, 0]"
  "rev [0..<8] = [7, 6, 5, 4, 3, 2, 1, 0]"
  by code_simp+

lemma putint_be_bytes: "putint i = (if i = 0 then [0] else be_bytes (unat i))"
proof (cases "i = 0")
  case False
  then have pos: "256 ^ 0 \<le> unat i" by (simp add: Suc_le_eq unat_gt_0)
  have digits: "be_bytes (unat i) = map (\<lambda>j. ucast (drop_bit (8 * j) i)) (rev [0..<Suc k])"
    if "256 ^ k \<le> unat i" "unat i < 256 ^ Suc k" for k
  proof -
    have "(256 :: nat) ^ j = 2 ^ (8 * j)" for j by (simp add: power_mult)
    then show ?thesis unfolding be_bytes_digits [OF that] by (simp only: byte_of_word)
  qed
  have lt: "i < w \<longleftrightarrow> unat i < unat w" for w by (rule word_less_nat_alt)
  note d = digits [of 0, simplified] digits [of 1, simplified] digits [of 2, simplified]
    digits [of 3, simplified] digits [of 4, simplified] digits [of 5, simplified]
    digits [of 6, simplified] digits [of 7, simplified]
  show ?thesis
    using False pos unat_u64_less [of i] by (simp add: putint_def lt d count_down)
qed (simp add: putint_def)

section \<open>Lengths\<close>

lemma length_be_bytes_le: "n < 256 ^ k \<Longrightarrow> length (be_bytes n) \<le> k"
proof (induction k arbitrary: n)
  case 0
  then show ?case by simp
next
  case (Suc k)
  then have "length (be_bytes (n div 256)) \<le> k" by (simp add: div_less_iff_less_mult)
  then show ?case by (cases "n = 0") (simp_all add: be_bytes_split)
qed

lemma be_bytes_Nil [simp]: "be_bytes n = [] \<longleftrightarrow> n = 0"
  by (cases "n = 0") (simp_all add: be_bytes_split)

lemma hd_be_bytes: "0 < n \<Longrightarrow> hd (be_bytes n) \<noteq> 0"
proof (induction n rule: be_bytes.induct)
  case (1 n)
  show ?case
  proof (cases "n div 256 = 0")
    case True
    then have "n < 256" by simp
    then show ?thesis using "1.prems" True
      by (simp add: be_bytes_split word_of_nat_eq_0_iff) (auto dest: nat_dvd_not_less)
  next
    case False
    then have "hd (be_bytes (n div 256)) \<noteq> 0" "be_bytes (n div 256) \<noteq> []"
      using 1 by (auto simp del: div_eq_0_iff)
    then show ?thesis unfolding be_bytes_split [OF "1.prems"] by (simp only: hd_append if_False not_False_eq_True)
  qed
qed

text \<open>A byte string without leading zeros is the shortest rendering of its value.\<close>

lemma be_bytes_be_val: "b = [] \<or> hd b \<noteq> 0 \<Longrightarrow> be_bytes (be_val b) = b"
proof (induction b rule: rev_induct)
  case (snoc x b)
  have "be_val b \<noteq> 0 \<or> (b = [] \<and> x \<noteq> 0)"
  proof (cases b)
    case (Cons y c)
    then have "0 < unat y" using snoc.prems by (simp add: unat_gt_0)
    then have "be_val b \<noteq> 0" using be_val_append [of "[y]" c] by (simp add: Cons be_val_def)
    then show ?thesis ..
  qed (use snoc.prems in simp)
  then have pos: "0 < 256 * be_val b + unat x" by (auto simp: unat_gt_0)
  have "unat x < 256" by (rule unat_u8_less)
  moreover have "be_bytes (be_val b) = b" using snoc by (cases b) (auto simp: hd_append)
  ultimately show ?case using pos by (simp add: be_bytes_split)
qed simp

lemma length_putint: "0 < length (putint i)" "length (putint i) \<le> 8"
proof -
  have "length (be_bytes (unat i)) \<le> 8"
    using unat_u64_less [of i] by (intro length_be_bytes_le) simp
  then show "length (putint i) \<le> 8" by (simp add: putint_be_bytes)
  show "0 < length (putint i)" by (simp add: putint_be_bytes unat_eq_zero)
qed

lemma intsize_loop_length: "intsize_loop n i + 1 = n + length (putint i)"
proof (induction n i rule: intsize_loop.induct)
  case (1 n i)
  have s: "unat (drop_bit 8 i) = unat i div 256" by (simp add: unat_shift)
  have z: "drop_bit 8 i = 0 \<longleftrightarrow> unat i < 256"
    unfolding unat_eq_zero [symmetric] s by (simp add: div_eq_0_iff)
  show ?case
  proof (cases "drop_bit 8 i = 0")
    case True
    then have "length (putint i) = 1" using z by (simp add: putint_def word_less_nat_alt)
    then show ?thesis using True by (simp add: intsize_loop.simps)
  next
    case False
    then have "i \<noteq> 0" "0 < unat i" by (auto simp: unat_gt_0)
    then have "length (putint i) = Suc (length (putint (drop_bit 8 i)))"
      using False by (simp add: putint_be_bytes be_bytes_split [of "unat i"] s)
    then show ?thesis using 1 False by (simp add: intsize_loop.simps [of n])
  qed
qed

lemma intsize_putint: "intsize i = length (putint i)"
  using intsize_loop_length [of 1 i] by (simp add: intsize_def)

lemma be_val_putint [simp]: "be_val (putint i) = unat i"
  by (simp add: putint_be_bytes) (simp add: be_val_def)

lemma length_puthead [simp]: "length (puthead s l sz) = headsize sz"
  by (simp add: puthead_def headsize_def intsize_putint Let_def)

end
