(* ===== verification/Rlp_Raw.thy ===== *)
theory Rlp_Raw
  imports Rlp_Head
begin

text \<open>
  \<^verbatim>\<open>rlp/raw.go\<close>: taking the first value of a byte slice apart without decoding it, and the
  reference encoding of strings and lists it inverts.
\<close>

unbundle bit_operations_syntax

section \<open>Kinds and errors\<close>

datatype Kind = ByteK | StringK | ListK

text \<open>
  The error values of the package. \<open>IndexPanic\<close> is an index out of range, \<open>DecodeError\<close> the error
  struct of the decoder with its message. \<open>OutOfFuel\<close> is no error of the code: it marks the end of a
  bounded loop of the model and is shown never to occur.
\<close>

datatype rlp_err = EOL | ErrExpectedString | ErrExpectedList | ErrCanonInt | ErrCanonSize
  | ErrElemTooLarge | ErrValueTooLarge | ErrMoreThanOneValue | ErrNotInList | ErrNotAtEOL
  | ErrUintOverflow | ErrUnexpectedEOF | EOF | InvalidBool u64 | DecodeError string
  | NegativeBigInt | NotSerializable | IndexPanic | OutOfFuel

section \<open>The functions of raw.go\<close>

definition readSize :: "bytes \<Rightarrow> u8 \<Rightarrow> rlp_err + u64" where
  "readSize b slen =
     (if unat slen > length b then Inl ErrUnexpectedEOF
      else
        let u = (\<lambda>k. ucast (b ! k) :: u64);
            s = (if slen = 1 then u 0
                 else if slen = 2 then push_bit 8 (u 0) OR u 1
                 else if slen = 3 then push_bit 16 (u 0) OR push_bit 8 (u 1) OR u 2
                 else if slen = 4 then push_bit 24 (u 0) OR push_bit 16 (u 1) OR push_bit 8 (u 2) OR u 3
                 else if slen = 5
                 then push_bit 32 (u 0) OR push_bit 24 (u 1) OR push_bit 16 (u 2) OR push_bit 8 (u 3) OR u 4
                 else if slen = 6
                 then push_bit 40 (u 0) OR push_bit 32 (u 1) OR push_bit 24 (u 2) OR push_bit 16 (u 3)
                      OR push_bit 8 (u 4) OR u 5
                 else if slen = 7
                 then push_bit 48 (u 0) OR push_bit 40 (u 1) OR push_bit 32 (u 2) OR push_bit 24 (u 3)
                      OR push_bit 16 (u 4) OR push_bit 8 (u 5) OR u 6
                 else if slen = 8
                 then push_bit 56 (u 0) OR push_bit 48 (u 1) OR push_bit 40 (u 2) OR push_bit 32 (u 3)
                      OR push_bit 24 (u 4) OR push_bit 16 (u 5) OR push_bit 8 (u 6) OR u 7
                 else 0)
        in if s < 56 \<or> b ! 0 = 0 then Inl ErrCanonSize else Inr s)"

text \<open>
  \<^verbatim>\<open>readKind\<close> of \<^verbatim>\<open>raw.go\<close>; the one of the stream is \<open>Stream_readKind\<close>. The second byte of a
  one-byte string is read without looking at the length of the slice.
\<close>

definition raw_readKind :: "bytes \<Rightarrow> rlp_err + (Kind \<times> u64 \<times> u64)" where
  "raw_readKind buf =
     (case buf of [] \<Rightarrow> Inl ErrUnexpectedEOF
      | b # r \<Rightarrow>
          case (if b < 0x80 then Inr (ByteK, 0, 1)
                else if b < 0xB8
                then let contentsize = ucast (b - 0x80) in
                     if contentsize = 1 \<and> r = [] then Inl IndexPanic
                     else if contentsize = 1 \<and> r ! 0 < 128 then Inl ErrCanonSize
                     else Inr (StringK, 1, contentsize)
                else if b < 0xC0
                then (case readSize r (b - 0xB7) of Inl e \<Rightarrow> Inl e
                      | Inr contentsize \<Rightarrow> Inr (StringK, ucast (b - 0xB7) + 1, contentsize))
                else if b < 0xF8 then Inr (ListK, 1, ucast (b - 0xC0))
                else (case readSize r (b - 0xF7) of Inl e \<Rightarrow> Inl e
                      | Inr contentsize \<Rightarrow> Inr (ListK, ucast (b - 0xF7) + 1, contentsize))) of
            Inl e \<Rightarrow> Inl e
          | Inr (k, tagsize, contentsize) \<Rightarrow>
              if contentsize > of_nat (length buf) - tagsize then Inl ErrValueTooLarge
              else Inr (k, tagsize, contentsize))"

definition Split :: "bytes \<Rightarrow> rlp_err + (Kind \<times> bytes \<times> bytes)" where
  "Split b =
     (case raw_readKind b of Inl e \<Rightarrow> Inl e
      | Inr (k, ts, cs) \<Rightarrow>
          Inr (k, take (unat (ts + cs) - unat ts) (drop (unat ts) b), drop (unat (ts + cs)) b))"

definition SplitString :: "bytes \<Rightarrow> rlp_err + (bytes \<times> bytes)" where
  "SplitString b =
     (case Split b of Inl e \<Rightarrow> Inl e
      | Inr (k, content, rest) \<Rightarrow> if k = ListK then Inl ErrExpectedString else Inr (content, rest))"

definition SplitList :: "bytes \<Rightarrow> rlp_err + (bytes \<times> bytes)" where
  "SplitList b =
     (case Split b of Inl e \<Rightarrow> Inl e
      | Inr (k, content, rest) \<Rightarrow> if k \<noteq> ListK then Inl ErrExpectedList else Inr (content, rest))"

section \<open>Sizes\<close>

lemma shift_or: "push_bit 8 (a :: u64) OR ucast (x :: u8) = 256 * a + ucast x"
proof -
  have "push_bit 8 a OR ucast x = push_bit 8 a + ucast x"
    by (rule disjunctive_add [symmetric]) (auto simp: bit_push_bit_iff bit_ucast_iff dest: bit_imp_le_length)
  then show ?thesis by (simp add: push_bit_eq_mult mult.commute)
qed

lemma foldl_shift_or:
  "foldl (\<lambda>a x. push_bit 8 a OR ucast x) (word_of_nat n :: u64) (b :: bytes) =
     word_of_nat (foldl (\<lambda>a x. 256 * a + unat x) n b)"
proof (induction b arbitrary: n)
  case (Cons x b)
  have "push_bit 8 (word_of_nat n :: u64) OR ucast x = word_of_nat (256 * n + unat x)"
    by (simp add: shift_or)
  then show ?case using Cons.IH [of "256 * n + unat x"] by (simp only: foldl_Cons)
qed simp

lemma shift_or_val: "foldl (\<lambda>a x. push_bit 8 a OR ucast x) (0 :: u64) b = word_of_nat (be_val b)"
  using foldl_shift_or [of 0 b] by (simp add: be_val_def)

lemma take_nths: "n \<le> length b \<Longrightarrow> take n b = map ((!) b) [0..<n]"
  by (rule nth_equalityI) auto

lemma count_up:
  "[0..<1] = [0]" "[0..<2] = [0, 1]" "[0..<3] = [0, 1, 2]" "[0..<4] = [0, 1, 2, 3]"
  "[0..<5] = [0, 1, 2, 3, 4]" "[0..<6] = [0, 1, 2, 3, 4, 5]" "[0..<7] = [0, 1, 2, 3, 4, 5, 6]"
  "[0..<8] = [0, 1, 2, 3, 4, 5, 6, 7]"
  by code_simp+

lemma slen_cases:
  assumes "(0 :: u8) < n" "n \<le> 8"
  obtains "n = 1" | "n = 2" | "n = 3" | "n = 4" | "n = 5" | "n = 6" | "n = 7" | "n = 8"
proof -
  have "unat n \<in> {1..8}" using assms by (auto simp: word_less_nat_alt word_le_nat_alt)
  then have "unat n = 1 \<or> unat n = 2 \<or> unat n = 3 \<or> unat n = 4 \<or> unat n = 5 \<or> unat n = 6 \<or> unat n = 7 \<or> unat n = 8"
    by auto
  then show thesis using that unfolding word_unat_eq_iff by auto
qed

text \<open>\<^verbatim>\<open>readSize\<close> reads the big-endian value of its first \<open>slen\<close> bytes.\<close>

lemma readSize_val:
  assumes "0 < slen" "slen \<le> 8"
  shows "readSize b slen =
     (if length b < unat slen then Inl ErrUnexpectedEOF
      else let s = word_of_nat (be_val (take (unat slen) b)) in
           if s < 56 \<or> hd b = 0 then Inl ErrCanonSize else Inr s)"
proof (cases "length b < unat slen")
  case False
  then have l: "unat slen \<le> length b" by simp
  have h: "hd b = b ! 0" using assms l by (intro hd_conv_nth) (auto simp: word_less_nat_alt)
  have v: "word_of_nat (be_val (take n b)) =
      foldl (\<lambda>a x. push_bit 8 a OR ucast x) (0 :: u64) (map ((!) b) [0..<n])" if "\<not> length b < n" for n
    using that by (simp add: shift_or_val take_nths)
  show ?thesis using assms
    by (cases rule: slen_cases)
      (use False l in \<open>simp_all add: readSize_def h v count_up push_bit_or or.assoc\<close>)
qed (simp add: readSize_def)

section \<open>The reference encoding\<close>

text \<open>
  What the package documents as the encoding of a string and of a list with a given payload.
\<close>

definition single_byte :: "bytes \<Rightarrow> bool" where
  "single_byte c \<longleftrightarrow> length c = 1 \<and> hd c < 0x80"

definition rlp_string :: "bytes \<Rightarrow> bytes" where
  "rlp_string c = (if single_byte c then c else puthead 0x80 0xB7 (word_of_nat (length c)) @ c)"

definition rlp_list :: "bytes \<Rightarrow> bytes" where
  "rlp_list c = puthead 0xC0 0xF7 (word_of_nat (length c)) @ c"

abbreviation fits :: "bytes \<Rightarrow> bool" where
  "fits b \<equiv> length b < 2 ^ 64"

lemma unat_length: "fits c \<Longrightarrow> unat (word_of_nat (length c) :: u64) = length c"
  by (simp add: unsigned_of_nat take_bit_nat_eq_self)

lemma word_length_less: "fits c \<Longrightarrow> (word_of_nat (length c) :: u64) < 56 \<longleftrightarrow> length c < 56"
  by (simp add: word_less_nat_alt unat_length)

lemma ucast_sum: "n < 56 \<Longrightarrow> (ucast (word_of_nat n :: u64) :: u8) = word_of_nat n"
  by (simp add: unsigned_of_nat take_bit_nat_eq_self)

text \<open>The tag bytes: \<open>tag + n\<close> for a short size, \<open>tag + number of size bytes\<close> for a long one.\<close>

lemma small_tag:
  assumes "n < 56"
  shows "unat (0x80 + word_of_nat n :: u8) = 128 + n" "unat (0xC0 + word_of_nat n :: u8) = 192 + n"
  using assms by (simp_all add: unat_word_ariths unsigned_of_nat take_bit_nat_eq_self)

lemma large_tag:
  assumes "n \<le> 8"
  shows "unat (0xB7 + word_of_nat n :: u8) = 183 + n" "unat (0xF7 + word_of_nat n :: u8) = 247 + n"
  using assms by (simp_all add: unat_word_ariths unsigned_of_nat take_bit_nat_eq_self)

lemma readSize_putint:
  assumes "\<not> sz < 56"
  shows "readSize (putint sz @ r) (word_of_nat (length (putint sz))) = Inr sz"
proof -
  let ?l = "length (putint sz)"
  have u: "unat (word_of_nat ?l :: u8) = ?l"
    using length_putint [of sz] by (simp add: unsigned_of_nat take_bit_nat_eq_self)
  then have "0 < (word_of_nat ?l :: u8)" "(word_of_nat ?l :: u8) \<le> 8"
    using length_putint [of sz] by (simp_all add: word_less_nat_alt word_le_nat_alt)
  moreover have "sz \<noteq> 0" using assms by (auto simp: word_less_nat_alt)
  then have "hd (putint sz @ r) \<noteq> 0"
    using hd_be_bytes [of "unat sz"] by (simp add: putint_be_bytes hd_append unat_gt_0 unat_eq_zero)
  ultimately show ?thesis using assms by (simp add: readSize_val u Let_def)
qed

lemma room_after_head:
  assumes "h + n + m < 2 ^ 64"
  shows "\<not> (word_of_nat (h + n + m) :: u64) - word_of_nat h < word_of_nat n"
proof -
  have "(word_of_nat (h + n + m) :: u64) - word_of_nat h = word_of_nat (n + m)" by simp
  then show ?thesis using assms
    by (simp add: word_less_nat_alt unsigned_of_nat take_bit_nat_eq_self del: of_nat_add)
qed

lemma raw_readKind_long:
  assumes "readSize r (b - (if b < 0xC0 then 0xB7 else 0xF7)) = Inr cs"
    and "b < 0xC0 \<and> \<not> b < 0xB8 \<or> \<not> b < 0xF8"
    and "ts = ucast (b - (if b < 0xC0 then 0xB7 else 0xF7)) + 1"
    and "\<not> of_nat (length (b # r)) - ts < cs"
  shows "raw_readKind (b # r) = Inr (if b < 0xC0 then StringK else ListK, ts, cs)"
proof (cases "b < 0xC0")
  case True
  then have "\<not> b < 0x80" "\<not> b < 0xB8" "b < 0xC0" using assms(2) by (auto simp: word_less_nat_alt)
  then show ?thesis using assms(1,3,4) by (simp add: raw_readKind_def)
next
  case False
  then have "\<not> b < 0x80" "\<not> b < 0xB8" "\<not> b < 0xC0" "\<not> b < 0xF8"
    using assms(2) by (auto simp: word_less_nat_alt)
  then show ?thesis using assms(1,3,4) by (simp add: raw_readKind_def)
qed

lemma long_head:
  assumes "\<not> sz < 56"
  shows "puthead s l sz = (l + word_of_nat (length (putint sz))) # putint sz"
    and "(ucast (word_of_nat (length (putint sz)) :: u8) :: u64) + 1 = word_of_nat (headsize sz)"
  using assms length_putint [of sz]
  by (simp_all add: puthead_def headsize_def intsize_putint Let_def unsigned_of_nat take_bit_nat_eq_self)

lemma raw_readKind_string:
  assumes f: "fits (puthead 0x80 0xB7 (word_of_nat (length c)) @ c @ rest)" and s: "\<not> single_byte c"
  shows "raw_readKind (puthead 0x80 0xB7 (word_of_nat (length c)) @ c @ rest) =
     Inr (StringK, word_of_nat (headsize (word_of_nat (length c))), word_of_nat (length c))"
proof -
  let ?sz = "word_of_nat (length c) :: u64"
  have c: "fits c" using f by simp
  have le: "\<not> (word_of_nat (headsize ?sz + length c + length rest) :: u64) - word_of_nat (headsize ?sz) < ?sz"
    using f by (intro room_after_head) simp
  show ?thesis
  proof (cases "length c < 56")
    case True
    let ?b = "0x80 + word_of_nat (length c) :: u8"
    have h: "puthead 0x80 0xB7 ?sz = [?b]" "headsize ?sz = 1"
      using True c by (simp_all add: puthead_def headsize_def word_length_less ucast_sum)
    have b: "\<not> ?b < 0x80" "?b < 0xB8" "ucast (?b - 0x80) = ?sz"
      using True small_tag [OF True]
      by (simp_all add: word_less_nat_alt unsigned_of_nat take_bit_nat_eq_self)
    have "?sz = 1 \<longleftrightarrow> length c = 1" using unat_length [OF c] by (auto simp: word_unat_eq_iff)
    then have q: "c @ rest \<noteq> [] \<and> \<not> (c @ rest) ! 0 < 0x80" if "?sz = 1"
      using s that by (cases c) (auto simp: single_byte_def)
    show ?thesis unfolding h using le [unfolded h] b q
      by (simp add: raw_readKind_def Let_def)
  next
    case False
    then have sz: "\<not> ?sz < 56" using word_length_less [OF c] by simp
    let ?b = "0xB7 + word_of_nat (length (putint ?sz)) :: u8"
    have b: "?b < 0xC0 \<and> \<not> ?b < 0xB8" "?b - 0xB7 = word_of_nat (length (putint ?sz))"
      using length_putint [of ?sz] large_tag [of "length (putint ?sz)"] by (simp_all add: word_less_nat_alt)
    have "length (?b # putint ?sz @ c @ rest) = headsize ?sz + length c + length rest"
      using sz by (simp add: headsize_def intsize_putint)
    then have "\<not> of_nat (length (?b # putint ?sz @ c @ rest)) - word_of_nat (headsize ?sz) < ?sz"
      using le by (simp only: not_False_eq_True)
    then show ?thesis
      using raw_readKind_long [of "putint ?sz @ c @ rest" ?b ?sz "word_of_nat (headsize ?sz)"]
        readSize_putint [OF sz] long_head [OF sz] b by simp
  qed
qed

lemma raw_readKind_list:
  assumes f: "fits (rlp_list c @ rest)"
  shows "raw_readKind (rlp_list c @ rest) =
     Inr (ListK, word_of_nat (headsize (word_of_nat (length c))), word_of_nat (length c))"
proof -
  let ?sz = "word_of_nat (length c) :: u64"
  have c: "fits c" using f by (simp add: rlp_list_def)
  have le: "\<not> (word_of_nat (headsize ?sz + length c + length rest) :: u64) - word_of_nat (headsize ?sz) < ?sz"
    using f by (intro room_after_head) (simp add: rlp_list_def)
  show ?thesis
  proof (cases "length c < 56")
    case True
    let ?b = "0xC0 + word_of_nat (length c) :: u8"
    have h: "puthead 0xC0 0xF7 ?sz = [?b]" "headsize ?sz = 1"
      using True c by (simp_all add: puthead_def headsize_def word_length_less ucast_sum)
    have b: "\<not> ?b < 0x80" "\<not> ?b < 0xB8" "\<not> ?b < 0xC0" "?b < 0xF8" "ucast (?b - 0xC0) = ?sz"
      using True small_tag [OF True]
      by (simp_all add: word_less_nat_alt unsigned_of_nat take_bit_nat_eq_self)
    show ?thesis unfolding rlp_list_def h using le [unfolded h] b
      by (simp add: raw_readKind_def)
  next
    case False
    then have sz: "\<not> ?sz < 56" using word_length_less [OF c] by simp
    let ?b = "0xF7 + word_of_nat (length (putint ?sz)) :: u8"
    have b: "\<not> ?b < 0xF8" "\<not> ?b < 0xC0" "?b - 0xF7 = word_of_nat (length (putint ?sz))"
      using length_putint [of ?sz] large_tag [of "length (putint ?sz)"] by (simp_all add: word_less_nat_alt)
    have "length (?b # putint ?sz @ c @ rest) = headsize ?sz + length c + length rest"
      using sz by (simp add: headsize_def intsize_putint)
    then have "\<not> of_nat (length (?b # putint ?sz @ c @ rest)) - word_of_nat (headsize ?sz) < ?sz"
      using le by (simp only: not_False_eq_True)
    then show ?thesis
      using raw_readKind_long [of "putint ?sz @ c @ rest" ?b ?sz "word_of_nat (headsize ?sz)"]
        readSize_putint [OF sz] long_head [OF sz] b by (simp add: rlp_list_def)
  qed
qed

section \<open>Splitting inverts the encoding\<close>

definition rlp_enc :: "Kind \<Rightarrow> bytes \<Rightarrow> bytes" where
  "rlp_enc k c = (if k = ListK then rlp_list c else rlp_string c)"

text \<open>The kind under which a string or list is announced.\<close>

definition kind_ok :: "Kind \<Rightarrow> bytes \<Rightarrow> bool" where
  "kind_ok k c \<longleftrightarrow> k = ListK \<or> (k = ByteK \<longleftrightarrow> single_byte c)"

lemma readSize_inv:
  assumes "readSize r sl = Inr cs" "0 < sl" "sl \<le> 8"
  shows "putint cs = take (unat sl) r" "unat sl \<le> length r" "\<not> cs < 56"
proof -
  have l: "unat sl \<le> length r" and cs: "cs = word_of_nat (be_val (take (unat sl) r))"
    and h: "hd r \<noteq> 0" and g: "\<not> cs < 56"
    using assms by (auto simp: readSize_val Let_def split: if_splits)
  have sl: "0 < unat sl" "unat sl \<le> 8" using assms by (auto simp: word_less_nat_alt word_le_nat_alt)
  have "be_val (take (unat sl) r) < 256 ^ length (take (unat sl) r)" by (rule be_val_less)
  also have "\<dots> \<le> 256 ^ 8" using sl by (intro power_increasing) auto
  finally have "unat cs = be_val (take (unat sl) r)"
    by (simp add: cs unsigned_of_nat take_bit_nat_eq_self)
  moreover have "hd (take (unat sl) r) \<noteq> 0" using h sl by (simp add: hd_take)
  moreover have "cs \<noteq> 0" using g by (auto simp: word_less_nat_alt)
  ultimately show "putint cs = take (unat sl) r"
    using be_bytes_be_val [of "take (unat sl) r"] by (simp add: putint_be_bytes)
qed (use assms in \<open>auto simp: readSize_val Let_def split: if_splits\<close>)

lemma room_iff:
  assumes "fits b" "unat ts \<le> length b"
  shows "(of_nat (length b) - ts :: u64) < cs \<longleftrightarrow> length b < unat ts + unat cs"
proof -
  have "unat (of_nat (length b) - ts) = length b - unat ts"
    using assms unat_length [OF assms(1)] by (simp add: unat_sub word_le_nat_alt)
  then show ?thesis using assms(2) by (auto simp: word_less_nat_alt)
qed

text \<open>What a tag byte announces, when the size bytes after it are in order.\<close>

definition announced :: "bytes \<Rightarrow> Kind \<Rightarrow> u64 \<Rightarrow> u64 \<Rightarrow> bool" where
  "announced b k ts cs \<longleftrightarrow> unat ts + unat cs \<le> length b \<and> 0 < unat ts + unat cs
     \<and> kind_ok k (take (unat cs) (drop (unat ts) b))
     \<and> rlp_enc k (take (unat cs) (drop (unat ts) b)) = take (unat ts + unat cs) b"

lemma announced_long:
  assumes f: "fits (t # u)" and sz: "readSize u (t - T) = Inr cs" and T: "0 < t - T" "t - T \<le> 8"
    and ts: "ts = ucast (t - T) + 1" and room: "\<not> of_nat (length (t # u)) - ts < cs"
    and k: "k = StringK \<and> T = 0xB7 \<or> k = ListK \<and> T = 0xF7"
  shows "announced (t # u) k ts cs"
proof -
  note p = readSize_inv [OF sz T]
  have uts: "unat ts = unat (t - T) + 1"
    using T by (simp add: ts word_le_nat_alt unat_word_ariths unsigned_ucast_eq take_bit_nat_eq_self)
  have le: "unat ts + unat cs \<le> length (t # u)"
    using room room_iff [OF f, of ts cs] p(2) uts by simp
  define c where "c = take (unat cs) (drop (unat ts) (t # u))"
  have lc: "length c = unat cs" using le unfolding c_def by simp
  have lp: "length (putint cs) = unat (t - T)" using p(1,2) by simp
  have "puthead s T (word_of_nat (length c)) = t # take (unat (t - T)) u" for s
    using p(2) by (simp add: lc long_head(1) [OF p(3)] p(1) min_def)
  moreover have ns: "\<not> single_byte c" using p(3) lc by (auto simp: single_byte_def word_less_nat_alt)
  ultimately have "rlp_enc k c = t # take (unat (t - T)) u @ c"
    using k by (auto simp: rlp_enc_def rlp_list_def rlp_string_def)
  moreover have "take (unat ts + unat cs) (t # u) = t # take (unat (t - T)) u @ c"
    by (simp add: uts c_def take_add)
  ultimately show ?thesis
    unfolding announced_def c_def [symmetric] using le k ns uts by (auto simp: kind_ok_def)
qed

lemma announced_short:
  assumes f: "fits (t # u)" and T: "unat (t - T) < 56"
    and cs: "cs = ucast (t - T)" and room: "\<not> of_nat (length (t # u)) - 1 < cs"
    and k: "k = StringK \<and> T = 0x80 \<or> k = ListK \<and> T = 0xC0"
    and single: "k = StringK \<and> cs = 1 \<longrightarrow> u \<noteq> [] \<and> \<not> u ! 0 < 0x80"
  shows "announced (t # u) k 1 cs"
proof -
  have ucs: "unat cs = unat (t - T)"
    using T by (simp add: cs unsigned_ucast_eq take_bit_nat_eq_self)
  have le: "unat cs \<le> length u"
    using room room_iff [OF f, of 1 cs] by simp
  define c where "c = take (unat cs) u"
  have lc: "length c = unat (t - T)" using le ucs by (simp add: c_def)
  have "(ucast cs :: u8) = t - T"
    using T by (simp add: cs word_unat_eq_iff unsigned_ucast_eq take_bit_nat_eq_self take_bit_word_eq_self)
  moreover have "word_of_nat (length c) = cs" "cs < 56"
    using T by (simp_all add: lc ucs [symmetric] word_less_nat_alt)
  ultimately have "puthead T l (word_of_nat (length c)) = [t]" for l by (simp add: puthead_def)
  moreover have ns: "\<not> single_byte c" if "k = StringK"
    using single that lc ucs le
    by (cases u) (auto simp: single_byte_def c_def word_unat_eq_iff unsigned_ucast_eq)
  ultimately have "rlp_enc k c = t # c"
    using k by (auto simp: rlp_enc_def rlp_list_def rlp_string_def)
  then show ?thesis
    using le k ns by (auto simp: announced_def c_def [symmetric] kind_ok_def)
qed

lemma tag_ranges:
  fixes t :: u8
  shows "\<not> t < 0x80 \<Longrightarrow> t < 0xB8 \<Longrightarrow> unat (t - 0x80) < 56"
    "\<not> t < 0xB8 \<Longrightarrow> t < 0xC0 \<Longrightarrow> 0 < t - 0xB7 \<and> t - 0xB7 \<le> 8"
    "\<not> t < 0xC0 \<Longrightarrow> t < 0xF8 \<Longrightarrow> unat (t - 0xC0) < 56"
    "\<not> t < 0xF8 \<Longrightarrow> 0 < t - 0xF7 \<and> t - 0xF7 \<le> 8"
  using unat_u8_less [of t] by (auto simp: word_less_nat_alt word_le_nat_alt unat_sub_if_size word_size)

lemma raw_readKind_announced:
  assumes f: "fits b" and r: "raw_readKind b = Inr (k, ts, cs)"
  shows "announced b k ts cs"
proof -
  obtain t u where b: "b = t # u" using r by (cases b) (auto simp: raw_readKind_def)
  consider "t < 0x80" | "\<not> t < 0x80" "t < 0xB8" | "\<not> t < 0xB8" "t < 0xC0"
    | "\<not> t < 0xC0" "t < 0xF8" | "\<not> t < 0xF8" by blast
  then show ?thesis
  proof cases
    case 1
    then show ?thesis using r
      by (auto simp: b raw_readKind_def announced_def kind_ok_def rlp_enc_def rlp_string_def
          single_byte_def split: if_splits)
  next
    case 2
    then show ?thesis unfolding b using r f tag_ranges(1) [OF 2]
      by (auto simp: b raw_readKind_def Let_def split: if_splits intro!: announced_short)
  next
    case 3
    then have "\<not> t < 0x80" by (auto simp: word_less_nat_alt)
    then show ?thesis unfolding b using 3 r f tag_ranges(2) [OF 3]
      by (auto simp: b raw_readKind_def split: if_splits sum.splits intro!: announced_long)
  next
    case 4
    then have "\<not> t < 0x80" "\<not> t < 0xB8" by (auto simp: word_less_nat_alt)
    then show ?thesis unfolding b using 4 r f tag_ranges(3) [OF 4]
      by (auto simp: b raw_readKind_def split: if_splits intro!: announced_short)
  next
    case 5
    then have "\<not> t < 0x80" "\<not> t < 0xB8" "\<not> t < 0xC0" by (auto simp: word_less_nat_alt)
    then show ?thesis unfolding b using 5 r f tag_ranges(4) [OF 5]
      by (auto simp: b raw_readKind_def split: if_splits sum.splits intro!: announced_long)
  qed
qed

lemma raw_readKind_progress: "raw_readKind b = Inr (k, ts, cs) \<Longrightarrow> 0 < unat ts + unat cs \<and> b \<noteq> []"
proof -
  assume r: "raw_readKind b = Inr (k, ts, cs)"
  have u: "0 < unat ((ucast (x :: u8) :: u64) + 1)" for x
  proof -
    have "unat (ucast x :: u64) < 256"
      using unat_u8_less [of x] by (simp add: unsigned_ucast_eq take_bit_nat_eq_self)
    then show ?thesis by (simp add: unat_word_ariths)
  qed
  show ?thesis using r
    by (auto simp: raw_readKind_def Let_def u split: list.splits if_splits sum.splits)
qed

text \<open>
  The loop of \<^verbatim>\<open>CountValues\<close>. The sum \<^verbatim>\<open>tagsize+size\<close> is at most the length of the slice and
  does not wrap around.
\<close>

function CountValues_loop :: "nat \<Rightarrow> bytes \<Rightarrow> rlp_err + nat" where
  "CountValues_loop i b =
     (if b = [] then Inr i
      else case raw_readKind b of Inl e \<Rightarrow> Inl e
        | Inr (k, tagsize, sz) \<Rightarrow> CountValues_loop (i + 1) (drop (unat tagsize + unat sz) b))"
  by pat_completeness auto
termination
  by (relation "measure (\<lambda>(i, b). length b)") (auto dest!: raw_readKind_progress)

declare CountValues_loop.simps [simp del]

definition CountValues :: "bytes \<Rightarrow> rlp_err + nat" where
  "CountValues b = CountValues_loop 0 b"

lemma Split_iff:
  assumes f: "fits b"
  shows "Split b = Inr (k, c, rest) \<longleftrightarrow> kind_ok k c \<and> b = rlp_enc k c @ rest"
proof
  assume "Split b = Inr (k, c, rest)"
  then obtain ts cs where r: "raw_readKind b = Inr (k, ts, cs)"
    and s: "c = take (unat (ts + cs) - unat ts) (drop (unat ts) b)" "rest = drop (unat (ts + cs)) b"
    by (auto simp: Split_def split: sum.splits)
  note a = raw_readKind_announced [OF f r, unfolded announced_def]
  have "unat (ts + cs) = unat ts + unat cs" using a f by (simp add: unat_word_ariths)
  with a s show "kind_ok k c \<and> b = rlp_enc k c @ rest" by simp
next
  assume e: "kind_ok k c \<and> b = rlp_enc k c @ rest"
  let ?h = "headsize (word_of_nat (length c))"
  have head: "Split (puthead s l (word_of_nat (length c)) @ c @ rest) = Inr (q, c, rest)"
    if r: "raw_readKind (puthead s l (word_of_nat (length c)) @ c @ rest) =
      Inr (q, word_of_nat ?h, word_of_nat (length c))"
      and g: "fits (puthead s l (word_of_nat (length c)) @ c @ rest)" for s l q
  proof -
    have "unat (word_of_nat ?h + word_of_nat (length c) :: u64) = ?h + length c" "unat (word_of_nat ?h :: u64) = ?h"
      using g by (simp_all add: unsigned_of_nat take_bit_nat_eq_self flip: of_nat_add)
    then show ?thesis by (simp add: Split_def r)
  qed
  show "Split b = Inr (k, c, rest)"
  proof (cases "k = ListK")
    case True
    then have b: "b = rlp_list c @ rest" using e by (simp add: rlp_enc_def)
    show ?thesis using head [of "0xC0" "0xF7" ListK] raw_readKind_list [of c rest] f True
      by (simp add: b rlp_list_def)
  next
    case False
    show ?thesis
    proof (cases "single_byte c")
      case True
      then obtain x where "c = [x]" "x < 0x80" by (auto simp: single_byte_def length_Suc_conv)
      moreover have "(word_of_nat (length b) :: u64) \<noteq> 0" if "b \<noteq> []"
        using that room_iff [OF f, of 0 1] by auto
      ultimately show ?thesis using e False True
        by (cases k) (auto simp: kind_ok_def rlp_enc_def rlp_string_def Split_def raw_readKind_def split: if_splits)
    next
      case ns: False
      then have k: "k = StringK" using e False by (cases k) (auto simp: kind_ok_def)
      then have b: "b = puthead 0x80 0xB7 (word_of_nat (length c)) @ c @ rest"
        using e ns by (simp add: rlp_enc_def rlp_string_def)
      show ?thesis using head [of "0x80" "0xB7" StringK] raw_readKind_string [of c rest] ns f
        by (simp add: b k)
    qed
  qed
qed

section \<open>Values one after the other\<close>

text \<open>
  What a reader that takes one value off the front of its input promises: it succeeds exactly on
  an encoding followed by the rest. From this alone, values written one after the other can be
  read in one way only.
\<close>

locale prefix_codec =
  fixes enc :: "'a \<Rightarrow> 'b list"
    and dec :: "'b list \<Rightarrow> ('a \<times> 'b list) option"
    and ok :: "'a \<Rightarrow> bool"
    and bounded :: "'b list \<Rightarrow> bool"
  assumes dec_iff: "bounded b \<Longrightarrow> dec b = Some (a, r) \<longleftrightarrow> ok a \<and> b = enc a @ r"
    and enc_nonempty: "ok a \<Longrightarrow> enc a \<noteq> []"
    and bounded_rest: "bounded (b @ r) \<Longrightarrow> bounded r"
begin

lemma head_unique:
  assumes "bounded (enc a @ r)" "ok a" "ok a'" "enc a @ r = enc a' @ r'"
  shows "a = a' \<and> r = r'"
  using dec_iff [OF assms(1), of a r] dec_iff [OF assms(1), of a' r'] assms(2-4) by auto

lemma sequence_unique:
  assumes "bounded (concat (map enc xs))" "list_all ok xs" "list_all ok ys"
    and "concat (map enc xs) = concat (map enc ys)"
  shows "xs = ys"
  using assms
proof (induction xs arbitrary: ys)
  case Nil
  then show ?case using enc_nonempty by (cases ys) auto
next
  case (Cons x xs)
  then obtain y zs where ys: "ys = y # zs" using enc_nonempty by (cases ys) auto
  have "x = y \<and> concat (map enc xs) = concat (map enc zs)"
    using Cons.prems head_unique [of x "concat (map enc xs)" y "concat (map enc zs)"] by (simp add: ys)
  then show ?case using Cons.IH [of zs] Cons.prems bounded_rest by (auto simp: ys)
qed

end

definition split_item :: "bytes \<Rightarrow> ((Kind \<times> bytes) \<times> bytes) option" where
  "split_item b = (case Split b of Inl e \<Rightarrow> None | Inr (k, c, rest) \<Rightarrow> Some ((k, c), rest))"

abbreviation enc_item :: "Kind \<times> bytes \<Rightarrow> bytes" where
  "enc_item \<equiv> \<lambda>(k, c). rlp_enc k c"

abbreviation ok_item :: "Kind \<times> bytes \<Rightarrow> bool" where
  "ok_item \<equiv> \<lambda>(k, c). kind_ok k c"

lemma puthead_nonempty [simp]: "puthead s l sz \<noteq> []"
  by (simp add: puthead_def Let_def)

lemma rlp_enc_nonempty [simp]: "rlp_enc k c \<noteq> []"
  by (auto simp: rlp_enc_def rlp_list_def rlp_string_def single_byte_def)

interpretation rlp_items: prefix_codec enc_item split_item ok_item fits
proof
  fix b :: bytes and a :: "Kind \<times> bytes" and r
  assume "fits b"
  moreover have "split_item b = Some (a, r) \<longleftrightarrow> Split b = Inr (fst a, snd a, r)"
    by (auto simp: split_item_def split: sum.splits)
  ultimately show "split_item b = Some (a, r) \<longleftrightarrow> ok_item a \<and> b = enc_item a @ r"
    by (simp add: Split_iff case_prod_beta)
qed auto

lemma no_items [simp]: "(\<forall>x \<in> set xs. enc_item x = []) \<longleftrightarrow> xs = []"
  by (cases xs) auto

lemma raw_readKind_Split:
  "fits b \<Longrightarrow> raw_readKind b = Inr (k, ts, cs) \<Longrightarrow>
     Split b = Inr (k, take (unat cs) (drop (unat ts) b), drop (unat ts + unat cs) b)"
  using raw_readKind_announced [of b k ts cs] by (simp add: Split_def announced_def unat_word_ariths)

lemma CountValues_loop_iff:
  "fits b \<Longrightarrow> CountValues_loop i b = Inr n \<longleftrightarrow>
     (\<exists>xs. n = i + length xs \<and> list_all ok_item xs \<and> b = concat (map enc_item xs))"
proof (induction i b rule: CountValues_loop.induct)
  case (1 i b)
  show ?case
  proof (cases "raw_readKind b")
    case (Inl e)
    then have "Split b = Inl e" by (simp add: Split_def)
    then have "b \<noteq> concat (map enc_item xs)" if "list_all ok_item xs" "b \<noteq> []" for xs
      using that Split_iff [OF "1.prems"] by (cases xs) auto
    then show ?thesis using Inl by (auto simp: CountValues_loop.simps [of i b])
  next
    case (Inr q)
    obtain k ts cs where q: "q = (k, ts, cs)" by (cases q)
    have b: "b \<noteq> []" using Inr raw_readKind_progress by (auto simp: q)
    let ?c = "take (unat cs) (drop (unat ts) b)" and ?r = "drop (unat ts + unat cs) b"
    have s: "Split b = Inr (k, ?c, ?r)" using raw_readKind_Split [OF "1.prems"] Inr by (simp add: q)
    then have e: "kind_ok k ?c" "b = rlp_enc k ?c @ ?r" using Split_iff [OF "1.prems"] by auto
    have IH: "CountValues_loop (i + 1) ?r = Inr n \<longleftrightarrow>
       (\<exists>xs. n = i + 1 + length xs \<and> list_all ok_item xs \<and> ?r = concat (map enc_item xs))"
      using "1.IH" [OF b Inr] "1.prems" by (simp add: q)
    have "(\<exists>xs. n = i + 1 + length xs \<and> list_all ok_item xs \<and> ?r = concat (map enc_item xs)) \<longleftrightarrow>
       (\<exists>xs. n = i + length xs \<and> list_all ok_item xs \<and> b = concat (map enc_item xs))" (is "?L \<longleftrightarrow> ?R")
    proof
      assume ?L
      then obtain xs where "n = i + 1 + length xs" "list_all ok_item xs" "?r = concat (map enc_item xs)" by blast
      then show ?R using e by (intro exI [of _ "(k, ?c) # xs"]) simp
    next
      assume ?R
      then obtain ys where y: "n = i + length ys" "list_all ok_item ys" "b = concat (map enc_item ys)" by blast
      then obtain x xs where "ys = x # xs" using b by (cases ys) auto
      then have x: "n = i + length (x # xs)" "ok_item x" "list_all ok_item xs"
        "b = enc_item x @ concat (map enc_item xs)" using y by simp_all
      then have "Split b = Inr (fst x, snd x, concat (map enc_item xs))"
        using Split_iff [OF "1.prems"] by (cases x) simp
      then show ?L using x s by auto
    qed
    then show ?thesis using IH Inr b by (simp add: q CountValues_loop.simps [of i b])
  qed
qed

end
