(* ===== verification/Rlp_Stream.thy ===== *)
theory Rlp_Stream
  imports Rlp_Raw
begin

text \<open>
  The \<^verbatim>\<open>Stream\<close> of \<^verbatim>\<open>rlp/decode.go\<close>: reading kinds, strings, integers and list boundaries off a
  reader, with the size limits. The reader is the list of bytes it has still to deliver and then
  reports \<^verbatim>\<open>io.EOF\<close>, as \<^verbatim>\<open>bytes.Reader\<close> does. The innermost list of the stack comes first; the
  scratch buffer \<^verbatim>\<open>uintbuf\<close> is left out.
\<close>

record Stream =
  input :: bytes
  remaining :: u64
  limited :: bool
  kind :: "Kind option"
  vsize :: u64
  byteval :: u8
  kinderr :: "rlp_err option"
  stack :: "(u64 \<times> u64) list"

type_synonym 'a result = "(rlp_err + 'a) \<times> Stream"

section \<open>Creating a stream\<close>

text \<open>
  \<open>sized\<close> says whether the reader is one whose length \<^verbatim>\<open>Reset\<close> can ask for.
\<close>

definition Reset :: "bytes \<Rightarrow> bool \<Rightarrow> u64 \<Rightarrow> Stream \<Rightarrow> Stream" where
  "Reset rd sized inputLimit s =
     (let s1 = (if inputLimit > 0 then s\<lparr>remaining := inputLimit, limited := True\<rparr>
                else if sized then s\<lparr>remaining := of_nat (length rd), limited := True\<rparr>
                else s\<lparr>limited := False\<rparr>)
      in s1\<lparr>input := rd, stack := [], vsize := 0, kind := None, kinderr := None\<rparr>)"

definition new_Stream :: Stream where
  "new_Stream = \<lparr> input = [], remaining = 0, limited = False, kind = Some ByteK, vsize = 0,
     byteval = 0, kinderr = None, stack = [] \<rparr>"

definition NewStream :: "bytes \<Rightarrow> bool \<Rightarrow> u64 \<Rightarrow> Stream" where
  "NewStream rd sized inputLimit = Reset rd sized inputLimit new_Stream"

definition NewListStream :: "bytes \<Rightarrow> bool \<Rightarrow> u64 \<Rightarrow> Stream" where
  "NewListStream rd sized len = (Reset rd sized len new_Stream)\<lparr>kind := Some ListK, vsize := len\<rparr>"

section \<open>Reading bytes\<close>

definition willRead :: "u64 \<Rightarrow> Stream \<Rightarrow> rlp_err option \<times> Stream" where
  "willRead n s0 =
     (let s = s0\<lparr>kind := None\<rparr> in
      case (case stack s of [] \<Rightarrow> (None, s)
            | (pos, sz) # st \<Rightarrow>
                if n > sz - pos then (Some ErrElemTooLarge, s)
                else (None, s\<lparr>stack := (pos + n, sz) # st\<rparr>)) of
        (Some e, s1) \<Rightarrow> (Some e, s1)
      | (None, s1) \<Rightarrow>
          if limited s1
          then if n > remaining s1 then (Some ErrValueTooLarge, s1)
               else (None, s1\<lparr>remaining := remaining s1 - n\<rparr>)
          else (None, s1))"

definition readByte :: "Stream \<Rightarrow> u8 result" where
  "readByte s =
     (case willRead 1 s of (Some e, s1) \<Rightarrow> (Inl e, s1)
      | (None, s1) \<Rightarrow>
          (case input s1 of [] \<Rightarrow> (Inl ErrUnexpectedEOF, s1) | b # rd \<Rightarrow> (Inr b, s1\<lparr>input := rd\<rparr>)))"

definition readFull :: "nat \<Rightarrow> Stream \<Rightarrow> bytes result" where
  "readFull n s =
     (case willRead (of_nat n) s of (Some e, s1) \<Rightarrow> (Inl e, s1)
      | (None, s1) \<Rightarrow>
          let s2 = s1\<lparr>input := drop n (input s1)\<rparr> in
          if n \<le> length (input s1) then (Inr (take n (input s1)), s2) else (Inl ErrUnexpectedEOF, s2))"

definition readUint :: "u8 \<Rightarrow> Stream \<Rightarrow> u64 result" where
  "readUint sz s =
     (if sz = 0 then (Inr 0, s\<lparr>kind := None\<rparr>)
      else if sz = 1
      then (case readByte s of (Inl e, s1) \<Rightarrow> (Inl e, s1) | (Inr b, s1) \<Rightarrow> (Inr (ucast b), s1))
      else (case readFull (unat sz) s of (Inl e, s1) \<Rightarrow> (Inl e, s1)
            | (Inr b, s1) \<Rightarrow>
                if b ! 0 = 0 then (Inl ErrCanonSize, s1) else (Inr (word_of_nat (be_val b)), s1)))"

section \<open>Kinds\<close>

text \<open>The kind and size are assigned even when an error comes with them.\<close>

definition Stream_readKind :: "Stream \<Rightarrow> (Kind \<times> u64 \<times> rlp_err option) \<times> Stream" where
  "Stream_readKind s =
     (case readByte s of
        (Inl e, s1) \<Rightarrow>
          ((ByteK, 0, Some (if stack s1 = [] \<and> (e = ErrUnexpectedEOF \<or> e = ErrValueTooLarge) then EOF else e)), s1)
      | (Inr b, s0) \<Rightarrow>
          let s1 = s0\<lparr>byteval := 0\<rparr> in
          if b < 0x80 then ((ByteK, 0, None), s1\<lparr>byteval := b\<rparr>)
          else if b < 0xB8 then ((StringK, ucast (b - 0x80), None), s1)
          else if b < 0xC0
          then (case readUint (b - 0xB7) s1 of
                  (Inl e, s2) \<Rightarrow> ((StringK, 0, Some e), s2)
                | (Inr n, s2) \<Rightarrow> ((StringK, n, if n < 56 then Some ErrCanonSize else None), s2))
          else if b < 0xF8 then ((ListK, ucast (b - 0xC0), None), s1)
          else (case readUint (b - 0xF7) s1 of
                  (Inl e, s2) \<Rightarrow> ((ListK, 0, Some e), s2)
                | (Inr n, s2) \<Rightarrow> ((ListK, n, if n < 56 then Some ErrCanonSize else None), s2)))"

definition Stream_Kind :: "Stream \<Rightarrow> (Kind \<times> u64 \<times> rlp_err option) \<times> Stream" where
  "Stream_Kind s =
     (case kind s of
        Some k \<Rightarrow> ((k, vsize s, kinderr s), s)
      | None \<Rightarrow>
          let s0 = s\<lparr>kinderr := None\<rparr> in
          if (case stack s0 of [] \<Rightarrow> False | (pos, sz) # st \<Rightarrow> pos = sz) then ((ByteK, 0, Some EOL), s0)
          else (case Stream_readKind s0 of ((k, n, e), s1) \<Rightarrow>
            let e' = (if e \<noteq> None then e
                      else case stack s1 of
                             [] \<Rightarrow> if limited s1 \<and> n > remaining s1 then Some ErrValueTooLarge else None
                           | (pos, sz) # st \<Rightarrow> if n > sz - pos then Some ErrElemTooLarge else None)
            in ((k, n, e'), s1\<lparr>kind := Some k, vsize := n, kinderr := e'\<rparr>)))"

section \<open>Values\<close>

definition Stream_Bytes :: "Stream \<Rightarrow> bytes result" where
  "Stream_Bytes s =
     (case Stream_Kind s of
        ((k, n, Some e), s1) \<Rightarrow> (Inl e, s1)
      | ((ByteK, n, None), s1) \<Rightarrow> (Inr [byteval s1], s1\<lparr>kind := None\<rparr>)
      | ((StringK, n, None), s1) \<Rightarrow>
          (case readFull (unat n) s1 of (Inl e, s2) \<Rightarrow> (Inl e, s2)
           | (Inr b, s2) \<Rightarrow> if n = 1 \<and> b ! 0 < 128 then (Inl ErrCanonSize, s2) else (Inr b, s2))
      | ((ListK, n, None), s1) \<Rightarrow> (Inl ErrExpectedString, s1))"

definition Stream_Raw :: "Stream \<Rightarrow> bytes result" where
  "Stream_Raw s =
     (case Stream_Kind s of
        ((k, n, Some e), s1) \<Rightarrow> (Inl e, s1)
      | ((k, n, None), s1) \<Rightarrow>
          if k = ByteK then (Inr [byteval s1], s1\<lparr>kind := None\<rparr>)
          else (case readFull (unat n) s1 of (Inl e, s2) \<Rightarrow> (Inl e, s2)
                | (Inr b, s2) \<Rightarrow>
                    if k = StringK then (Inr (puthead 0x80 0xB8 n @ b), s2)
                    else (Inr (puthead 0xC0 0xF7 n @ b), s2)))"

definition Stream_uint :: "nat \<Rightarrow> Stream \<Rightarrow> u64 result" where
  "Stream_uint maxbits s =
     (case Stream_Kind s of
        ((k, n, Some e), s1) \<Rightarrow> (Inl e, s1)
      | ((ByteK, n, None), s1) \<Rightarrow>
          if byteval s1 = 0 then (Inl ErrCanonInt, s1) else (Inr (ucast (byteval s1)), s1\<lparr>kind := None\<rparr>)
      | ((StringK, n, None), s1) \<Rightarrow>
          if n > of_nat (maxbits div 8) then (Inl ErrUintOverflow, s1)
          else (case readUint (ucast n) s1 of
                  (Inl e, s2) \<Rightarrow> (Inl (if e = ErrCanonSize then ErrCanonInt else e), s2)
                | (Inr v, s2) \<Rightarrow> if n > 0 \<and> v < 128 then (Inl ErrCanonSize, s2) else (Inr v, s2))
      | ((ListK, n, None), s1) \<Rightarrow> (Inl ErrExpectedString, s1))"

definition Stream_Uint :: "Stream \<Rightarrow> u64 result" where
  "Stream_Uint s = Stream_uint 64 s"

definition Stream_Bool :: "Stream \<Rightarrow> bool result" where
  "Stream_Bool s =
     (case Stream_uint 8 s of (Inl e, s1) \<Rightarrow> (Inl e, s1)
      | (Inr num, s1) \<Rightarrow>
          if num = 0 then (Inr False, s1) else if num = 1 then (Inr True, s1) else (Inl (InvalidBool num), s1))"

definition Stream_List :: "Stream \<Rightarrow> u64 result" where
  "Stream_List s =
     (case Stream_Kind s of
        ((k, n, Some e), s1) \<Rightarrow> (Inl e, s1)
      | ((k, n, None), s1) \<Rightarrow>
          if k \<noteq> ListK then (Inl ErrExpectedList, s1)
          else (Inr n, s1\<lparr>stack := (0, n) # stack s1, kind := None, vsize := 0\<rparr>))"

definition ListEnd :: "Stream \<Rightarrow> rlp_err option \<times> Stream" where
  "ListEnd s =
     (case stack s of [] \<Rightarrow> (Some ErrNotInList, s)
      | (pos, sz) # st \<Rightarrow>
          if pos \<noteq> sz then (Some ErrNotAtEOL, s)
          else (None, s\<lparr>stack := (case st of [] \<Rightarrow> [] | (p, z) # st' \<Rightarrow> (p + sz, z) # st'),
                         kind := None, vsize := 0\<rparr>))"

end
