(* ===== verification/Rlp_Encode.thy ===== *)
theory Rlp_Encode
  imports Rlp_Raw
begin

text \<open>
  \<^verbatim>\<open>rlp/encode.go\<close> and the type tables of \<^verbatim>\<open>rlp/typecache.go\<close>. Go types and values reach the
  package through reflection; here they are the datatypes \<open>rtype\<close> and \<open>rval\<close>. Types with an
  \<^verbatim>\<open>EncodeRLP\<close> or \<^verbatim>\<open>DecodeRLP\<close> method of their own, maps and recursive types are left out.

  The buffer of the encoder holds the string data and, apart from it, the headers of the lists
  with the place they belong to, since the size of a list is known only at its end.
\<close>

section \<open>Types and values\<close>

datatype rtype = TRaw | TUint nat | TBool | TString | TBytes | TByteArray nat | TBigIntPtr | TBigInt
  | TIface | TSlice rtype | TArray nat rtype | TStruct "(rtype \<times> string) list" | TPtr rtype | TOther

datatype rval = VRaw bytes | VUint u64 | VBool bool | VString bytes | VBytes bytes
  | VBigPtr "int option" | VBig int | VList "rval list" | VStruct "rval list" | VPtr "rval option"
  | VIface "(rtype \<times> rval) option"

record tags =
  nilOK :: bool
  tail :: bool

definition no_tags :: tags where
  "no_tags = \<lparr> nilOK = False, tail = False \<rparr>"

section \<open>Struct tags\<close>

text \<open>\<^verbatim>\<open>strings.Split(s, sep)\<close> for a separator of one byte, and \<^verbatim>\<open>strings.TrimSpace\<close>.\<close>

fun split_at :: "char \<Rightarrow> string \<Rightarrow> string list" where
  "split_at sep [] = [[]]"
| "split_at sep (c # s) =
     (case split_at sep s of [] \<Rightarrow> [[c]]
      | w # ws \<Rightarrow> if c = sep then [] # w # ws else (c # w) # ws)"

definition is_space :: "char \<Rightarrow> bool" where
  "is_space c \<longleftrightarrow> c \<in> {CHR 0x20, CHR 0x09, CHR 0x0A, CHR 0x0B, CHR 0x0C, CHR 0x0D}"

definition trim_space :: "string \<Rightarrow> string" where
  "trim_space s = rev (dropWhile is_space (rev (dropWhile is_space s)))"

fun is_slice :: "rtype \<Rightarrow> bool" where
  "is_slice TBytes = True"
| "is_slice TRaw = True"
| "is_slice (TSlice t) = True"
| "is_slice t = False"

fun apply_tags :: "rtype \<Rightarrow> bool \<Rightarrow> tags \<Rightarrow> string list \<Rightarrow> tags option" where
  "apply_tags t fin ts [] = Some ts"
| "apply_tags t fin ts (x # xs) =
     (if trim_space x = '''' then apply_tags t fin ts xs
      else if trim_space x = ''nil'' then apply_tags t fin (ts\<lparr>nilOK := True\<rparr>) xs
      else if trim_space x = ''tail''
      then if \<not> fin then None else if \<not> is_slice t then None
           else apply_tags t fin (ts\<lparr>tail := True\<rparr>) xs
      else None)"

text \<open>
  \<^verbatim>\<open>parseStructTag\<close> for a field of type \<open>t\<close>; \<open>fin\<close> says whether it is the last field.
\<close>

definition parseStructTag :: "rtype \<Rightarrow> bool \<Rightarrow> string \<Rightarrow> tags option" where
  "parseStructTag t fin s = apply_tags t fin no_tags (split_at CHR '','' s)"

text \<open>
  \<^verbatim>\<open>structFields\<close>: the types of the exported fields with their tags; \<open>None\<close> is a bad tag.
\<close>

fun structFields :: "(rtype \<times> string) list \<Rightarrow> (rtype \<times> tags) list option" where
  "structFields [] = Some []"
| "structFields ((t, s) # fs) =
     (case parseStructTag t (fs = []) s of None \<Rightarrow> None
      | Some ts \<Rightarrow> (case structFields fs of None \<Rightarrow> None | Some gs \<Rightarrow> Some ((t, ts) # gs)))"

text \<open>
  Whether \<^verbatim>\<open>genTypeInfo\<close> finds a writer and a decoder for the type, and for every type in it.
\<close>

fun genTypeInfo :: "rtype \<Rightarrow> bool" where
  "genTypeInfo (TSlice t) = genTypeInfo t"
| "genTypeInfo (TArray n t) = genTypeInfo t"
| "genTypeInfo (TPtr t) = genTypeInfo t"
| "genTypeInfo (TStruct fs) = (structFields fs \<noteq> None \<and> list_all (\<lambda>f. genTypeInfo (fst f)) fs)"
| "genTypeInfo TOther = False"
| "genTypeInfo t = True"

section \<open>The buffer\<close>

record listhead =
  offset :: nat
  lsize :: nat

record encbuf =
  str :: bytes
  lheads :: "listhead list"
  lhsize :: nat

definition listhead_encode :: "listhead \<Rightarrow> bytes" where
  "listhead_encode head = puthead 0xC0 0xF7 (word_of_nat (lsize head))"

definition encbuf_reset :: "encbuf \<Rightarrow> encbuf" where
  "encbuf_reset w = w\<lparr>lhsize := 0, str := [], lheads := []\<rparr>"

definition encbuf_Write :: "bytes \<Rightarrow> encbuf \<Rightarrow> encbuf" where
  "encbuf_Write b w = w\<lparr>str := str w @ b\<rparr>"

definition encodeStringHeader :: "nat \<Rightarrow> encbuf \<Rightarrow> encbuf" where
  "encodeStringHeader n w =
     (if n < 56 then w\<lparr>str := str w @ [0x80 + word_of_nat n]\<rparr>
      else let b = putint (word_of_nat n)
           in w\<lparr>str := str w @ ((0xB7 + word_of_nat (length b)) # b)\<rparr>)"

definition encodeString :: "bytes \<Rightarrow> encbuf \<Rightarrow> encbuf" where
  "encodeString b w =
     (if length b = 1 \<and> b ! 0 \<le> 0x7F then w\<lparr>str := str w @ [b ! 0]\<rparr>
      else let w1 = encodeStringHeader (length b) w in w1\<lparr>str := str w1 @ b\<rparr>)"

definition encbuf_size :: "encbuf \<Rightarrow> nat" where
  "encbuf_size w = length (str w) + lhsize w"

text \<open>\<^verbatim>\<open>list\<close> returns a pointer to the new header, here its index.\<close>

definition encbuf_list :: "encbuf \<Rightarrow> encbuf \<times> nat" where
  "encbuf_list w =
     (w\<lparr>lheads := lheads w @ [\<lparr> offset = length (str w), lsize = lhsize w \<rparr>]\<rparr>, length (lheads w))"

definition listEnd :: "nat \<Rightarrow> encbuf \<Rightarrow> encbuf" where
  "listEnd i w =
     (let lh = lheads w ! i;
          n = encbuf_size w - offset lh - lsize lh
      in w\<lparr>lheads := (lheads w)[i := lh\<lparr>lsize := n\<rparr>],
            lhsize := lhsize w + (if n < 56 then 1 else 1 + intsize (word_of_nat n))\<rparr>)"

text \<open>The loop over the headers in \<^verbatim>\<open>toBytes\<close>.\<close>

fun toBytes_loop :: "bytes \<Rightarrow> nat \<Rightarrow> listhead list \<Rightarrow> bytes" where
  "toBytes_loop s strpos [] = drop strpos s"
| "toBytes_loop s strpos (head # hs) =
     (let piece = take (offset head - strpos) (drop strpos s)
      in piece @ listhead_encode head @ toBytes_loop s (strpos + length piece) hs)"

definition toBytes :: "encbuf \<Rightarrow> bytes" where
  "toBytes w = toBytes_loop (str w) 0 (lheads w)"

text \<open>
  \<^verbatim>\<open>toWriter\<close>: the calls of \<^verbatim>\<open>Write\<close> on the outside writer, which takes every piece.
\<close>

fun toWriter_loop :: "bytes \<Rightarrow> nat \<Rightarrow> listhead list \<Rightarrow> bytes list" where
  "toWriter_loop s strpos [] = (if strpos < length s then [drop strpos s] else [])"
| "toWriter_loop s strpos (head # hs) =
     (let piece = take (offset head - strpos) (drop strpos s);
          before = (if offset head > strpos then [piece] else []);
          strpos' = (if offset head > strpos then strpos + length piece else strpos)
      in before @ [listhead_encode head] @ toWriter_loop s strpos' hs)"

definition toWriter :: "encbuf \<Rightarrow> bytes list" where
  "toWriter w = toWriter_loop (str w) 0 (lheads w)"

section \<open>Writers\<close>

definition writeUint :: "u64 \<Rightarrow> encbuf \<Rightarrow> encbuf" where
  "writeUint i w =
     (if i = 0 then w\<lparr>str := str w @ [0x80]\<rparr>
      else if i < 128 then w\<lparr>str := str w @ [ucast i]\<rparr>
      else let b = putint i in w\<lparr>str := str w @ ((0x80 + word_of_nat (length b)) # b)\<rparr>)"

definition writeBool :: "bool \<Rightarrow> encbuf \<Rightarrow> encbuf" where
  "writeBool x w = (if x then w\<lparr>str := str w @ [0x01]\<rparr> else w\<lparr>str := str w @ [0x80]\<rparr>)"

definition writeBigInt :: "int \<Rightarrow> encbuf \<Rightarrow> rlp_err + encbuf" where
  "writeBigInt i w =
     (if i < 0 then Inl NegativeBigInt
      else if i = 0 then Inr (w\<lparr>str := str w @ [0x80]\<rparr>)
      else Inr (encodeString (be_bytes (nat i)) w))"

definition writeBigIntPtr :: "int option \<Rightarrow> encbuf \<Rightarrow> rlp_err + encbuf" where
  "writeBigIntPtr p w =
     (case p of None \<Rightarrow> Inr (w\<lparr>str := str w @ [0x80]\<rparr>) | Some i \<Rightarrow> writeBigInt i w)"

definition writeString :: "bytes \<Rightarrow> encbuf \<Rightarrow> encbuf" where
  "writeString s w =
     (if length s = 1 \<and> s ! 0 \<le> 0x7F then w\<lparr>str := str w @ [s ! 0]\<rparr>
      else let w1 = encodeStringHeader (length s) w in w1\<lparr>str := str w1 @ s\<rparr>)"

text \<open>The zero value of a type (\<^verbatim>\<open>reflect.Zero\<close>).\<close>

fun zero_val :: "rtype \<Rightarrow> rval" where
  "zero_val TRaw = VRaw []"
| "zero_val (TUint n) = VUint 0"
| "zero_val TBool = VBool False"
| "zero_val TString = VString []"
| "zero_val TBytes = VBytes []"
| "zero_val (TByteArray n) = VBytes (replicate n 0)"
| "zero_val TBigIntPtr = VBigPtr None"
| "zero_val TBigInt = VBig 0"
| "zero_val TIface = VIface None"
| "zero_val (TSlice t) = VList []"
| "zero_val (TArray n t) = VList (replicate n (zero_val t))"
| "zero_val (TStruct fs) = VStruct (map (\<lambda>f. zero_val (fst f)) fs)"
| "zero_val (TPtr t) = VPtr None"
| "zero_val TOther = VPtr None"

text \<open>
  The writer of a type as \<^verbatim>\<open>makeWriter\<close> chooses it. A value that is not of the type does not
  occur; the writer refuses it.
\<close>

function writer :: "rtype \<Rightarrow> tags \<Rightarrow> rval \<Rightarrow> encbuf \<Rightarrow> rlp_err + encbuf"
  and write_elems :: "rtype \<Rightarrow> rval list \<Rightarrow> encbuf \<Rightarrow> rlp_err + encbuf"
  and write_fields :: "(rtype \<times> tags) list \<Rightarrow> rval list \<Rightarrow> encbuf \<Rightarrow> rlp_err + encbuf"
where
  "writer t ts v w =
     (case (t, v) of
        (TRaw, VRaw b) \<Rightarrow> Inr (w\<lparr>str := str w @ b\<rparr>)
      | (TIface, VIface p) \<Rightarrow>
          (case p of None \<Rightarrow> Inr (w\<lparr>str := str w @ [0xC0]\<rparr>)
           | Some (u, x) \<Rightarrow> if genTypeInfo u then writer u no_tags x w else Inl NotSerializable)
      | (TBigIntPtr, VBigPtr p) \<Rightarrow> writeBigIntPtr p w
      | (TBigInt, VBig i) \<Rightarrow> writeBigInt i w
      | (TUint n, VUint i) \<Rightarrow> Inr (writeUint i w)
      | (TBool, VBool x) \<Rightarrow> Inr (writeBool x w)
      | (TString, VString s) \<Rightarrow> Inr (writeString s w)
      | (TBytes, VBytes b) \<Rightarrow> Inr (encodeString b w)
      | (TByteArray n, VBytes b) \<Rightarrow> Inr (encodeString b w)
      | (TSlice u, VList vs) \<Rightarrow>
          if tail ts then write_elems u vs w
          else (case encbuf_list w of (w1, lh) \<Rightarrow>
            (case write_elems u vs w1 of Inl e \<Rightarrow> Inl e | Inr w2 \<Rightarrow> Inr (listEnd lh w2)))
      | (TArray n u, VList vs) \<Rightarrow>
          if tail ts then write_elems u vs w
          else (case encbuf_list w of (w1, lh) \<Rightarrow>
            (case write_elems u vs w1 of Inl e \<Rightarrow> Inl e | Inr w2 \<Rightarrow> Inr (listEnd lh w2)))
      | (TStruct fs, VStruct vs) \<Rightarrow>
          (case structFields fs of None \<Rightarrow> Inl NotSerializable
           | Some gs \<Rightarrow>
               (case encbuf_list w of (w1, lh) \<Rightarrow>
                 (case write_fields gs vs w1 of Inl e \<Rightarrow> Inl e | Inr w2 \<Rightarrow> Inr (listEnd lh w2))))
      | (TPtr u, VPtr p) \<Rightarrow>
          (case p of
             Some x \<Rightarrow> writer u no_tags x w
           | None \<Rightarrow>
               (case u of
                  TByteArray n \<Rightarrow> Inr (w\<lparr>str := str w @ [0x80]\<rparr>)
                | TStruct fs \<Rightarrow> (case encbuf_list w of (w1, lh) \<Rightarrow> Inr (listEnd lh w1))
                | TArray n u' \<Rightarrow> (case encbuf_list w of (w1, lh) \<Rightarrow> Inr (listEnd lh w1))
                | _ \<Rightarrow> writer u no_tags (zero_val u) w))
      | _ \<Rightarrow> Inl NotSerializable)"
| "write_elems t vs w =
     (case vs of [] \<Rightarrow> Inr w
      | v # vs' \<Rightarrow> (case writer t no_tags v w of Inl e \<Rightarrow> Inl e | Inr w1 \<Rightarrow> write_elems t vs' w1))"
| "write_fields fs vs w =
     (case (fs, vs) of
        ((t, ts) # fs', v # vs') \<Rightarrow>
          (case writer t ts v w of Inl e \<Rightarrow> Inl e | Inr w1 \<Rightarrow> write_fields fs' vs' w1)
      | _ \<Rightarrow> Inr w)"
  by pat_completeness auto
termination
  by (relation "measures [\<lambda>x. case x of Inl (t, ts, v, w) \<Rightarrow> 2 * size v
        | Inr (Inl (t, vs, w)) \<Rightarrow> 2 * size_list size vs + 1 | Inr (Inr (fs, vs, w)) \<Rightarrow> 2 * size_list size vs + 1,
      \<lambda>x. case x of Inl (t, ts, v, w) \<Rightarrow> size t | _ \<Rightarrow> 0]") auto

section \<open>Entry points\<close>

definition empty_encbuf :: encbuf where
  "empty_encbuf = \<lparr> str = [], lheads = [], lhsize = 0 \<rparr>"

definition encbuf_encode :: "rtype \<Rightarrow> rval \<Rightarrow> encbuf \<Rightarrow> rlp_err + encbuf" where
  "encbuf_encode t v w = (if genTypeInfo t then writer t no_tags v w else Inl NotSerializable)"

text \<open>
  A buffer comes from the pool in whatever state it was put back and is reset first. \<open>eb\<close> is
  that buffer.
\<close>

definition EncodeToBytes :: "encbuf \<Rightarrow> rtype \<Rightarrow> rval \<Rightarrow> rlp_err + bytes" where
  "EncodeToBytes eb t v =
     (case encbuf_encode t v (encbuf_reset eb) of Inl e \<Rightarrow> Inl e | Inr w \<Rightarrow> Inr (toBytes w))"

text \<open>\<^verbatim>\<open>Encode\<close> on a writer of its own: the pieces it is given one after the other.\<close>

definition Encode :: "encbuf \<Rightarrow> rtype \<Rightarrow> rval \<Rightarrow> rlp_err + bytes list" where
  "Encode eb t v =
     (case encbuf_encode t v (encbuf_reset eb) of Inl e \<Rightarrow> Inl e | Inr w \<Rightarrow> Inr (toWriter w))"

record encReader =
  buf :: "encbuf option"
  lhpos :: nat
  strpos :: nat
  piece :: "bytes option"

definition EncodeToReader :: "encbuf \<Rightarrow> rtype \<Rightarrow> rval \<Rightarrow> rlp_err + (nat \<times> encReader)" where
  "EncodeToReader eb t v =
     (case encbuf_encode t v (encbuf_reset eb) of Inl e \<Rightarrow> Inl e
      | Inr w \<Rightarrow> Inr (encbuf_size w, \<lparr> buf = Some w, lhpos = 0, strpos = 0, piece = None \<rparr>))"

definition encReader_next :: "encReader \<Rightarrow> bytes option \<times> encReader" where
  "encReader_next r =
     (case buf r of None \<Rightarrow> (None, r)
      | Some w \<Rightarrow>
          if piece r \<noteq> None then (piece r, r)
          else if lhpos r < length (lheads w)
          then let head = lheads w ! lhpos r in
               if offset head > strpos r
               then (Some (take (offset head - strpos r) (drop (strpos r) (str w))), r\<lparr>strpos := offset head\<rparr>)
               else (Some (listhead_encode head), r\<lparr>lhpos := lhpos r + 1\<rparr>)
          else if strpos r < length (str w)
          then (Some (drop (strpos r) (str w)), r\<lparr>strpos := length (str w)\<rparr>)
          else (None, r))"

text \<open>The pieces still to come, as a measure for the loop of \<^verbatim>\<open>Read\<close>.\<close>

definition pieces_left :: "encReader \<Rightarrow> nat" where
  "pieces_left r =
     (case buf r of None \<Rightarrow> 0
      | Some w \<Rightarrow> (if piece r = None then 0 else 1) + 3 * (length (lheads w) - lhpos r)
          + (if lhpos r < length (lheads w) \<and> strpos r < offset (lheads w ! lhpos r) then 1 else 0)
          + (if strpos r < length (str w) then 1 else 0))"

lemma encReader_next_less:
  "encReader_next r = (Some p, r') \<Longrightarrow> pieces_left (r'\<lparr>piece := None\<rparr>) < pieces_left r"
  by (auto simp: encReader_next_def pieces_left_def Let_def split: option.splits if_splits)

text \<open>
  \<^verbatim>\<open>Read\<close> into a slice with room for \<open>room\<close> more bytes: the bytes copied, whether \<^verbatim>\<open>io.EOF\<close> is
  returned, and the reader.
\<close>

function encReader_Read :: "nat \<Rightarrow> encReader \<Rightarrow> bytes \<times> bool \<times> encReader" where
  "encReader_Read room r =
     (case encReader_next r of
        (None, r1) \<Rightarrow> ([], True, r1\<lparr>buf := None, piece := None\<rparr>)
      | (Some p, r1) \<Rightarrow>
          if room < length p
          then (take room p, False, r1\<lparr>piece := Some (drop room p)\<rparr>)
          else (case encReader_Read (room - length p) (r1\<lparr>piece := None\<rparr>) of
                  (b, eof, r2) \<Rightarrow> (p @ b, eof, r2)))"
  by pat_completeness auto
termination
  by (relation "measure (\<lambda>(room, r). pieces_left r)") (auto intro: encReader_next_less sym)

declare encReader_Read.simps [simp del]

end
