(* ===== verification/Rlp_Decode.thy ===== *)
theory Rlp_Decode
  imports Rlp_Stream Rlp_Encode
begin

text \<open>
  The decoders of \<^verbatim>\<open>rlp/decode.go\<close>. A decoder takes the value its target holds before and
  returns the value afterwards; what a failed decoder leaves in its target is not modelled. The
  path that error messages carry along is left out.
\<close>

section \<open>Errors with a type\<close>

definition wrapStreamError :: "rlp_err \<Rightarrow> rlp_err" where
  "wrapStreamError e =
     (case e of
        ErrCanonInt \<Rightarrow> DecodeError ''non-canonical integer (leading zero bytes)''
      | ErrCanonSize \<Rightarrow> DecodeError ''non-canonical size information''
      | ErrExpectedList \<Rightarrow> DecodeError ''expected input list''
      | ErrExpectedString \<Rightarrow> DecodeError ''expected input string or byte''
      | ErrUintOverflow \<Rightarrow> DecodeError ''input string too long''
      | ErrNotAtEOL \<Rightarrow> DecodeError ''input list has too many elements''
      | e' \<Rightarrow> e')"

definition wrapped :: "('a \<Rightarrow> rval) \<Rightarrow> 'a result \<Rightarrow> rval result" where
  "wrapped f x = (case x of (Inl e, s) \<Rightarrow> (Inl (wrapStreamError e), s) | (Inr a, s) \<Rightarrow> (Inr (f a), s))"

section \<open>Decoders of strings and numbers\<close>

definition decodeRawValue :: "Stream \<Rightarrow> rval result" where
  "decodeRawValue s =
     (case Stream_Raw s of (Inl e, s1) \<Rightarrow> (Inl e, s1) | (Inr b, s1) \<Rightarrow> (Inr (VRaw b), s1))"

definition decodeUint :: "nat \<Rightarrow> Stream \<Rightarrow> rval result" where
  "decodeUint bits s = wrapped VUint (Stream_uint bits s)"

definition decodeBool :: "Stream \<Rightarrow> rval result" where
  "decodeBool s = wrapped VBool (Stream_Bool s)"

definition decodeString :: "Stream \<Rightarrow> rval result" where
  "decodeString s = wrapped VString (Stream_Bytes s)"

definition decodeByteSlice :: "Stream \<Rightarrow> rval result" where
  "decodeByteSlice s = wrapped VBytes (Stream_Bytes s)"

definition decodeBigInt :: "Stream \<Rightarrow> int result" where
  "decodeBigInt s =
     (case Stream_Bytes s of (Inl e, s1) \<Rightarrow> (Inl (wrapStreamError e), s1)
      | (Inr b, s1) \<Rightarrow>
          if length b > 0 \<and> b ! 0 = 0 then (Inl (wrapStreamError ErrCanonInt), s1)
          else (Inr (int (be_val b)), s1))"

text \<open>
  A single byte for an array of length one is taken with \<^verbatim>\<open>s.Uint()\<close>, whose error is dropped.
\<close>

definition decodeByteArray :: "nat \<Rightarrow> Stream \<Rightarrow> rval result" where
  "decodeByteArray vlen s =
     (case Stream_Kind s of
        ((k, n, Some e), s1) \<Rightarrow> (Inl e, s1)
      | ((ByteK, n, None), s1) \<Rightarrow>
          if vlen = 0 then (Inl (DecodeError ''input string too long''), s1)
          else if vlen > 1 then (Inl (DecodeError ''input string too short''), s1)
          else (case Stream_Uint s1 of
                  (Inl e, s2) \<Rightarrow> (Inr (VBytes [0]), s2)
                | (Inr bv, s2) \<Rightarrow> (Inr (VBytes [ucast bv]), s2))
      | ((StringK, n, None), s1) \<Rightarrow>
          if of_nat vlen < n then (Inl (DecodeError ''input string too long''), s1)
          else if of_nat vlen > n then (Inl (DecodeError ''input string too short''), s1)
          else (case readFull vlen s1 of (Inl e, s2) \<Rightarrow> (Inl e, s2)
                | (Inr b, s2) \<Rightarrow>
                    if n = 1 \<and> b ! 0 < 128 then (Inl (wrapStreamError ErrCanonSize), s2)
                    else (Inr (VBytes b), s2))
      | ((ListK, n, None), s1) \<Rightarrow> (Inl (wrapStreamError ErrExpectedString), s1))"

section \<open>Lists\<close>

text \<open>
  The loop of \<^verbatim>\<open>decodeSliceElems\<close>. The elements the slice has before are decoded into; the ones
  after them start as the zero value \<open>z\<close>. \<open>fuel\<close> bounds the number of elements: each one takes at
  least one byte off the input, or the kind that was read ahead.
\<close>

fun slice_loop :: "nat \<Rightarrow> (rval \<Rightarrow> Stream \<Rightarrow> rval result) \<Rightarrow> rval \<Rightarrow> rval list \<Rightarrow> Stream \<Rightarrow> rval list result" where
  "slice_loop 0 elemdec z old s = (Inl OutOfFuel, s)"
| "slice_loop (Suc fuel) elemdec z old s =
     (case elemdec (case old of [] \<Rightarrow> z | v # _ \<Rightarrow> v) s of
        (Inl e, s1) \<Rightarrow> if e = EOL then (Inr [], s1) else (Inl e, s1)
      | (Inr v, s1) \<Rightarrow>
          (case slice_loop fuel elemdec z (tl old) s1 of (Inl e, s2) \<Rightarrow> (Inl e, s2)
           | (Inr vs, s2) \<Rightarrow> (Inr (v # vs), s2)))"

definition slice_fuel :: "Stream \<Rightarrow> nat" where
  "slice_fuel s = length (input s) + 2"

definition decodeSliceElems ::
  "(rval \<Rightarrow> Stream \<Rightarrow> rval result) \<Rightarrow> rval \<Rightarrow> rval list \<Rightarrow> Stream \<Rightarrow> rval list result" where
  "decodeSliceElems elemdec z old s = slice_loop (slice_fuel s) elemdec z old s"

definition decodeListSlice ::
  "(rval \<Rightarrow> Stream \<Rightarrow> rval result) \<Rightarrow> rval \<Rightarrow> rval list \<Rightarrow> Stream \<Rightarrow> rval list result" where
  "decodeListSlice elemdec z old s =
     (case Stream_List s of (Inl e, s1) \<Rightarrow> (Inl (wrapStreamError e), s1)
      | (Inr n, s1) \<Rightarrow>
          if n = 0
          then (case ListEnd s1 of (Some e, s2) \<Rightarrow> (Inl e, s2) | (None, s2) \<Rightarrow> (Inr [], s2))
          else (case decodeSliceElems elemdec z old s1 of (Inl e, s2) \<Rightarrow> (Inl e, s2)
                | (Inr vs, s2) \<Rightarrow>
                    (case ListEnd s2 of (Some e, s3) \<Rightarrow> (Inl e, s3) | (None, s3) \<Rightarrow> (Inr vs, s3))))"

fun array_loop :: "(rval \<Rightarrow> Stream \<Rightarrow> rval result) \<Rightarrow> rval list \<Rightarrow> Stream \<Rightarrow> rval list result" where
  "array_loop elemdec [] s = (Inr [], s)"
| "array_loop elemdec (v # old) s =
     (case elemdec v s of
        (Inl e, s1) \<Rightarrow> (Inl (if e = EOL then DecodeError ''input list has too few elements'' else e), s1)
      | (Inr x, s1) \<Rightarrow>
          (case array_loop elemdec old s1 of (Inl e, s2) \<Rightarrow> (Inl e, s2) | (Inr xs, s2) \<Rightarrow> (Inr (x # xs), s2)))"

definition decodeListArray :: "(rval \<Rightarrow> Stream \<Rightarrow> rval result) \<Rightarrow> rval list \<Rightarrow> Stream \<Rightarrow> rval list result" where
  "decodeListArray elemdec old s =
     (case Stream_List s of (Inl e, s1) \<Rightarrow> (Inl (wrapStreamError e), s1)
      | (Inr n, s1) \<Rightarrow>
          (case array_loop elemdec old s1 of (Inl e, s2) \<Rightarrow> (Inl e, s2)
           | (Inr vs, s2) \<Rightarrow>
               (case ListEnd s2 of (Some e, s3) \<Rightarrow> (Inl (wrapStreamError e), s3) | (None, s3) \<Rightarrow> (Inr vs, s3))))"

section \<open>Interfaces\<close>

text \<open>
  \<^verbatim>\<open>decodeInterface\<close> into an empty interface; \<open>fuel\<close> bounds the depth of nested lists.
\<close>

fun decodeInterface :: "nat \<Rightarrow> Stream \<Rightarrow> rval result" where
  "decodeInterface 0 s = (Inl OutOfFuel, s)"
| "decodeInterface (Suc fuel) s =
     (case Stream_Kind s of
        ((k, n, Some e), s1) \<Rightarrow> (Inl e, s1)
      | ((k, n, None), s1) \<Rightarrow>
          if k = ListK
          then (case decodeListSlice (\<lambda>_. decodeInterface fuel) (VIface None) [] s1 of
                  (Inl e, s2) \<Rightarrow> (Inl e, s2)
                | (Inr vs, s2) \<Rightarrow> (Inr (VIface (Some (TSlice TIface, VList vs))), s2))
          else (case Stream_Bytes s1 of (Inl e, s2) \<Rightarrow> (Inl e, s2)
                | (Inr b, s2) \<Rightarrow> (Inr (VIface (Some (TBytes, VBytes b))), s2)))"

section \<open>The decoder of a type\<close>

text \<open>The elements and fields a value has, and the target of a pointer.\<close>

definition elems_of :: "rval \<Rightarrow> rval list" where
  "elems_of v = (case v of VList vs \<Rightarrow> vs | _ \<Rightarrow> [])"

definition fields_of :: "rval \<Rightarrow> rval list" where
  "fields_of v = (case v of VStruct vs \<Rightarrow> vs | _ \<Rightarrow> [])"

definition target_of :: "rtype \<Rightarrow> rval \<Rightarrow> rval" where
  "target_of t v = (case v of VPtr (Some x) \<Rightarrow> x | _ \<Rightarrow> zero_val t)"

text \<open>
  The loop over the fields of a struct; a decoder for each field comes with the list.
\<close>

fun struct_loop :: "(rval \<Rightarrow> Stream \<Rightarrow> rval result) list \<Rightarrow> rval list \<Rightarrow> Stream \<Rightarrow> rval list result" where
  "struct_loop (d # ds) (v # old) s =
     (case d v s of
        (Inl e, s1) \<Rightarrow> (Inl (if e = EOL then DecodeError ''too few elements'' else e), s1)
      | (Inr x, s1) \<Rightarrow>
          (case struct_loop ds old s1 of (Inl e, s2) \<Rightarrow> (Inl e, s2) | (Inr xs, s2) \<Rightarrow> (Inr (x # xs), s2)))"
| "struct_loop ds old s = (Inr [], s)"

definition decodeStruct :: "(rval \<Rightarrow> Stream \<Rightarrow> rval result) list \<Rightarrow> rval list \<Rightarrow> Stream \<Rightarrow> rval result" where
  "decodeStruct ds old s =
     (case Stream_List s of (Inl e, s1) \<Rightarrow> (Inl (wrapStreamError e), s1)
      | (Inr n, s1) \<Rightarrow>
          (case struct_loop ds old s1 of (Inl e, s2) \<Rightarrow> (Inl e, s2)
           | (Inr vs, s2) \<Rightarrow>
               (case ListEnd s2 of (Some e, s3) \<Rightarrow> (Inl (wrapStreamError e), s3)
                | (None, s3) \<Rightarrow> (Inr (VStruct vs), s3))))"

definition to_list :: "rval list result \<Rightarrow> rval result" where
  "to_list x = (case x of (Inl e, s) \<Rightarrow> (Inl e, s) | (Inr vs, s) \<Rightarrow> (Inr (VList vs), s))"

text \<open>
  \<^verbatim>\<open>makePtrDecoder\<close> and, for fields with the tag \<^verbatim>\<open>nil\<close>, \<^verbatim>\<open>makeOptionalPtrDecoder\<close>.
\<close>

definition decodePtr :: "(rval \<Rightarrow> Stream \<Rightarrow> rval result) \<Rightarrow> rval \<Rightarrow> Stream \<Rightarrow> rval result" where
  "decodePtr d x s = (case d x s of (Inl e, s1) \<Rightarrow> (Inl e, s1) | (Inr y, s1) \<Rightarrow> (Inr (VPtr (Some y)), s1))"

definition decodeOptionalPtr :: "(rval \<Rightarrow> Stream \<Rightarrow> rval result) \<Rightarrow> rval \<Rightarrow> Stream \<Rightarrow> rval result" where
  "decodeOptionalPtr d x s =
     (case Stream_Kind s of
        ((k, n, Some e), s1) \<Rightarrow> (Inl e, s1\<lparr>kind := None\<rparr>)
      | ((k, n, None), s1) \<Rightarrow>
          if n = 0 \<and> k \<noteq> ByteK then (Inr (VPtr None), s1\<lparr>kind := None\<rparr>) else decodePtr d x s1)"

function decoder :: "rtype \<Rightarrow> tags \<Rightarrow> rval \<Rightarrow> Stream \<Rightarrow> rval result" where
  "decoder TRaw ts v = decodeRawValue"
| "decoder TBigIntPtr ts v =
     (\<lambda>s. case decodeBigInt s of (Inl e, s1) \<Rightarrow> (Inl e, s1) | (Inr i, s1) \<Rightarrow> (Inr (VBigPtr (Some i)), s1))"
| "decoder TBigInt ts v =
     (\<lambda>s. case decodeBigInt s of (Inl e, s1) \<Rightarrow> (Inl e, s1) | (Inr i, s1) \<Rightarrow> (Inr (VBig i), s1))"
| "decoder (TUint n) ts v = decodeUint n"
| "decoder TBool ts v = decodeBool"
| "decoder TString ts v = decodeString"
| "decoder TBytes ts v = decodeByteSlice"
| "decoder (TByteArray n) ts v = decodeByteArray n"
| "decoder (TSlice t) ts v =
     (\<lambda>s. to_list ((if tail ts then decodeSliceElems else decodeListSlice)
                     (decoder t no_tags) (zero_val t) (elems_of v) s))"
| "decoder (TArray n t) ts v = (\<lambda>s. to_list (decodeListArray (decoder t no_tags) (elems_of v) s))"
| "decoder (TStruct fs) ts v =
     (case structFields fs of None \<Rightarrow> (\<lambda>s. (Inl NotSerializable, s))
      | Some gs \<Rightarrow>
          decodeStruct (map2 (\<lambda>f g. decoder (fst f) (snd g)) fs gs) (fields_of v))"
| "decoder (TPtr t) ts v =
     (if nilOK ts then decodeOptionalPtr else decodePtr) (decoder t no_tags) (target_of t v)"
| "decoder TIface ts v = (\<lambda>s. decodeInterface (slice_fuel s) s)"
| "decoder TOther ts v = (\<lambda>s. (Inl NotSerializable, s))"
  by pat_completeness auto
termination
  by (relation "measure (\<lambda>(t, ts, v). size t)")
    (auto dest!: set_zip_leftD intro!: less_SucI size_list_estimation)

section \<open>Entry points\<close>

definition Stream_Decode :: "rtype \<Rightarrow> rval \<Rightarrow> Stream \<Rightarrow> rval result" where
  "Stream_Decode t v s = (if genTypeInfo t then decoder t no_tags v s else (Inl NotSerializable, s))"

definition Decode :: "bytes \<Rightarrow> bool \<Rightarrow> rtype \<Rightarrow> rval \<Rightarrow> rlp_err + rval" where
  "Decode rd sized t v = fst (Stream_Decode t v (NewStream rd sized 0))"

definition DecodeBytes :: "bytes \<Rightarrow> rtype \<Rightarrow> rval \<Rightarrow> rlp_err + rval" where
  "DecodeBytes b t v =
     (case Stream_Decode t v (NewStream b True (of_nat (length b))) of
        (Inl e, s) \<Rightarrow> Inl e
      | (Inr x, s) \<Rightarrow> if length (input s) > 0 then Inl ErrMoreThanOneValue else Inr x)"

end
