(* ===== verification/Rlp_Buffer.thy ===== *)
theory Rlp_Buffer
  imports Rlp_Encode
begin

text \<open>
  The buffer of the encoder produces the documented encoding. The reference \<open>rlp_of\<close> puts every
  list header in front of its payload at once; the buffer keeps the headers aside and fills their
  sizes in later. A stretch of work on the buffer is described by the bytes it stands for, and
  stretches compose.
\<close>

section \<open>The reference\<close>

function rlp_of :: "rtype \<Rightarrow> tags \<Rightarrow> rval \<Rightarrow> rlp_err + bytes"
  and rlp_elems :: "rtype \<Rightarrow> rval list \<Rightarrow> rlp_err + bytes"
  and rlp_fields :: "(rtype \<times> tags) list \<Rightarrow> rval list \<Rightarrow> rlp_err + bytes"
where
  "rlp_of t ts v =
     (case (t, v) of
        (TRaw, VRaw b) \<Rightarrow> Inr b
      | (TIface, VIface p) \<Rightarrow>
          (case p of None \<Rightarrow> Inr (rlp_list [])
           | Some (u, x) \<Rightarrow> if genTypeInfo u then rlp_of u no_tags x else Inl NotSerializable)
      | (TBigIntPtr, VBigPtr p) \<Rightarrow>
          (case p of None \<Rightarrow> Inr (rlp_string [])
           | Some i \<Rightarrow> if i < 0 then Inl NegativeBigInt else Inr (rlp_string (be_bytes (nat i))))
      | (TBigInt, VBig i) \<Rightarrow> if i < 0 then Inl NegativeBigInt else Inr (rlp_string (be_bytes (nat i)))
      | (TUint n, VUint i) \<Rightarrow> Inr (rlp_string (be_bytes (unat i)))
      | (TBool, VBool x) \<Rightarrow> Inr (rlp_string (if x then [1] else []))
      | (TString, VString s) \<Rightarrow> Inr (rlp_string s)
      | (TBytes, VBytes b) \<Rightarrow> Inr (rlp_string b)
      | (TByteArray n, VBytes b) \<Rightarrow> Inr (rlp_string b)
      | (TSlice u, VList vs) \<Rightarrow> map_sum id (if tail ts then id else rlp_list) (rlp_elems u vs)
      | (TArray n u, VList vs) \<Rightarrow> map_sum id (if tail ts then id else rlp_list) (rlp_elems u vs)
      | (TStruct fs, VStruct vs) \<Rightarrow>
          (case structFields fs of None \<Rightarrow> Inl NotSerializable
           | Some gs \<Rightarrow> map_sum id rlp_list (rlp_fields gs vs))
      | (TPtr u, VPtr p) \<Rightarrow>
          (case p of
             Some x \<Rightarrow> rlp_of u no_tags x
           | None \<Rightarrow>
               (case u of
                  TByteArray n \<Rightarrow> Inr (rlp_string [])
                | TStruct fs \<Rightarrow> Inr (rlp_list [])
                | TArray n u' \<Rightarrow> Inr (rlp_list [])
                | _ \<Rightarrow> rlp_of u no_tags (zero_val u)))
      | _ \<Rightarrow> Inl NotSerializable)"
| "rlp_elems t vs =
     (case vs of [] \<Rightarrow> Inr []
      | v # vs' \<Rightarrow>
          (case rlp_of t no_tags v of Inl e \<Rightarrow> Inl e
           | Inr b \<Rightarrow> map_sum id ((@) b) (rlp_elems t vs')))"
| "rlp_fields fs vs =
     (case (fs, vs) of
        ((t, ts) # fs', v # vs') \<Rightarrow>
          (case rlp_of t ts v of Inl e \<Rightarrow> Inl e
           | Inr b \<Rightarrow> map_sum id ((@) b) (rlp_fields fs' vs'))
      | _ \<Rightarrow> Inr [])"
  by pat_completeness auto
termination
  by (relation "measures [\<lambda>x. case x of Inl (t, ts, v) \<Rightarrow> 2 * size v
        | Inr (Inl (t, vs)) \<Rightarrow> 2 * size_list size vs + 1 | Inr (Inr (fs, vs)) \<Rightarrow> 2 * size_list size vs + 1,
      \<lambda>x. case x of Inl (t, ts, v) \<Rightarrow> size t | _ \<Rightarrow> 0]") auto

declare rlp_of.simps [simp del] rlp_elems.simps [simp del] rlp_fields.simps [simp del]
  writer.simps [simp del] write_elems.simps [simp del] write_fields.simps [simp del]

section \<open>Stretches of the buffer\<close>

text \<open>Headers relative to the start of a stretch, and the sizes they take.\<close>

definition shift :: "nat \<Rightarrow> listhead \<Rightarrow> listhead" where
  "shift n h = h\<lparr>offset := n + offset h\<rparr>"

definition heads_size :: "listhead list \<Rightarrow> nat" where
  "heads_size hs = (\<Sum>h \<leftarrow> hs. length (listhead_encode h))"

fun heads_ok :: "nat \<Rightarrow> nat \<Rightarrow> listhead list \<Rightarrow> bool" where
  "heads_ok pos n [] = (pos \<le> n)"
| "heads_ok pos n (h # hs) = (pos \<le> offset h \<and> offset h \<le> n \<and> heads_ok (offset h) n hs)"

definition appends :: "encbuf \<Rightarrow> encbuf \<Rightarrow> bytes \<Rightarrow> bool" where
  "appends w w' b \<longleftrightarrow> (\<exists>s hs. str w' = str w @ s \<and> lheads w' = lheads w @ map (shift (length (str w))) hs
     \<and> lhsize w' = lhsize w + heads_size hs \<and> heads_ok 0 (length s) hs \<and> toBytes_loop s 0 hs = b)"

lemma heads_okD: "heads_ok pos n hs \<Longrightarrow> pos \<le> n"
  by (induction hs arbitrary: pos) auto

lemma heads_size_Nil [simp]: "heads_size [] = 0"
  by (simp add: heads_size_def)

lemma heads_size_Cons [simp]: "heads_size (h # hs) = length (listhead_encode h) + heads_size hs"
  by (simp add: heads_size_def)

lemma heads_size_append [simp]: "heads_size (hs @ hs') = heads_size hs + heads_size hs'"
  by (simp add: heads_size_def)

lemma shift_simps [simp]:
  "listhead_encode (shift n h) = listhead_encode h" "offset (shift n h) = n + offset h"
  "lsize (shift n h) = lsize h"
  by (simp_all add: shift_def listhead_encode_def)

lemma heads_size_shift [simp]: "heads_size (map (shift n) hs) = heads_size hs"
  by (induction hs) auto

lemma length_toBytes_loop:
  "heads_ok pos (length s) hs \<Longrightarrow> length (toBytes_loop s pos hs) = length s - pos + heads_size hs"
  by (induction hs arbitrary: pos) (auto simp: Let_def dest: heads_okD)

lemma heads_ok_shift: "heads_ok pos n hs \<Longrightarrow> heads_ok (m + pos) (m + n) (map (shift m) hs)"
  by (induction hs arbitrary: pos) auto

lemma heads_ok_append:
  "heads_ok pos n hs \<Longrightarrow> heads_ok n m hs' \<Longrightarrow> n \<le> m \<Longrightarrow> heads_ok pos m (hs @ hs')"
  by (induction hs arbitrary: pos) (auto, (cases hs'; auto)+)

lemma toBytes_loop_shift:
  "heads_ok pos (length s) hs \<Longrightarrow> length p = m \<Longrightarrow>
   toBytes_loop (p @ s) (m + pos) (map (shift m) hs) = toBytes_loop s pos hs"
  by (induction hs arbitrary: pos) (auto simp: Let_def dest: heads_okD)

lemma toBytes_loop_append:
  assumes "heads_ok pos (length s) hs" "heads_ok 0 (length s') hs'"
  shows "toBytes_loop (s @ s') pos (hs @ map (shift (length s)) hs') =
     toBytes_loop s pos hs @ toBytes_loop s' 0 hs'"
  using assms
proof (induction hs arbitrary: pos)
  case Nil
  show ?case
  proof (cases hs')
    case (Cons h t)
    then have "take (length s + offset h - pos) (drop pos s @ s') = drop pos s @ take (offset h) s'"
      using Nil by simp
    moreover have "toBytes_loop (s @ s') (length s + offset h) (map (shift (length s)) t)
        = toBytes_loop s' (offset h) t"
      using Nil.prems Cons by (intro toBytes_loop_shift) auto
    ultimately show ?thesis using Nil.prems
      by (auto simp: Cons Let_def)
  qed (use Nil in simp)
next
  case (Cons h hs)
  then show ?case by (auto simp: Let_def dest: heads_okD)
qed

lemma appends_refl [simp]: "appends w w []"
  unfolding appends_def by (intro exI [of _ "[]"]) simp

lemma appends_str: "appends w (w\<lparr>str := str w @ b\<rparr>) b"
  unfolding appends_def by (intro exI [of _ b] exI [of _ "[]"]) simp

lemma appends_trans:
  assumes "appends w w1 b" "appends w1 w2 c"
  shows "appends w w2 (b @ c)"
proof -
  obtain s hs where 1: "str w1 = str w @ s" "lheads w1 = lheads w @ map (shift (length (str w))) hs"
    "lhsize w1 = lhsize w + heads_size hs" "heads_ok 0 (length s) hs" "toBytes_loop s 0 hs = b"
    using assms(1) by (auto simp: appends_def)
  obtain s' hs' where 2: "str w2 = str w1 @ s'" "lheads w2 = lheads w1 @ map (shift (length (str w1))) hs'"
    "lhsize w2 = lhsize w1 + heads_size hs'" "heads_ok 0 (length s') hs'" "toBytes_loop s' 0 hs' = c"
    using assms(2) by (auto simp: appends_def)
  have sh: "map (shift (length (str w) + length s)) hs' =
      map (shift (length (str w))) (map (shift (length s)) hs')"
    by (simp add: shift_def)
  have "heads_ok 0 (length s + length s') (hs @ map (shift (length s)) hs')"
    using 1(4) heads_ok_shift [OF 2(4), of "length s"] by (intro heads_ok_append) auto
  then show ?thesis
    unfolding appends_def using 1 2 toBytes_loop_append [OF 1(4) 2(4)]
    by (intro exI [of _ "s @ s'"] exI [of _ "hs @ map (shift (length s)) hs'"]) (simp add: sh)
qed

lemma appends_length: "appends w w' b \<Longrightarrow> encbuf_size w' = encbuf_size w + length b"
  by (auto simp: appends_def encbuf_size_def length_toBytes_loop)

text \<open>
  A list: the header is opened, the payload written, and the size filled in at the end.
\<close>

lemma appends_list:
  assumes l: "encbuf_list w = (w1, i)" and a: "appends w1 w2 b" and f: "fits b"
  shows "appends w (listEnd i w2) (rlp_list b)"
proof -
  obtain s hs where s: "str w2 = str w1 @ s" "lheads w2 = lheads w1 @ map (shift (length (str w1))) hs"
    "lhsize w2 = lhsize w1 + heads_size hs" "heads_ok 0 (length s) hs" "toBytes_loop s 0 hs = b"
    using a by (auto simp: appends_def)
  have w1: "w1 = w\<lparr>lheads := lheads w @ [\<lparr> offset = length (str w), lsize = lhsize w \<rparr>]\<rparr>" "i = length (lheads w)"
    using l by (simp_all add: encbuf_list_def)
  let ?h = "\<lparr> offset = length (str w), lsize = length b \<rparr> :: listhead"
  have lh: "lheads w2 ! i = \<lparr> offset = length (str w), lsize = lhsize w \<rparr>"
    by (simp add: s w1)
  have n: "encbuf_size w2 = length (str w) + lhsize w + length b"
    using appends_length [OF a] by (simp add: encbuf_size_def w1)
  have e: "listEnd i w2 = w2\<lparr>lheads := lheads w @ ?h # map (shift (length (str w))) hs,
      lhsize := lhsize w2 + length (listhead_encode ?h)\<rparr>"
    using f by (simp add: listEnd_def lh n s w1 Let_def listhead_encode_def headsize_def word_length_less)
  show ?thesis unfolding appends_def e
    using s by (intro exI [of _ s] exI [of _ "\<lparr> offset = 0, lsize = length b \<rparr> # hs"])
      (auto simp: w1 shift_def listhead_encode_def rlp_list_def)
qed

lemma appends_string: "fits b \<Longrightarrow> appends w (encodeString b w) (rlp_string b)"
proof -
  assume f: "fits b"
  have "encodeString b w = w\<lparr>str := str w @ rlp_string b\<rparr>"
  proof (cases "single_byte b")
    case True
    then obtain x where "b = [x]" "x < 0x80" by (auto simp: single_byte_def length_Suc_conv)
    then show ?thesis using True by (simp add: encodeString_def rlp_string_def word_less_nat_alt word_le_nat_alt)
  next
    case False
    then have "\<not> (length b = 1 \<and> b ! 0 \<le> 0x7F)"
      by (cases b) (auto simp: single_byte_def word_less_nat_alt word_le_nat_alt)
    then show ?thesis using False f
      by (auto simp: encodeString_def rlp_string_def encodeStringHeader_def puthead_def Let_def
          word_length_less ucast_sum)
  qed
  then show ?thesis using appends_str by simp
qed

lemma writeString_encode: "writeString b w = encodeString b w"
  by (simp add: writeString_def encodeString_def)

lemma rlp_string_Nil [simp]: "rlp_string [] = [0x80]"
  by (simp add: rlp_string_def single_byte_def puthead_def)

lemma rlp_list_Nil [simp]: "rlp_list [] = [0xC0]"
  by (simp add: rlp_list_def puthead_def)

lemma appends_uint: "appends w (writeUint i w) (rlp_string (be_bytes (unat i)))"
proof -
  have "writeUint i w = w\<lparr>str := str w @ rlp_string (be_bytes (unat i))\<rparr>"
  proof (cases "i < 128")
    case True
    then have u: "unat i < 128" by (simp add: word_less_nat_alt)
    show ?thesis
    proof (cases "i = 0")
      case False
      then have "be_bytes (unat i) = [ucast i]"
        using putint_be_bytes [of i] u by (simp add: putint_def word_less_nat_alt split: if_splits)
      moreover have "(ucast i :: u8) < 0x80"
        using u by (simp add: word_less_nat_alt unsigned_ucast_eq take_bit_nat_eq_self)
      ultimately show ?thesis using True False by (simp add: writeUint_def rlp_string_def single_byte_def)
    qed (simp add: writeUint_def)
  next
    case False
    then have nz: "i \<noteq> 0" and u: "128 \<le> unat i" by (auto simp: word_less_nat_alt)
    have p: "putint i = be_bytes (unat i)" using nz by (simp add: putint_be_bytes)
    have "\<not> single_byte (be_bytes (unat i))"
    proof
      assume "single_byte (be_bytes (unat i))"
      then obtain x where "be_bytes (unat i) = [x]" "x < 0x80" by (auto simp: single_byte_def length_Suc_conv)
      then have "unat i < 128" using be_val_be_bytes [of "unat i"] by (simp add: be_val_def word_less_nat_alt)
      with u show False by simp
    qed
    moreover have "length (be_bytes (unat i)) \<le> 8" using length_putint [of i] p by simp
    ultimately show ?thesis using nz False
      by (simp add: writeUint_def rlp_string_def p Let_def puthead_def word_less_nat_alt unsigned_of_nat
          take_bit_nat_eq_self)
  qed
  then show ?thesis using appends_str by simp
qed

section \<open>The writers write the reference encoding\<close>

definition agrees :: "(rlp_err + encbuf) \<Rightarrow> encbuf \<Rightarrow> (rlp_err + bytes) \<Rightarrow> bool" where
  "agrees r w q = (case q of Inl e \<Rightarrow> r = Inl e
                   | Inr b \<Rightarrow> \<exists>w'. r = Inr w' \<and> (fits b \<longrightarrow> appends w w' b))"

lemma agrees_Inl [simp]: "agrees r w (Inl e) \<longleftrightarrow> r = Inl e"
  by (simp add: agrees_def)

lemma agrees_Inr: "(fits b \<Longrightarrow> appends w w' b) \<Longrightarrow> agrees (Inr w') w (Inr b)"
  by (simp add: agrees_def)

lemma agrees_list:
  assumes "\<And>w1 i. (w1, i) = encbuf_list w \<Longrightarrow> agrees (k w1) w1 q"
  shows "agrees (case encbuf_list w of (w1, i) \<Rightarrow> case k w1 of Inl e \<Rightarrow> Inl e | Inr w2 \<Rightarrow> Inr (listEnd i w2))
     w (map_sum id rlp_list q)"
  using assms [of "fst (encbuf_list w)" "snd (encbuf_list w)"] appends_list [of w "fst (encbuf_list w)" "snd (encbuf_list w)"]
  by (auto simp: agrees_def case_prod_beta rlp_list_def split: sum.splits)

lemma agrees_seq:
  assumes "agrees r w q" and "\<And>w1. r = Inr w1 \<Longrightarrow> agrees (k w1) w1 q'"
  shows "agrees (case r of Inl e \<Rightarrow> Inl e | Inr w1 \<Rightarrow> k w1) w
     (case q of Inl e \<Rightarrow> Inl e | Inr b \<Rightarrow> map_sum id ((@) b) q')"
  using assms by (cases q; cases q') (auto simp: agrees_def, meson appends_trans)

lemma fits_string: "fits (rlp_string b) \<Longrightarrow> fits b"
  by (simp add: rlp_string_def split: if_splits)

lemma agrees_bigint:
  "agrees (writeBigInt i w) w (if i < 0 then Inl NegativeBigInt else Inr (rlp_string (be_bytes (nat i))))"
  using appends_str [of w "[0x80]"] appends_string [OF fits_string]
  by (auto simp: writeBigInt_def intro!: agrees_Inr)

lemma agrees_string: "agrees (Inr (encodeString b w)) w (Inr (rlp_string b))"
  by (rule agrees_Inr) (rule appends_string [OF fits_string])

lemma agrees_nil_list: "agrees (case encbuf_list w of (w1, lh) \<Rightarrow> Inr (listEnd lh w1)) w (Inr [0xC0])"
  using agrees_list [of w Inr "Inr []"] by (simp add: agrees_def)

lemma agrees_raw: "agrees (Inr (w\<lparr>str := str w @ b\<rparr>)) w (Inr b)"
  by (rule agrees_Inr) (rule appends_str)

lemma agrees_uint: "agrees (Inr (writeUint i w)) w (Inr (rlp_string (be_bytes (unat i))))"
  by (rule agrees_Inr) (rule appends_uint)

lemma agrees_bool:
  "agrees (Inr (writeBool True w)) w (Inr (rlp_string [1]))" "agrees (Inr (writeBool False w)) w (Inr [0x80])"
  by (simp_all add: writeBool_def agrees_raw rlp_string_def single_byte_def)

lemma agrees_bigptr:
  "agrees (writeBigIntPtr p w) w
     (case p of None \<Rightarrow> Inr (rlp_string [])
      | Some i \<Rightarrow> if i < 0 then Inl NegativeBigInt else Inr (rlp_string (be_bytes (nat i))))"
  by (simp add: writeBigIntPtr_def agrees_raw agrees_bigint [simplified] split: option.split)

lemma writer_agrees:
  "agrees (writer t ts v w) w (rlp_of t ts v)"
  "agrees (write_elems t vs w) w (rlp_elems t vs)"
  "agrees (write_fields fs vs w) w (rlp_fields fs vs)"
proof (induction t ts v w and t vs w and fs vs w rule: writer_write_elems_write_fields.induct)
  case (1 t ts v w)
  show ?case unfolding writer.simps [of t ts v w] rlp_of.simps [of t ts v]
    using 1
    apply (cases t; cases v)
      apply (simp_all add: agrees_string writeString_encode agrees_raw agrees_uint agrees_bool agrees_bigptr)
    subgoal for i using agrees_bigint [of i w] by (simp split: if_splits)
    subgoal for p by (cases p) (auto simp: agrees_raw)
    subgoal for u vs by (auto simp: sum.map_id intro!: agrees_list)
    subgoal for n u vs by (auto simp: sum.map_id intro!: agrees_list)
    subgoal for fs vs by (cases "structFields fs") (auto intro!: agrees_list)
    subgoal for u p by (cases p; cases u) (simp_all add: agrees_raw agrees_nil_list)
    done
next
  case (2 t vs w)
  then show ?case unfolding write_elems.simps [of t vs] rlp_elems.simps [of t vs]
    by (cases vs) (auto simp: agrees_Inr intro!: agrees_seq)
next
  case (3 fs vs w)
  then show ?case unfolding write_fields.simps [of fs vs] rlp_fields.simps [of fs vs]
    by (auto simp: agrees_Inr intro!: agrees_seq split: list.split)
qed

section \<open>The entry points\<close>

lemma appends_toBytes:
  assumes "appends (encbuf_reset eb) w b"
  shows "toBytes w = b" "heads_ok 0 (length (str w)) (lheads w)" "encbuf_size w = length b"
proof -
  obtain s hs where s: "str w = s" "lheads w = map (shift 0) hs" "heads_ok 0 (length s) hs" "toBytes_loop s 0 hs = b"
    using assms by (auto simp: appends_def encbuf_reset_def)
  have "shift 0 h = h" for h by (cases h) (simp add: shift_def)
  then have "map (shift 0) hs = hs" by (simp add: map_idI)
  then show "toBytes w = b" "heads_ok 0 (length (str w)) (lheads w)" using s by (simp_all add: toBytes_def)
  show "encbuf_size w = length b"
    using appends_length [OF assms] by (simp add: encbuf_size_def encbuf_reset_def)
qed

lemma encbuf_encode_agrees:
  "agrees (encbuf_encode t v w) w (if genTypeInfo t then rlp_of t no_tags v else Inl NotSerializable)"
  using writer_agrees(1) by (simp add: encbuf_encode_def)

lemma EncodeToBytes_reference:
  assumes "\<And>b. rlp_of t no_tags v = Inr b \<Longrightarrow> fits b"
  shows "EncodeToBytes eb t v = (if genTypeInfo t then rlp_of t no_tags v else Inl NotSerializable)"
  using assms encbuf_encode_agrees [of t v "encbuf_reset eb"] appends_toBytes(1) [of eb]
  by (cases "rlp_of t no_tags v") (auto simp: EncodeToBytes_def agrees_def split: if_splits)

lemma toWriter_toBytes: "heads_ok pos (length s) hs \<Longrightarrow> concat (toWriter_loop s pos hs) = toBytes_loop s pos hs"
  by (induction hs arbitrary: pos) (auto simp: Let_def dest: heads_okD)

text \<open>The bytes a reader has still to deliver.\<close>

definition to_read :: "encReader \<Rightarrow> bytes" where
  "to_read r =
     (case buf r of None \<Rightarrow> []
      | Some w \<Rightarrow> (case piece r of None \<Rightarrow> [] | Some p \<Rightarrow> p)
          @ toBytes_loop (str w) (strpos r) (drop (lhpos r) (lheads w)))"

definition reader_ok :: "encReader \<Rightarrow> bool" where
  "reader_ok r =
     (case buf r of None \<Rightarrow> True
      | Some w \<Rightarrow> piece r \<noteq> Some [] \<and> heads_ok (strpos r) (length (str w)) (drop (lhpos r) (lheads w)))"

lemma encReader_next_None: "reader_ok r \<Longrightarrow> encReader_next r = (None, r1) \<Longrightarrow> to_read r = [] \<and> r1 = r"
  by (auto simp: encReader_next_def to_read_def reader_ok_def Let_def split: option.splits if_splits)

lemma encReader_next_Some:
  assumes "reader_ok r" "encReader_next r = (Some p, r1)"
  shows "to_read r = p @ to_read (r1\<lparr>piece := None\<rparr>)" "p \<noteq> []" "reader_ok (r1\<lparr>piece := None\<rparr>)"
    "buf r1 = buf r" "buf r \<noteq> None"
proof -
  obtain w where w: "buf r = Some w" using assms(2) by (cases "buf r") (auto simp: encReader_next_def)
  note e = assms(2) [unfolded encReader_next_def w, simplified]
  show "buf r1 = buf r" "buf r \<noteq> None" using e w by (auto simp: Let_def split: if_splits)
  have n: "listhead_encode h \<noteq> []" for h by (simp add: listhead_encode_def)
  have "to_read r = p @ to_read (r1\<lparr>piece := None\<rparr>) \<and> p \<noteq> [] \<and> reader_ok (r1\<lparr>piece := None\<rparr>)"
  proof (cases "piece r = None \<and> lhpos r < length (lheads w)")
    case True
    then have d: "drop (lhpos r) (lheads w) = lheads w ! lhpos r # drop (Suc (lhpos r)) (lheads w)"
      by (simp add: Cons_nth_drop_Suc)
    show ?thesis using e assms(1) True w n
      by (auto simp: to_read_def reader_ok_def d Let_def split: if_splits)
  next
    case False
    then show ?thesis using e assms(1) w by (auto simp: to_read_def reader_ok_def split: if_splits)
  qed
  then show "to_read r = p @ to_read (r1\<lparr>piece := None\<rparr>)" "p \<noteq> []" "reader_ok (r1\<lparr>piece := None\<rparr>)" by auto
qed

lemma encReader_Read_spec:
  assumes "reader_ok r" "encReader_Read room r = (b, eof, r')"
  shows "b = take room (to_read r) \<and> (eof \<longleftrightarrow> length (to_read r) \<le> room)
     \<and> to_read r' = drop room (to_read r) \<and> reader_ok r'"
  using assms
proof (induction room r arbitrary: b eof r' rule: encReader_Read.induct)
  case (1 room r)
  show ?case
  proof (cases "encReader_next r")
    case (Pair q r1)
    show ?thesis
    proof (cases q)
      case None
      then show ?thesis using encReader_next_None [OF "1.prems"(1)] "1.prems"(2) Pair
        by (auto simp: encReader_Read.simps [of room r] to_read_def reader_ok_def)
    next
      case (Some p)
      note n = encReader_next_Some [OF "1.prems"(1), of p r1]
      show ?thesis
      proof (cases "room < length p")
        case True
        then show ?thesis using n Pair Some "1.prems"(2)
          by (auto simp: encReader_Read.simps [of room r] to_read_def reader_ok_def split: option.splits)
      next
        case False
        obtain b2 e2 r2 where r2: "encReader_Read (room - length p) (r1\<lparr>piece := None\<rparr>) = (b2, e2, r2)"
          by (cases "encReader_Read (room - length p) (r1\<lparr>piece := None\<rparr>)")
        then have "b = p @ b2" "eof = e2" "r' = r2"
          using "1.prems"(2) Pair Some False by (auto simp: encReader_Read.simps [of room r])
        moreover have "b2 = take (room - length p) (to_read (r1\<lparr>piece := None\<rparr>))
            \<and> (e2 \<longleftrightarrow> length (to_read (r1\<lparr>piece := None\<rparr>)) \<le> room - length p)
            \<and> to_read r2 = drop (room - length p) (to_read (r1\<lparr>piece := None\<rparr>)) \<and> reader_ok r2"
          using "1.IH" [OF Pair [symmetric] Some False _ r2] n Pair Some by simp
        ultimately show ?thesis using n Pair Some False by auto
      qed
    qed
  qed
qed

end
