(* ===== verification/Rlp_Reads.thy ===== *)
theory Rlp_Reads
  imports Rlp_Decode Rlp_Buffer
begin

text \<open>
  What the operations of a stream do on well-formed input. A stream with room for \<open>n\<close> more bytes
  reads them and moves on; the fields that only cache the last kind do not matter then.
\<close>

section \<open>Moving on\<close>

definition core :: "Stream \<Rightarrow> bytes \<times> u64 \<times> bool \<times> Kind option \<times> (u64 \<times> u64) list" where
  "core s = (input s, remaining s, limited s, kind s, stack s)"

definition adv :: "nat \<Rightarrow> Stream \<Rightarrow> Stream" where
  "adv n s = s\<lparr>kind := None, input := drop n (input s),
     remaining := (if limited s then remaining s - of_nat n else remaining s),
     stack := (case stack s of [] \<Rightarrow> [] | (p, z) # st \<Rightarrow> (p + of_nat n, z) # st)\<rparr>"

definition room :: "Stream \<Rightarrow> nat \<Rightarrow> bool" where
  "room s n \<longleftrightarrow> n < 2 ^ 64 \<and> (limited s \<longrightarrow> n \<le> unat (remaining s))
     \<and> (case stack s of [] \<Rightarrow> True | (p, z) # st \<Rightarrow> unat p + n \<le> unat z)"

lemma core_eq:
  "core s = core s' \<longleftrightarrow> input s = input s' \<and> remaining s = remaining s' \<and> limited s = limited s'
     \<and> kind s = kind s' \<and> stack s = stack s'"
  by (simp add: core_def)

lemma core_adv: "core s = core s' \<Longrightarrow> core (adv n s) = core (adv n s')"
  by (simp add: core_eq adv_def)

lemma core_room: "core s = core s' \<Longrightarrow> room s n \<longleftrightarrow> room s' n"
  by (simp add: core_eq room_def)

lemma adv_simps [simp]:
  "kind (adv n s) = None" "input (adv n s) = drop n (input s)" "limited (adv n s) = limited s"
  "byteval (adv n s) = byteval s" "vsize (adv n s) = vsize s" "kinderr (adv n s) = kinderr s"
  by (simp_all add: adv_def)

lemma adv_kind [simp]: "adv n (s\<lparr>kind := k\<rparr>) = adv n s"
  by (simp add: adv_def)

lemma adv_adv: "adv m (adv n s) = adv (n + m) s"
  by (simp add: adv_def add.commute split: list.split)

lemma adv_0 [simp]: "kind s = None \<Longrightarrow> adv 0 s = s"
  by (simp add: adv_def split: list.split)

lemma unat_small: "n < 2 ^ 64 \<Longrightarrow> unat (of_nat n :: u64) = n"
  by (simp add: unsigned_of_nat take_bit_nat_eq_self)

lemma room_le: "room s n \<Longrightarrow> m \<le> n \<Longrightarrow> room s m"
  by (auto simp: room_def split: list.splits)

lemma room_adv: "room s (n + m) \<Longrightarrow> room (adv n s) m"
  by (auto simp: room_def adv_def unat_small unat_sub word_le_nat_alt unat_word_ariths split: list.splits)

lemma room_update [simp]:
  "room (s\<lparr>kind := k\<rparr>) n = room s n" "room (s\<lparr>vsize := v\<rparr>) n = room s n"
  "room (s\<lparr>byteval := b\<rparr>) n = room s n" "room (s\<lparr>kinderr := e\<rparr>) n = room s n"
  "room (s\<lparr>input := i\<rparr>) n = room s n"
  by (simp_all add: room_def)

section \<open>Reading bytes\<close>

lemma willRead_room: "room s n \<Longrightarrow> willRead (of_nat n) s = (None, (adv n s)\<lparr>input := input s\<rparr>)"
  by (auto simp: willRead_def room_def adv_def unat_small unat_sub word_le_nat_alt word_less_nat_alt Let_def
      split: list.splits)

lemma readByte_room: "room s 1 \<Longrightarrow> input s = b # rd \<Longrightarrow> readByte s = (Inr b, adv 1 s)"
  using willRead_room [of s 1] by (simp add: readByte_def)

lemma readFull_room:
  "room s n \<Longrightarrow> input s = b @ rd \<Longrightarrow> length b = n \<Longrightarrow> readFull n s = (Inr b, adv n s)"
  using willRead_room [of s n] by (simp add: readFull_def)

lemma readUint_room:
  assumes r: "room s (length (putint v))" and i: "input s = putint v @ rd" and v: "v \<noteq> 0"
  shows "readUint (of_nat (length (putint v))) s = (Inr v, adv (length (putint v)) s)"
proof (cases "length (putint v) = 1")
  case True
  then obtain b where b: "putint v = [b]" by (auto simp: length_Suc_conv)
  then have "unat b = unat v" using be_val_putint [of v] by (simp add: be_val_def)
  then have "ucast b = v"
    using unat_u64_less [of v] by (simp add: word_unat_eq_iff unsigned_ucast_eq take_bit_nat_eq_self)
  then show ?thesis using readByte_room [of s b rd] r i b by (simp add: readUint_def)
next
  case False
  let ?l = "length (putint v)"
  have l: "?l \<noteq> 0" "?l \<le> 8" using length_putint [of v] by auto
  have w: "(of_nat ?l :: u8) \<noteq> 0" "(of_nat ?l :: u8) \<noteq> 1" "unat (of_nat ?l :: u8) = ?l"
    using l False by (auto simp: word_unat_eq_iff unsigned_of_nat take_bit_nat_eq_self)
  have "putint v ! 0 \<noteq> 0"
    using hd_be_bytes [of "unat v"] v by (simp add: putint_be_bytes hd_conv_nth unat_gt_0 unat_eq_zero)
  then show ?thesis using readFull_room [OF r i] w by (simp add: readUint_def)
qed

section \<open>Kinds\<close>

text \<open>The stream after it has read the head of a value of kind \<open>k\<close> and size \<open>n\<close>.\<close>

definition ahead :: "Kind \<Rightarrow> u64 \<Rightarrow> u8 \<Rightarrow> nat \<Rightarrow> Stream \<Rightarrow> Stream" where
  "ahead k n bv h s = (adv h s)\<lparr>byteval := bv, kind := Some k, vsize := n, kinderr := None\<rparr>"

lemma ahead_simps [simp]:
  "kind (ahead k n bv h s) = Some k" "vsize (ahead k n bv h s) = n" "kinderr (ahead k n bv h s) = None"
  "byteval (ahead k n bv h s) = bv" "input (ahead k n bv h s) = drop h (input s)"
  "stack (ahead k n bv h s) = stack (adv h s)" "limited (ahead k n bv h s) = limited s"
  "remaining (ahead k n bv h s) = remaining (adv h s)"
  by (simp_all add: ahead_def)

lemma Stream_Kind_ahead [simp]: "Stream_Kind (ahead k n bv h s) = ((k, n, None), ahead k n bv h s)"
  by (simp add: Stream_Kind_def)

lemma room_ahead [simp]: "room (ahead k n bv h s) m = room (adv h s) m"
  by (simp add: ahead_def)

lemma core_adv_ahead: "core (adv m (ahead k n bv h s)) = core (adv (h + m) s)"
  by (simp add: core_eq adv_def ahead_def split: list.split) (auto simp: algebra_simps)

definition at_end :: "Stream \<Rightarrow> bool" where
  "at_end s \<longleftrightarrow> (case stack s of [] \<Rightarrow> False | (p, z) # st \<Rightarrow> p = z)"

lemma room_not_at_end: "room s n \<Longrightarrow> 0 < n \<Longrightarrow> \<not> at_end s"
  by (auto simp: room_def at_end_def split: list.splits)

text \<open>A stream that can read the head and still has room for the value accepts it.\<close>

lemma Stream_Kind_readKind:
  assumes k: "kind s = None" and r: "room s (h + unat n)" "0 < h"
    and rk: "Stream_readKind (s\<lparr>kinderr := None\<rparr>) = ((k, n, None), (adv h s)\<lparr>kinderr := None, byteval := bv\<rparr>)"
  shows "Stream_Kind s = ((k, n, None), ahead k n bv h s)"
proof -
  have e: "\<not> at_end s" using r by (intro room_not_at_end [of s "h + unat n"]) auto
  have "room (adv h s) (unat n)" by (rule room_adv [OF r(1)])
  then have "(case stack (adv h s) of [] \<Rightarrow> if limited s \<and> n > remaining (adv h s) then Some ErrValueTooLarge else None
      | (pos, sz) # st \<Rightarrow> if n > sz - pos then Some ErrElemTooLarge else None) = None"
    by (auto simp: room_def word_less_nat_alt unat_sub word_le_nat_alt split: list.splits)
  then show ?thesis using k e rk
    by (cases "stack (adv h s)")
      (auto simp: Stream_Kind_def at_end_def Let_def ahead_def split: if_splits)
qed

lemma Stream_Kind_byte:
  assumes "kind s = None" "room s 1" "input s = b # rd" "b < 0x80"
  shows "Stream_Kind s = ((ByteK, 0, None), ahead ByteK 0 b 1 s)"
proof -
  have "readByte (s\<lparr>kinderr := None\<rparr>) = (Inr b, (adv 1 s)\<lparr>kinderr := None\<rparr>)"
    using readByte_room [of "s\<lparr>kinderr := None\<rparr>" b rd] assms by (simp add: adv_def)
  then show ?thesis using assms by (intro Stream_Kind_readKind) (simp_all add: Stream_readKind_def Let_def)
qed

text \<open>
  The head of a string or list: \<open>k\<close> is its kind, \<open>st\<close> and \<open>lt\<close> are its tags.
\<close>

lemma Stream_Kind_head:
  assumes s: "kind s = None" "room s (headsize n + unat n)" "input s = puthead st lt n @ rd"
    and k: "k = StringK \<and> st = 0x80 \<and> lt = 0xB7 \<or> k = ListK \<and> st = 0xC0 \<and> lt = 0xF7"
  shows "Stream_Kind s = ((k, n, None), ahead k n 0 (headsize n) s)"
proof -
  let ?s = "s\<lparr>kinderr := None\<rparr>"
  have h: "0 < headsize n" by (simp add: headsize_def)
  have r1: "room ?s (headsize n)" using s(2) room_le by fastforce
  have "Stream_readKind ?s = ((k, n, None), (adv (headsize n) s)\<lparr>kinderr := None, byteval := 0\<rparr>)"
  proof (cases "n < 56")
    case True
    then have n: "unat n < 56" by (simp add: word_less_nat_alt)
    let ?b = "st + ucast n"
    have i: "input ?s = ?b # rd" and h1: "headsize n = 1" using True s(3) by (simp_all add: puthead_def headsize_def)
    have u: "unat (0x80 + ucast n :: u8) = 128 + unat n" "unat (0xC0 + ucast n :: u8) = 192 + unat n"
      "(ucast (ucast n :: u8) :: u64) = n"
      using n by (simp_all add: unat_word_ariths word_unat_eq_iff unsigned_ucast_eq unsigned_take_bit_eq take_bit_nat_eq_self)
    have "\<not> ?b < 0x80 \<and> ucast (?b - st) = n \<and> (k = StringK \<longrightarrow> ?b < 0xB8)
        \<and> (k = ListK \<longrightarrow> \<not> ?b < 0xB8 \<and> \<not> ?b < 0xC0 \<and> ?b < 0xF8)"
      using k u n by (auto simp: word_less_nat_alt)
    moreover have "readByte ?s = (Inr ?b, adv 1 ?s)" by (rule readByte_room) (use r1 i h1 in auto)
    ultimately show ?thesis using k by (auto simp: Stream_readKind_def Let_def h1 adv_def)
  next
    case False
    let ?l = "length (putint n)"
    let ?b = "lt + word_of_nat ?l"
    have hl: "headsize n = 1 + ?l" using False by (simp add: headsize_def intsize_putint)
    have i: "input ?s = ?b # putint n @ rd" using s(3) long_head(1) [OF False] by simp
    have b: "\<not> ?b < 0x80 \<and> \<not> ?b < 0xB8 \<and> ?b - lt = word_of_nat ?l \<and> (k = StringK \<longrightarrow> ?b < 0xC0)
        \<and> (k = ListK \<longrightarrow> \<not> ?b < 0xC0 \<and> \<not> ?b < 0xF8)"
      using k length_putint [of n] large_tag [of ?l] by (auto simp: word_less_nat_alt)
    have rb: "readByte ?s = (Inr ?b, adv 1 ?s)"
      by (rule readByte_room) (use r1 i hl room_le [of ?s "1 + ?l" 1] in auto)
    have "room (adv 1 ?s) ?l" using r1 hl by (intro room_adv) simp
    then have ru: "readUint (word_of_nat ?l) ((adv 1 ?s)\<lparr>byteval := 0\<rparr>) =
        (Inr n, adv ?l ((adv 1 ?s)\<lparr>byteval := 0\<rparr>))"
      using i False by (intro readUint_room [where rd = rd]) (auto simp: word_less_nat_alt)
    have "adv ?l ((adv 1 ?s)\<lparr>byteval := 0\<rparr>) = (adv (headsize n) s)\<lparr>kinderr := None, byteval := 0\<rparr>"
      by (simp add: hl adv_def add.assoc split: list.split)
    then show ?thesis using k b rb ru False by (auto simp: Stream_readKind_def Let_def)
  qed
  then show ?thesis using s(1,2) h by (intro Stream_Kind_readKind) auto
qed

section \<open>Reading values\<close>

text \<open>
  \<open>f\<close> reads \<open>a\<close> off the bytes \<open>b\<close>, whatever comes after them; in the second form, when \<open>b\<close> is all
  that is left of the innermost list.
\<close>

definition reads :: "(Stream \<Rightarrow> 'a result) \<Rightarrow> bytes \<Rightarrow> 'a \<Rightarrow> bool" where
  "reads f b a \<longleftrightarrow> (\<forall>s rd. kind s = None \<longrightarrow> room s (length b) \<longrightarrow> input s = b @ rd \<longrightarrow>
     (\<exists>s'. f s = (Inr a, s') \<and> core s' = core (adv (length b) s)))"

definition reads_to_end :: "(Stream \<Rightarrow> 'a result) \<Rightarrow> bytes \<Rightarrow> 'a \<Rightarrow> bool" where
  "reads_to_end f b a \<longleftrightarrow> (\<forall>s rd. kind s = None \<longrightarrow> room s (length b) \<longrightarrow> input s = b @ rd \<longrightarrow>
     at_end (adv (length b) s) \<longrightarrow> (\<exists>s'. f s = (Inr a, s') \<and> core s' = core (adv (length b) s)))"

lemma readsI:
  assumes "\<And>s rd. kind s = None \<Longrightarrow> room s (length b) \<Longrightarrow> input s = b @ rd \<Longrightarrow>
     \<exists>s'. f s = (Inr a, s') \<and> core s' = core (adv (length b) s)"
  shows "reads f b a"
  using assms unfolding reads_def by blast

lemma readsE:
  assumes "reads f b a" "kind s = None" "room s (length b)" "input s = b @ rd"
  obtains s' where "f s = (Inr a, s')" "core s' = core (adv (length b) s)"
  using assms unfolding reads_def by blast

lemma reads_reads_to_end: "reads f b a \<Longrightarrow> reads_to_end f b a"
  unfolding reads_def reads_to_end_def by blast

lemma reads_map:
  assumes "reads f b a" and "\<And>s s'. f s = (Inr a, s') \<Longrightarrow> g s = (Inr c, s')"
  shows "reads g b c"
  using assms unfolding reads_def by meson

lemma core_at_end: "core s = core s' \<Longrightarrow> at_end s = at_end s'"
  by (simp add: core_eq at_end_def)

text \<open>Strings.\<close>

lemma single_byteE:
  assumes "single_byte c"
  obtains x where "c = [x]" "x < 0x80"
  using assms by (auto simp: single_byte_def length_Suc_conv)

lemma Stream_Kind_string:
  assumes "kind s = None" "room s (length (rlp_string c))" "input s = rlp_string c @ rd" "fits c"
  shows "Stream_Kind s =
     (if single_byte c then ((ByteK, 0, None), ahead ByteK 0 (hd c) 1 s)
      else ((StringK, of_nat (length c), None), ahead StringK (of_nat (length c)) 0 (headsize (of_nat (length c))) s))"
proof (cases "single_byte c")
  case True
  then obtain x where "c = [x]" "x < 0x80" by (rule single_byteE)
  then show ?thesis using True assms Stream_Kind_byte [of s x rd] by (simp add: rlp_string_def)
next
  case False
  then show ?thesis
    using assms Stream_Kind_head [of s "of_nat (length c)" "0x80" "0xB7" "c @ rd" StringK] unat_length [OF assms(4)]
    by (simp add: rlp_string_def)
qed

text \<open>What is left after the head of a string.\<close>

lemma string_body:
  assumes "kind s = None" "room s (length (rlp_string c))" "input s = rlp_string c @ rd" "fits c" "\<not> single_byte c"
  defines "h \<equiv> headsize (of_nat (length c))"
  shows "readFull (length c) (ahead k n bv h s) = (Inr c, adv (length c) (ahead k n bv h s))"
    and "core (adv (length c) (ahead k n bv h s)) = core (adv (length (rlp_string c)) s)"
proof -
  have l: "length (rlp_string c) = h + length c" using assms(5) by (simp add: rlp_string_def h_def)
  have "room (adv h s) (length c)" using assms(2) l by (intro room_adv) simp
  then show "readFull (length c) (ahead k n bv h s) = (Inr c, adv (length c) (ahead k n bv h s))"
    using assms(3,5) by (intro readFull_room [where rd = rd]) (simp_all add: rlp_string_def h_def)
  show "core (adv (length c) (ahead k n bv h s)) = core (adv (length (rlp_string c)) s)"
    using l by (simp add: core_adv_ahead)
qed

lemma core_ahead_byte: "core ((ahead k n bv h s)\<lparr>kind := None\<rparr>) = core (adv h s)"
  by (simp add: core_eq)

lemma reads_Bytes:
  assumes f: "fits c"
  shows "reads Stream_Bytes (rlp_string c) c"
proof (rule readsI)
  fix s rd
  assume s: "kind s = None" "room s (length (rlp_string c))" "input s = rlp_string c @ rd"
  show "\<exists>s'. Stream_Bytes s = (Inr c, s') \<and> core s' = core (adv (length (rlp_string c)) s)"
  proof (cases "single_byte c")
    case True
    then obtain x where x: "c = [x]" "x < 0x80" by (rule single_byteE)
    then show ?thesis using True Stream_Kind_string [OF s f]
      by (simp add: Stream_Bytes_def rlp_string_def core_ahead_byte)
  next
    case False
    have "\<not> (of_nat (length c) = (1 :: u64) \<and> c ! 0 < 128)"
      using False unat_length [OF f] by (cases c) (auto simp: single_byte_def word_unat_eq_iff)
    then show ?thesis
      using False Stream_Kind_string [OF s f] string_body [OF s f False] unat_length [OF f]
      by (simp add: Stream_Bytes_def)
  qed
qed

text \<open>Integers.\<close>

lemma be_bytes_small:
  assumes "single_byte (be_bytes n)"
  shows "0 < n \<and> n < 128 \<and> be_bytes n = [of_nat n]"
proof -
  obtain x where x: "be_bytes n = [x]" "x < 0x80" using assms by (rule single_byteE)
  then have "n = unat x" using be_val_be_bytes [of n] by (simp add: be_val_def)
  then show ?thesis using x be_bytes_Nil [of n] by (auto simp: word_less_nat_alt)
qed

lemma single_be_bytes: "0 < n \<Longrightarrow> n < 128 \<Longrightarrow> single_byte (be_bytes n)"
  by (simp add: be_bytes_split single_byte_def word_less_nat_alt unsigned_of_nat take_bit_nat_eq_self)

lemma readUint_be_bytes:
  assumes "room s (length (be_bytes (unat i)))" "input s = be_bytes (unat i) @ rd" "kind s = None"
  shows "readUint (of_nat (length (be_bytes (unat i)))) s = (Inr i, adv (length (be_bytes (unat i))) s)"
proof (cases "i = 0")
  case True
  then show ?thesis using assms by (simp add: readUint_def)
next
  case False
  then have "putint i = be_bytes (unat i)" by (simp add: putint_be_bytes)
  then show ?thesis using readUint_room [of s i rd] assms False by simp
qed

lemma reads_uint:
  assumes i: "unat i < 256 ^ k" and k: "k \<le> 8" and bits: "bits div 8 = k"
  shows "reads (Stream_uint bits) (rlp_string (be_bytes (unat i))) i"
proof (rule readsI)
  let ?c = "be_bytes (unat i)"
  fix s rd
  assume s: "kind s = None" "room s (length (rlp_string ?c))" "input s = rlp_string ?c @ rd"
  have l: "length ?c \<le> k" using i by (rule length_be_bytes_le)
  then have f: "fits ?c" and u: "unat (of_nat (length ?c) :: u64) = length ?c"
    using k by (simp_all add: unsigned_of_nat take_bit_nat_eq_self)
  show "\<exists>s'. Stream_uint bits s = (Inr i, s') \<and> core s' = core (adv (length (rlp_string ?c)) s)"
  proof (cases "single_byte ?c")
    case True
    note b = be_bytes_small [OF True]
    have "hd ?c \<noteq> 0" using b hd_be_bytes [of "unat i"] by simp
    moreover have "ucast (hd ?c) = i"
      using b by (simp add: word_unat_eq_iff unsigned_ucast_eq unsigned_take_bit_eq take_bit_nat_eq_self)
    ultimately show ?thesis using True b Stream_Kind_string [OF s f]
      by (simp add: Stream_uint_def rlp_string_def core_ahead_byte)
  next
    case False
    let ?n = "of_nat (length ?c) :: u64" and ?h = "headsize (of_nat (length ?c))"
    let ?s1 = "ahead StringK ?n 0 ?h s"
    have ov: "\<not> of_nat (bits div 8) < ?n"
      using l k bits by (simp add: word_less_nat_alt unsigned_of_nat take_bit_nat_eq_self)
    have "length (rlp_string ?c) = ?h + length ?c" using False by (simp add: rlp_string_def)
    then have "room (adv ?h s) (length ?c)" using s(2) by (intro room_adv) simp
    then have "readUint (of_nat (length ?c)) (?s1\<lparr>kind := None\<rparr>) = (Inr i, adv (length ?c) (?s1\<lparr>kind := None\<rparr>))"
      using s(3) False by (intro readUint_be_bytes [where rd = rd]) (simp_all add: rlp_string_def)
    moreover have "readUint w (?s1\<lparr>kind := None\<rparr>) = readUint w ?s1" for w
      by (simp add: readUint_def readByte_def readFull_def willRead_def Let_def cong: option.case_cong)
    moreover have "(ucast ?n :: u8) = of_nat (length ?c)"
      using l k by (simp add: word_unat_eq_iff unsigned_ucast_eq unsigned_of_nat take_bit_nat_eq_self)
    ultimately have "readUint (ucast ?n) ?s1 = (Inr i, adv (length ?c) (?s1\<lparr>kind := None\<rparr>))" by simp
    moreover have "\<not> (0 < ?n \<and> i < 128)"
      using False u single_be_bytes [of "unat i"] by (auto simp: word_less_nat_alt unat_gt_0)
    moreover have "core (adv (length ?c) (?s1\<lparr>kind := None\<rparr>)) = core (adv (length (rlp_string ?c)) s)"
      using string_body(2) [OF s f False] by simp
    ultimately show ?thesis using False ov Stream_Kind_string [OF s f] by (simp add: Stream_uint_def)
  qed
qed

lemma reads_Bool: "reads Stream_Bool (rlp_string (if x then [1] else [])) x"
proof -
  have b: "be_bytes (unat (if x then 1 else 0 :: u64)) = (if x then [1] else [])"
    by (simp add: be_bytes_split)
  have "reads (Stream_uint 8) (rlp_string (if x then [1] else [])) (if x then 1 else 0)"
    using reads_uint [of "if x then 1 else 0" 1 8] unfolding b by (cases x) simp_all
  then show ?thesis by (rule reads_map) (auto simp: Stream_Bool_def)
qed

lemma reads_BigInt:
  assumes "0 \<le> i" "fits (be_bytes (nat i))"
  shows "reads decodeBigInt (rlp_string (be_bytes (nat i))) i"
proof -
  have "be_bytes (nat i) = [] \<or> be_bytes (nat i) ! 0 \<noteq> 0"
    using hd_be_bytes [of "nat i"] by (cases "nat i = 0") (auto simp: hd_conv_nth)
  then show ?thesis
    using assms(1) by (intro reads_map [OF reads_Bytes [OF assms(2)]]) (auto simp: decodeBigInt_def)
qed

text \<open>
  Byte arrays, except for the one-byte array that holds zero, on which the stream does not move.
\<close>

lemma reads_ByteArray:
  assumes f: "fits c" and c: "c \<noteq> [0]"
  shows "reads (decodeByteArray (length c)) (rlp_string c) (VBytes c)"
proof (rule readsI)
  fix s rd
  assume s: "kind s = None" "room s (length (rlp_string c))" "input s = rlp_string c @ rd"
  show "\<exists>s'. decodeByteArray (length c) s = (Inr (VBytes c), s') \<and> core s' = core (adv (length (rlp_string c)) s)"
  proof (cases "single_byte c")
    case True
    then obtain x where x: "c = [x]" "x < 0x80" by (rule single_byteE)
    then have "(ucast (ucast x :: u64) :: u8) = x" "x \<noteq> 0"
      using c by (auto simp: word_less_nat_alt word_unat_eq_iff unsigned_ucast_eq unsigned_take_bit_eq
          take_bit_nat_eq_self)
    then show ?thesis using True x Stream_Kind_string [OF s f]
      by (simp add: decodeByteArray_def Stream_Uint_def Stream_uint_def rlp_string_def core_ahead_byte)
  next
    case False
    have "\<not> (of_nat (length c) = (1 :: u64) \<and> c ! 0 < 128)"
      using False unat_length [OF f] by (cases c) (auto simp: single_byte_def word_unat_eq_iff)
    then show ?thesis
      using False Stream_Kind_string [OF s f] string_body [OF s f False]
      by (simp add: decodeByteArray_def)
  qed
qed

section \<open>Lists\<close>

lemma Stream_Kind_list:
  assumes "kind s = None" "room s (length (rlp_list b))" "input s = rlp_list b @ rd" "fits b"
  shows "Stream_Kind s = ((ListK, of_nat (length b), None),
     ahead ListK (of_nat (length b)) 0 (headsize (of_nat (length b))) s)"
  using assms Stream_Kind_head [of s "of_nat (length b)" "0xC0" "0xF7" "b @ rd" ListK] unat_length [OF assms(4)]
  by (simp add: rlp_list_def)

text \<open>The stream inside a list, just after its head.\<close>

definition inside :: "bytes \<Rightarrow> Stream \<Rightarrow> Stream" where
  "inside b s = (let h = headsize (of_nat (length b)); s1 = ahead ListK (of_nat (length b)) 0 h s in
     s1\<lparr>stack := (0, of_nat (length b)) # stack s1, kind := None, vsize := 0\<rparr>)"

lemma in_list:
  assumes s: "kind s = None" "room s (length (rlp_list b))" "input s = rlp_list b @ rd" "fits b"
    and f: "reads_to_end f b a"
  shows "Stream_List s = (Inr (of_nat (length b)), inside b s)"
    and "\<exists>s2 s3. f (inside b s) = (Inr a, s2) \<and> ListEnd s2 = (None, s3)
       \<and> core s3 = core (adv (length (rlp_list b)) s)"
proof -
  let ?n = "of_nat (length b) :: u64" and ?h = "headsize (of_nat (length b))"
  show "Stream_List s = (Inr ?n, inside b s)"
    by (simp add: Stream_List_def Stream_Kind_list [OF s] inside_def Let_def)
  have l: "length (rlp_list b) = ?h + length b" by (simp add: rlp_list_def)
  then have r: "room (adv ?h s) (length b)" using s(2) by (intro room_adv) simp
  then have "room (inside b s) (length b)"
    using unat_length [OF s(4)] by (simp add: room_def inside_def Let_def)
  moreover have "input (inside b s) = b @ rd" using s(3) by (simp add: inside_def Let_def rlp_list_def)
  moreover have "kind (inside b s) = None" by (simp add: inside_def Let_def)
  moreover have "at_end (adv (length b) (inside b s))" by (simp add: at_end_def adv_def inside_def Let_def)
  ultimately obtain s2 where s2: "f (inside b s) = (Inr a, s2)" "core s2 = core (adv (length b) (inside b s))"
    using f unfolding reads_to_end_def by blast
  define s3 where "s3 = snd (ListEnd s2)"
  have st: "stack s2 = (?n, ?n) # stack (adv ?h s)" "kind s2 = None" "input s2 = drop (length b) (drop ?h (input s))"
    "limited s2 = limited s" "remaining s2 = (if limited s then remaining (adv ?h s) - ?n else remaining (adv ?h s))"
    using s2(2) by (simp_all add: core_eq inside_def Let_def adv_def [of "length b"])
  have "ListEnd s2 = (None, s3)" by (simp add: s3_def ListEnd_def st)
  moreover have "core s3 = core (adv (length (rlp_list b)) s)"
    unfolding core_eq l
    by (simp add: s3_def ListEnd_def st add.commute) (simp add: adv_def split: list.split)
  ultimately show "\<exists>s2 s3. f (inside b s) = (Inr a, s2) \<and> ListEnd s2 = (None, s3)
       \<and> core s3 = core (adv (length (rlp_list b)) s)"
    using s2(1) by blast
qed

text \<open>At the end of a list a decoder reports \<^verbatim>\<open>EOL\<close> and leaves the stream where it is.\<close>

definition stops :: "(Stream \<Rightarrow> 'a result) \<Rightarrow> bool" where
  "stops f \<longleftrightarrow> (\<forall>s. kind s = None \<longrightarrow> at_end s \<longrightarrow> (\<exists>s'. f s = (Inl EOL, s') \<and> core s' = core s))"

lemma Stream_Kind_at_end:
  "kind s = None \<Longrightarrow> at_end s \<Longrightarrow> Stream_Kind s = ((ByteK, 0, Some EOL), s\<lparr>kinderr := None\<rparr>)"
  by (simp add: Stream_Kind_def at_end_def Let_def)

lemma adv_split: "core s' = core (adv m s) \<Longrightarrow> core (adv n s') = core (adv (m + n) s)"
  using core_adv [of s' "adv m s" n] by (simp add: adv_adv)

text \<open>One value after the other.\<close>

lemma reads_next:
  assumes d: "reads d b v" and k: "kind s = None" and r: "room s (length (b @ c))" and i: "input s = (b @ c) @ rd"
  obtains s1 where "d s = (Inr v, s1)" "kind s1 = None" "room s1 (length c)" "input s1 = c @ rd"
    "\<And>n. core (adv n s1) = core (adv (length b + n) s)"
proof -
  obtain s1 where s1: "d s = (Inr v, s1)" "core s1 = core (adv (length b) s)"
    using readsE [OF d k, of "c @ rd"] r i room_le [of s "length (b @ c)" "length b"] by auto
  have "room (adv (length b) s) (length c)" using r by (intro room_adv) simp
  then have "room s1 (length c)" using core_room [OF s1(2)] by simp
  moreover have "kind s1 = None" "input s1 = c @ rd" using s1(2) i by (simp_all add: core_eq)
  ultimately show thesis using that s1 adv_split by blast
qed

lemma array_loop_reads:
  assumes "list_all2 (\<lambda>b v. reads (d z) b v) bs vs"
  shows "reads (array_loop d (replicate (length vs) z)) (concat bs) vs"
  using assms
proof (induction rule: list_all2_induct)
  case Nil
  then show ?case by (auto intro!: readsI)
next
  case (Cons b bs v vs)
  show ?case
  proof (rule readsI)
    fix s rd
    assume s: "kind s = None" "room s (length (concat (b # bs)))" "input s = concat (b # bs) @ rd"
    obtain s1 where s1: "d z s = (Inr v, s1)" "kind s1 = None" "room s1 (length (concat bs))"
      "input s1 = concat bs @ rd" "\<And>n. core (adv n s1) = core (adv (length b + n) s)"
      using reads_next [OF Cons.hyps(1) s(1), of "concat bs" rd] s(2,3) by auto
    obtain s2 where "array_loop d (replicate (length vs) z) s1 = (Inr vs, s2)"
      "core s2 = core (adv (length (concat bs)) s1)"
      using readsE [OF Cons.IH s1(2-4)] by blast
    then show "\<exists>s'. array_loop d (replicate (length (v # vs)) z) s = (Inr (v # vs), s')
        \<and> core s' = core (adv (length (concat (b # bs))) s)"
      using s1(1,5) by simp
  qed
qed

lemma slice_loop_reads:
  assumes "list_all2 (\<lambda>b v. reads (d z) b v) bs vs" and "stops (d z)" and "length bs < fuel"
  shows "reads_to_end (slice_loop fuel d z []) (concat bs) vs"
  using assms(1,3)
proof (induction arbitrary: fuel rule: list_all2_induct)
  case Nil
  then obtain n where n: "fuel = Suc n" by (cases fuel) auto
  show ?case unfolding reads_to_end_def
  proof (intro allI impI)
    fix s rd
    assume "kind s = None" "at_end (adv (length (concat [])) s)"
    then obtain s' where "d z s = (Inl EOL, s')" "core s' = core s"
      using assms(2) unfolding stops_def by auto
    then show "\<exists>s'. slice_loop fuel d z [] s = (Inr [], s') \<and> core s' = core (adv (length (concat [])) s)"
      using \<open>kind s = None\<close> by (simp add: n)
  qed
next
  case (Cons b bs v vs)
  then obtain n where n: "fuel = Suc n" "length bs < n" by (cases fuel) auto
  show ?case unfolding reads_to_end_def
  proof (intro allI impI)
    fix s rd
    assume s: "kind s = None" "room s (length (concat (b # bs)))" "input s = concat (b # bs) @ rd"
      "at_end (adv (length (concat (b # bs))) s)"
    obtain s1 where s1: "d z s = (Inr v, s1)" "kind s1 = None" "room s1 (length (concat bs))"
      "input s1 = concat bs @ rd" "\<And>n. core (adv n s1) = core (adv (length b + n) s)"
      using reads_next [OF Cons.hyps(1) s(1), of "concat bs" rd] s(2,3) by auto
    have "at_end (adv (length (concat bs)) s1)" using s(4) core_at_end [OF s1(5)] by simp
    then obtain s2 where "slice_loop n d z [] s1 = (Inr vs, s2)" "core s2 = core (adv (length (concat bs)) s1)"
      using Cons.IH [OF n(2)] s1(2-4) unfolding reads_to_end_def by blast
    then show "\<exists>s'. slice_loop fuel d z [] s = (Inr (v # vs), s') \<and> core s' = core (adv (length (concat (b # bs))) s)"
      using s1(1,5) by (simp add: n)
  qed
qed

end
