(* ===== verification/Rlp_Roundtrip.thy ===== *)
theory Rlp_Roundtrip
  imports Rlp_Reads
begin

text \<open>
  Decoding inverts encoding. \<open>rt\<close> says which values of a type come back as they were; the others
  are the ones the encoding forgets (nil pointers and empty pointers under the tag \<^verbatim>\<open>nil\<close>, types
  inside interfaces) and two the decoder gets wrong, long strings as raw values and the one-byte
  array that holds zero.
\<close>

section \<open>Compound decoders\<close>

lemma length_concat_ge: "[] \<notin> set bs \<Longrightarrow> length bs \<le> length (concat bs)"
proof (induction bs)
  case (Cons b bs)
  then have "0 < length b" "length bs \<le> length (concat bs)" by auto
  then show ?case by (simp del: length_greater_0_conv)
qed simp

lemma reads_ListSlice:
  assumes e: "list_all2 (\<lambda>b v. reads (d z) b v) bs vs" "stops (d z)" "[] \<notin> set bs" "fits (concat bs)"
  shows "reads (decodeListSlice d z []) (rlp_list (concat bs)) vs"
proof (rule readsI)
  let ?b = "concat bs"
  fix s rd
  assume s: "kind s = None" "room s (length (rlp_list ?b))" "input s = rlp_list ?b @ rd"
  show "\<exists>s'. decodeListSlice d z [] s = (Inr vs, s') \<and> core s' = core (adv (length (rlp_list ?b)) s)"
  proof (cases "bs = []")
    case True
    have "reads_to_end (\<lambda>s. (Inr [], s)) ?b []" by (simp add: reads_to_end_def True)
    from in_list [OF s e(4) this] e(1) show ?thesis
      by (auto simp: decodeListSlice_def True)
  next
    case False
    then have n: "(of_nat (length ?b) :: u64) \<noteq> 0"
      using e(3) unat_length [OF e(4)] by (cases bs) (auto simp: word_unat_eq_iff)
    have "slice_fuel (inside ?b s) = length (?b @ rd) + 2"
      using s(3) by (simp add: slice_fuel_def inside_def Let_def rlp_list_def)
    then have "length bs < slice_fuel (inside ?b s)" using length_concat_ge [OF e(3)] by simp
    from in_list [OF s e(4) slice_loop_reads [where d = d and z = z, OF e(1,2) this]] n show ?thesis
      by (auto simp: decodeListSlice_def decodeSliceElems_def)
  qed
qed

lemma reads_SliceElems:
  assumes e: "list_all2 (\<lambda>b v. reads (d z) b v) bs vs" "stops (d z)" "[] \<notin> set bs"
  shows "reads_to_end (decodeSliceElems d z []) (concat bs) vs"
proof -
  have "length bs < slice_fuel s" if "input s = concat bs @ rd" for s rd
    using that length_concat_ge [OF e(3)] by (simp add: slice_fuel_def)
  then show ?thesis
    using slice_loop_reads [where d = d and z = z, OF e(1,2)]
    unfolding reads_to_end_def decodeSliceElems_def by blast
qed

lemma reads_ListArray:
  assumes e: "list_all2 (\<lambda>b v. reads (d z) b v) bs vs" "fits (concat bs)"
  shows "reads (decodeListArray d (replicate (length vs) z)) (rlp_list (concat bs)) vs"
proof (rule readsI)
  let ?b = "concat bs"
  fix s rd
  assume s: "kind s = None" "room s (length (rlp_list ?b))" "input s = rlp_list ?b @ rd"
  show "\<exists>s'. decodeListArray d (replicate (length vs) z) s = (Inr vs, s')
      \<and> core s' = core (adv (length (rlp_list ?b)) s)"
    using in_list [OF s e(2) reads_reads_to_end [OF array_loop_reads [where d = d and z = z, OF e(1)]]]
    by (auto simp: decodeListArray_def)
qed

lemma reads_Struct:
  assumes "reads_to_end (struct_loop ds old) b vs" "fits b"
  shows "reads (decodeStruct ds old) (rlp_list b) (VStruct vs)"
proof (rule readsI)
  fix s rd
  assume s: "kind s = None" "room s (length (rlp_list b))" "input s = rlp_list b @ rd"
  show "\<exists>s'. decodeStruct ds old s = (Inr (VStruct vs), s') \<and> core s' = core (adv (length (rlp_list b)) s)"
    using in_list [OF s assms(2,1)] by (auto simp: decodeStruct_def)
qed

lemma struct_loop_last:
  assumes "reads_to_end (d z) b v"
  shows "reads_to_end (struct_loop [d] [z]) b [v]"
  unfolding reads_to_end_def
proof (intro allI impI)
  fix s rd
  assume "kind s = None" "room s (length b)" "input s = b @ rd" "at_end (adv (length b) s)"
  then obtain s' where "d z s = (Inr v, s')" "core s' = core (adv (length b) s)"
    using assms unfolding reads_to_end_def by blast
  then show "\<exists>s'. struct_loop [d] [z] s = (Inr [v], s') \<and> core s' = core (adv (length b) s)" by simp
qed

lemma struct_loop_Cons:
  assumes d: "reads (d z) b v" and ds: "reads_to_end (struct_loop ds zs) c vs"
  shows "reads_to_end (struct_loop (d # ds) (z # zs)) (b @ c) (v # vs)"
  unfolding reads_to_end_def
proof (intro allI impI)
  fix s rd
  assume s: "kind s = None" "room s (length (b @ c))" "input s = (b @ c) @ rd" "at_end (adv (length (b @ c)) s)"
  obtain s1 where s1: "d z s = (Inr v, s1)" "kind s1 = None" "room s1 (length c)" "input s1 = c @ rd"
    "\<And>n. core (adv n s1) = core (adv (length b + n) s)"
    using reads_next [OF d s(1-3)] by blast
  have "at_end (adv (length c) s1)" using s(4) core_at_end [OF s1(5)] by simp
  then obtain s2 where "struct_loop ds zs s1 = (Inr vs, s2)" "core s2 = core (adv (length c) s1)"
    using ds s1(2-4) unfolding reads_to_end_def by blast
  then show "\<exists>s'. struct_loop (d # ds) (z # zs) s = (Inr (v # vs), s') \<and> core s' = core (adv (length (b @ c)) s)"
    using s1(1,5) by simp
qed

section \<open>Reading ahead\<close>

text \<open>A decoder that starts by asking for the kind does not mind that it was asked for before.\<close>

definition peeks :: "(Stream \<Rightarrow> 'a result) \<Rightarrow> bool" where
  "peeks f \<longleftrightarrow> (\<forall>s. f (snd (Stream_Kind s)) = f s)"

lemma Stream_Kind_twice: "Stream_Kind (snd (Stream_Kind s)) = Stream_Kind s"
proof (cases "kind s")
  case None
  then show ?thesis
    by (auto simp: Stream_Kind_def Let_def split: prod.splits list.splits)
qed (simp add: Stream_Kind_def)

lemma peeks_ops:
  "peeks Stream_Bytes" "peeks Stream_Raw" "peeks (Stream_uint n)" "peeks Stream_List" "peeks (decodeByteArray n)"
  by (simp_all add: peeks_def Stream_Bytes_def Stream_Raw_def Stream_uint_def Stream_List_def
      decodeByteArray_def Stream_Kind_twice)

lemmas peek_simps = peeks_ops [unfolded peeks_def, rule_format]

fun peekable :: "rtype \<Rightarrow> bool" where
  "peekable TIface = False"
| "peekable (TPtr t) = peekable t"
| "peekable t = True"

lemma peeks_decoder: "genTypeInfo t \<Longrightarrow> peekable t \<Longrightarrow> peeks (decoder t no_tags v)"
proof (induction t arbitrary: v)
  case (TPtr t)
  then show ?case by (simp add: peeks_def decodePtr_def no_tags_def)
next
  case (TStruct fs)
  then show ?case by (auto simp: peeks_def decodeStruct_def peek_simps)
qed (simp_all add: peeks_def peek_simps decodeRawValue_def decodeUint_def decodeBool_def Stream_Bool_def
    decodeString_def decodeByteSlice_def decodeBigInt_def decodeListArray_def decodeListSlice_def no_tags_def)

lemma wrap_EOL [simp]: "wrapStreamError EOL = EOL"
  by (simp add: wrapStreamError_def)

lemma stops_decodePtr:
  assumes "stops (d x)"
  shows "stops (decodePtr d x)"
  unfolding stops_def
proof (intro allI impI)
  fix s
  assume "kind s = None" "at_end s"
  then obtain s' where "d x s = (Inl EOL, s')" "core s' = core s" using assms unfolding stops_def by blast
  then show "\<exists>s'. decodePtr d x s = (Inl EOL, s') \<and> core s' = core s" by (simp add: decodePtr_def)
qed

lemma stops_decoder: "genTypeInfo t \<Longrightarrow> stops (decoder t no_tags v)"
proof (induction t arbitrary: v)
  case (TPtr t)
  then have "stops (decoder t no_tags (target_of t v))" by simp
  then show ?case by (simp add: stops_decodePtr no_tags_def)
next
  case (TStruct fs)
  then obtain gs where "structFields fs = Some gs" by auto
  then show ?case
    by (simp add: stops_def decodeStruct_def Stream_List_def Stream_Kind_at_end core_eq)
qed (simp_all add: stops_def decodeRawValue_def decodeUint_def decodeBool_def Stream_Bool_def wrapped_def
    decodeString_def decodeByteSlice_def decodeBigInt_def decodeListArray_def decodeListSlice_def no_tags_def
    Stream_Raw_def Stream_uint_def Stream_Bytes_def Stream_List_def decodeByteArray_def Stream_Kind_at_end
    core_eq to_list_def slice_fuel_def)

section \<open>Raw values and optional pointers\<close>

lemma Stream_Kind_enc:
  assumes s: "kind s = None" "room s (length (rlp_enc k c))" "input s = rlp_enc k c @ rd" "fits c" "kind_ok k c"
  shows "\<exists>n bv h. Stream_Kind s = ((k, n, None), ahead k n bv h s) \<and> (k \<noteq> ByteK \<longrightarrow> n = of_nat (length c))"
proof (cases "k = ListK")
  case True
  then show ?thesis using Stream_Kind_list [of s c rd] s by (auto simp: rlp_enc_def)
next
  case False
  then have "Stream_Kind s = (if single_byte c then ((ByteK, 0, None), ahead ByteK 0 (hd c) 1 s)
      else ((StringK, of_nat (length c), None), ahead StringK (of_nat (length c)) 0 (headsize (of_nat (length c))) s))"
    using Stream_Kind_string [of s c rd] s by (simp add: rlp_enc_def)
  then show ?thesis using False s(5) by (cases k) (auto simp: kind_ok_def)
qed

definition raw_ok :: "bytes \<Rightarrow> bool" where
  "raw_ok b = (fits b \<and> (case Split b of
     Inr (k, c, rest) \<Rightarrow> rest = [] \<and> (k = StringK \<longrightarrow> length c < 56) | Inl e \<Rightarrow> False))"

lemma reads_Raw:
  assumes "kind_ok k c" "fits c" "k = StringK \<longrightarrow> length c < 56"
  shows "reads Stream_Raw (rlp_enc k c) (rlp_enc k c)"
proof (rule readsI)
  fix s rd
  assume s: "kind s = None" "room s (length (rlp_enc k c))" "input s = rlp_enc k c @ rd"
  have tag: "puthead 0x80 0xB8 (of_nat (length c)) = puthead 0x80 0xB7 (of_nat (length c))" if "length c < 56"
    using that assms(2) by (simp add: puthead_def word_length_less)
  show "\<exists>s'. Stream_Raw s = (Inr (rlp_enc k c), s') \<and> core s' = core (adv (length (rlp_enc k c)) s)"
  proof (cases k)
    case ByteK
    then have sb: "single_byte c" and e: "rlp_enc k c = rlp_string c"
      using assms(1) by (auto simp: kind_ok_def rlp_enc_def)
    then obtain x where "c = [x]" by (auto elim: single_byteE)
    then show ?thesis
      using sb Stream_Kind_string [of s c rd] s assms(2) e
      by (simp add: Stream_Raw_def rlp_string_def core_ahead_byte)
  next
    case StringK
    then have ns: "\<not> single_byte c" and e: "rlp_enc k c = rlp_string c"
      using assms(1) by (auto simp: kind_ok_def rlp_enc_def)
    have s': "kind s = None" "room s (length (rlp_string c))" "input s = rlp_string c @ rd" using s e by auto
    show ?thesis
      using ns Stream_Kind_string [OF s' assms(2)] string_body [OF s' assms(2) ns] unat_length [OF assms(2)]
        tag assms(3) StringK unfolding e by (simp add: Stream_Raw_def rlp_string_def)
  next
    case ListK
    then have e: "rlp_enc k c = rlp_list c" by (simp add: rlp_enc_def)
    have s': "kind s = None" "room s (length (rlp_list c))" "input s = rlp_list c @ rd" using s e by auto
    let ?h = "headsize (of_nat (length c))" and ?n = "of_nat (length c) :: u64"
    have l: "length (rlp_list c) = ?h + length c" by (simp add: rlp_list_def)
    have "room (adv ?h s) (length c)" using s'(2) l by (intro room_adv) simp
    then have "readFull (length c) (ahead ListK ?n 0 ?h s) = (Inr c, adv (length c) (ahead ListK ?n 0 ?h s))"
      using s'(3) by (intro readFull_room [where rd = rd]) (simp_all add: rlp_list_def)
    moreover have "core (adv (length c) (ahead ListK ?n 0 ?h s)) = core (adv (length (rlp_list c)) s)"
      using l by (simp add: core_adv_ahead)
    ultimately show ?thesis
      using Stream_Kind_list [OF s' assms(2)] unat_length [OF assms(2)] unfolding e
      by (simp add: Stream_Raw_def rlp_list_def)
  qed
qed

lemma reads_OptionalPtr:
  assumes d: "reads (d x) (rlp_enc k c) v" "peeks (d x)" and c: "kind_ok k c" "fits c" "c \<noteq> []"
  shows "reads (decodeOptionalPtr d x) (rlp_enc k c) (VPtr (Some v))"
proof (rule readsI)
  fix s rd
  assume s: "kind s = None" "room s (length (rlp_enc k c))" "input s = rlp_enc k c @ rd"
  obtain n bv h where k: "Stream_Kind s = ((k, n, None), ahead k n bv h s)" "k \<noteq> ByteK \<longrightarrow> n = of_nat (length c)"
    using Stream_Kind_enc [OF s c(2,1)] by blast
  have "d x (ahead k n bv h s) = d x s" using d(2) [unfolded peeks_def, rule_format, of s] k(1) by simp
  moreover have "\<not> (n = 0 \<and> k \<noteq> ByteK)" using k(2) c(3) unat_length [OF c(2)] by (auto simp: word_unat_eq_iff)
  moreover obtain s' where "d x s = (Inr v, s')" "core s' = core (adv (length (rlp_enc k c)) s)"
    using readsE [OF d(1) s] by blast
  ultimately show "\<exists>s'. decodeOptionalPtr d x s = (Inr (VPtr (Some v)), s') \<and> core s' = core (adv (length (rlp_enc k c)) s)"
    by (auto simp: decodeOptionalPtr_def decodePtr_def k(1))
qed

lemma reads_OptionalPtr_nil:
  assumes "b = [0x80] \<or> b = [0xC0]"
  shows "reads (decodeOptionalPtr d x) b (VPtr None)"
proof (rule readsI)
  fix s rd
  assume s: "kind s = None" "room s (length b)" "input s = b @ rd"
  have "\<exists>k. k \<noteq> ByteK \<and> Stream_Kind s = ((k, 0, None), ahead k 0 0 1 s)"
    using assms Stream_Kind_string [of s "[]" rd] Stream_Kind_list [of s "[]" rd] s
    by (auto simp: single_byte_def headsize_def)
  then show "\<exists>s'. decodeOptionalPtr d x s = (Inr (VPtr None), s') \<and> core s' = core (adv (length b) s)"
    using assms by (auto simp: decodeOptionalPtr_def core_ahead_byte)
qed

section \<open>Values that come back\<close>

lemma map_sum_Inr [simp]: "map_sum id f q = Inr c \<longleftrightarrow> (\<exists>x. q = Inr x \<and> c = f x)"
  by (cases q) auto

text \<open>\<open>good\<close>: the value is encoded as one string or list, and the decoder of the type reads it back.\<close>

definition good :: "rtype \<Rightarrow> tags \<Rightarrow> rval \<Rightarrow> bool" where
  "good t ts v \<longleftrightarrow> (\<exists>k c. kind_ok k c \<and> rlp_of t ts v = Inr (rlp_enc k c)
     \<and> (fits (rlp_enc k c) \<longrightarrow> reads (decoder t ts (zero_val t)) (rlp_enc k c) v))"

lemma good_string:
  assumes "rlp_of t ts v = Inr (rlp_string c)" "fits c \<Longrightarrow> reads (decoder t ts (zero_val t)) (rlp_string c) v"
  shows "good t ts v"
proof -
  have "kind_ok (if single_byte c then ByteK else StringK) c" "rlp_enc (if single_byte c then ByteK else StringK) c = rlp_string c"
    by (auto simp: kind_ok_def rlp_enc_def)
  then show ?thesis using assms fits_string unfolding good_def by metis
qed

lemma good_list:
  assumes "rlp_of t ts v = Inr (rlp_list c)" "fits c \<Longrightarrow> reads (decoder t ts (zero_val t)) (rlp_list c) v"
  shows "good t ts v"
proof -
  have "kind_ok ListK c" "rlp_enc ListK c = rlp_list c" "fits (rlp_list c) \<Longrightarrow> fits c"
    by (auto simp: kind_ok_def rlp_enc_def rlp_list_def)
  then show ?thesis using assms unfolding good_def by metis
qed

lemma elems_good:
  assumes "\<forall>v \<in> set vs. good t no_tags v"
  shows "\<exists>bs. rlp_elems t vs = Inr (concat bs) \<and> [] \<notin> set bs
     \<and> (fits (concat bs) \<longrightarrow> list_all2 (\<lambda>b v. reads (decoder t no_tags (zero_val t)) b v) bs vs)"
  using assms
proof (induction vs)
  case Nil
  then show ?case by (intro exI [of _ "[]"]) (simp add: rlp_elems.simps)
next
  case (Cons v vs)
  obtain bs where bs: "rlp_elems t vs = Inr (concat bs)" "[] \<notin> set bs"
    "fits (concat bs) \<longrightarrow> list_all2 (\<lambda>b v. reads (decoder t no_tags (zero_val t)) b v) bs vs"
    using Cons by auto
  obtain k c where b: "rlp_of t no_tags v = Inr (rlp_enc k c)"
    "fits (rlp_enc k c) \<longrightarrow> reads (decoder t no_tags (zero_val t)) (rlp_enc k c) v"
    using Cons.prems by (auto simp: good_def)
  show ?case using bs b
    by (intro exI [of _ "rlp_enc k c # bs"])
      (simp add: rlp_elems.simps [of t "v # vs"] rlp_enc_nonempty [symmetric])
qed

text \<open>Fields: only the last one can swallow the rest of the list.\<close>

fun fields_ok :: "(rtype \<times> tags) list \<Rightarrow> bool" where
  "fields_ok [] = True"
| "fields_ok (g # gs) = ((tail (snd g) \<longrightarrow> is_slice (fst g) \<and> gs = []) \<and> fields_ok gs)"

lemma apply_tags_tail:
  "apply_tags t fin ts xs = Some ts' \<Longrightarrow> (tail ts \<longrightarrow> fin \<and> is_slice t) \<Longrightarrow> tail ts' \<longrightarrow> fin \<and> is_slice t"
proof (induction xs arbitrary: ts)
  case (Cons x xs)
  then show ?case by (force split: if_splits)
qed simp

lemma structFields_ok:
  "structFields fs = Some gs \<Longrightarrow> fields_ok gs \<and> map fst gs = map fst fs \<and> (gs = [] \<longleftrightarrow> fs = [])"
proof (induction fs arbitrary: gs)
  case (Cons f fs)
  obtain t s where f: "f = (t, s)" by (cases f)
  then obtain ts hs where h: "parseStructTag t (fs = []) s = Some ts" "structFields fs = Some hs" "gs = (t, ts) # hs"
    using Cons.prems by (auto split: option.splits)
  have "tail ts \<longrightarrow> fs = [] \<and> is_slice t"
    using apply_tags_tail h(1) unfolding parseStructTag_def by (fastforce simp: no_tags_def)
  then show ?case using Cons.IH [OF h(2)] h f by auto
qed simp

definition field_good :: "rtype \<Rightarrow> tags \<Rightarrow> rval \<Rightarrow> bool" where
  "field_good t ts v \<longleftrightarrow> (\<exists>b. rlp_of t ts v = Inr b
     \<and> (fits b \<longrightarrow> reads_to_end (decoder t ts (zero_val t)) b v
         \<and> (\<not> tail ts \<longrightarrow> reads (decoder t ts (zero_val t)) b v)))"

lemma good_field: "good t ts v \<Longrightarrow> field_good t ts v"
  unfolding good_def field_good_def by (auto intro: reads_reads_to_end)

lemma fields_good:
  assumes "list_all2 (\<lambda>g v. field_good (fst g) (snd g) v) gs vs" "fields_ok gs"
  shows "\<exists>b. rlp_fields gs vs = Inr b
     \<and> (fits b \<longrightarrow> reads_to_end (struct_loop (map (\<lambda>g. decoder (fst g) (snd g)) gs) (map (\<lambda>g. zero_val (fst g)) gs)) b vs)"
  using assms
proof (induction rule: list_all2_induct)
  case Nil
  then show ?case by (simp add: rlp_fields.simps [of "[]" "[]"] reads_to_end_def)
next
  case (Cons g gs v vs)
  obtain t ts where g: "g = (t, ts)" by (cases g)
  obtain b where b: "rlp_of t ts v = Inr b" "fits b \<longrightarrow> reads_to_end (decoder t ts (zero_val t)) b v
      \<and> (\<not> tail ts \<longrightarrow> reads (decoder t ts (zero_val t)) b v)"
    using Cons.hyps(1) by (auto simp: field_good_def g)
  obtain c where c: "rlp_fields gs vs = Inr c"
    "fits c \<longrightarrow> reads_to_end (struct_loop (map (\<lambda>g. decoder (fst g) (snd g)) gs) (map (\<lambda>g. zero_val (fst g)) gs)) c vs"
    using Cons by auto
  have r: "rlp_fields (g # gs) (v # vs) = Inr (b @ c)"
    using b c by (simp add: rlp_fields.simps [of "(t, ts) # gs"] g)
  show ?case
  proof (cases "tail ts")
    case True
    then have "gs = []" "vs = []" using Cons.prems Cons.hyps(2) by (auto simp: g)
    moreover from this have "c = []" using c(1) by (simp add: rlp_fields.simps [of "[]" "[]"])
    ultimately show ?thesis using r b by (auto simp: g simp del: struct_loop.simps intro!: struct_loop_last)
  next
    case False
    then show ?thesis using r b c by (auto simp: g simp del: struct_loop.simps intro!: struct_loop_Cons)
  qed
qed

section \<open>Interfaces\<close>

text \<open>An interface comes back as a byte slice or as a slice of interfaces.\<close>

fun rt_iface :: "rval \<Rightarrow> bool" where
  "rt_iface v =
     (case v of
        VIface (Some (TBytes, VBytes b)) \<Rightarrow> True
      | VIface (Some (TSlice TIface, VList vs)) \<Rightarrow> list_all rt_iface vs
      | _ \<Rightarrow> False)"

declare rt_iface.simps [simp del]

lemma reads_Interface_string:
  assumes "fits c"
  shows "reads (decodeInterface (Suc fuel)) (rlp_string c) (VIface (Some (TBytes, VBytes c)))"
proof (rule readsI)
  fix s rd
  assume s: "kind s = None" "room s (length (rlp_string c))" "input s = rlp_string c @ rd"
  obtain k n s1 where k: "Stream_Kind s = ((k, n, None), s1)" "k \<noteq> ListK"
    using Stream_Kind_string [OF s assms] by (auto split: if_splits)
  have "Stream_Bytes s1 = Stream_Bytes s" using peek_simps(1) [of s] k(1) by simp
  moreover obtain s' where "Stream_Bytes s = (Inr c, s')" "core s' = core (adv (length (rlp_string c)) s)"
    using readsE [OF reads_Bytes [OF assms] s] by blast
  ultimately show "\<exists>s'. decodeInterface (Suc fuel) s = (Inr (VIface (Some (TBytes, VBytes c))), s')
      \<and> core s' = core (adv (length (rlp_string c)) s)"
    by (simp add: k)
qed

lemma reads_Interface_list:
  assumes e: "list_all2 (reads (decodeInterface fuel)) bs vs" "[] \<notin> set bs" "fits (concat bs)" "0 < fuel"
  shows "reads (decodeInterface (Suc fuel)) (rlp_list (concat bs)) (VIface (Some (TSlice TIface, VList vs)))"
proof (rule readsI)
  let ?b = "rlp_list (concat bs)" and ?d = "decodeListSlice (\<lambda>_. decodeInterface fuel) (VIface None) []"
  fix s rd
  assume s: "kind s = None" "room s (length ?b)" "input s = ?b @ rd"
  obtain n s1 where k: "Stream_Kind s = ((ListK, n, None), s1)"
    using Stream_Kind_list [OF s e(3)] by auto
  have "stops (decodeInterface fuel)" using e(4)
    by (cases fuel) (simp_all add: stops_def Stream_Kind_at_end core_eq)
  then have "reads ?d ?b vs" using e by (intro reads_ListSlice) simp_all
  moreover have "?d s1 = ?d s" using peek_simps(4) [of s] k by (simp add: decodeListSlice_def)
  ultimately show "\<exists>s'. decodeInterface (Suc fuel) s = (Inr (VIface (Some (TSlice TIface, VList vs))), s')
      \<and> core s' = core (adv (length ?b) s)"
    using readsE [OF _ s] k by fastforce
qed

definition iface_good :: "rval \<Rightarrow> bool" where
  "iface_good v \<longleftrightarrow> (\<exists>k c. kind_ok k c \<and> rlp_of TIface no_tags v = Inr (rlp_enc k c)
     \<and> (fits (rlp_enc k c) \<longrightarrow> (\<forall>fuel > length (rlp_enc k c). reads (decodeInterface fuel) (rlp_enc k c) v)))"

lemma iface_elems:
  assumes "\<forall>v \<in> set vs. iface_good v"
  shows "\<exists>bs. rlp_elems TIface vs = Inr (concat bs) \<and> [] \<notin> set bs \<and> (fits (concat bs) \<longrightarrow>
     (\<forall>fuel > length (concat bs). list_all2 (reads (decodeInterface fuel)) bs vs))"
  using assms
proof (induction vs)
  case Nil
  then show ?case by (intro exI [of _ "[]"]) (simp add: rlp_elems.simps)
next
  case (Cons v vs)
  obtain bs where bs: "rlp_elems TIface vs = Inr (concat bs)" "[] \<notin> set bs"
    "fits (concat bs) \<longrightarrow> (\<forall>fuel > length (concat bs). list_all2 (reads (decodeInterface fuel)) bs vs)"
    using Cons by auto
  obtain k c where b: "rlp_of TIface no_tags v = Inr (rlp_enc k c)"
    "fits (rlp_enc k c) \<longrightarrow> (\<forall>fuel > length (rlp_enc k c). reads (decodeInterface fuel) (rlp_enc k c) v)"
    using Cons.prems by (auto simp: iface_good_def)
  show ?case using bs b
    by (intro exI [of _ "rlp_enc k c # bs"])
      (simp add: rlp_elems.simps [of TIface "v # vs"] rlp_enc_nonempty [symmetric])
qed

lemma iface_good_bytes: "iface_good (VIface (Some (TBytes, VBytes c)))"
proof -
  let ?k = "if single_byte c then ByteK else StringK"
  have "kind_ok ?k c" "rlp_enc ?k c = rlp_string c" by (auto simp: kind_ok_def rlp_enc_def)
  moreover have "rlp_of TIface no_tags (VIface (Some (TBytes, VBytes c))) = Inr (rlp_string c)"
    by (simp add: rlp_of.simps [of TIface] rlp_of.simps [of TBytes])
  moreover have "reads (decodeInterface fuel) (rlp_string c) (VIface (Some (TBytes, VBytes c)))"
    if "fits (rlp_string c)" "length (rlp_string c) < fuel" for fuel
    using that reads_Interface_string [of c "fuel - 1"] fits_string by (cases fuel) auto
  ultimately show ?thesis unfolding iface_good_def by metis
qed

lemma iface_good_list:
  assumes "\<forall>v \<in> set vs. iface_good v"
  shows "iface_good (VIface (Some (TSlice TIface, VList vs)))"
proof -
  obtain bs where bs: "rlp_elems TIface vs = Inr (concat bs)" "[] \<notin> set bs"
    "fits (concat bs) \<longrightarrow> (\<forall>fuel > length (concat bs). list_all2 (reads (decodeInterface fuel)) bs vs)"
    using iface_elems [OF assms] by blast
  have "kind_ok ListK (concat bs)" "rlp_enc ListK (concat bs) = rlp_list (concat bs)"
    by (auto simp: kind_ok_def rlp_enc_def)
  moreover have "rlp_of TIface no_tags (VIface (Some (TSlice TIface, VList vs))) = Inr (rlp_list (concat bs))"
    using bs(1) by (simp add: rlp_of.simps [of TIface] rlp_of.simps [of "TSlice TIface"] no_tags_def)
  moreover have "reads (decodeInterface fuel) (rlp_list (concat bs)) (VIface (Some (TSlice TIface, VList vs)))"
    if f: "fits (rlp_list (concat bs))" "length (rlp_list (concat bs)) < fuel" for fuel
  proof -
    have "length (concat bs) < length (rlp_list (concat bs))" by (simp add: rlp_list_def headsize_def)
    then obtain f where "fuel = Suc f" "length (concat bs) < f" "fits (concat bs)"
      using f by (cases fuel) auto
    then show ?thesis using bs reads_Interface_list [of f bs vs] by simp
  qed
  ultimately show ?thesis unfolding iface_good_def by metis
qed

lemma rt_ifaceE:
  assumes "rt_iface v"
  obtains (bytes) b where "v = VIface (Some (TBytes, VBytes b))"
  | (list) vs where "v = VIface (Some (TSlice TIface, VList vs))" "list_all rt_iface vs"
proof -
  obtain p where p: "v = VIface p" using assms unfolding rt_iface.simps [of v] by (cases v) simp_all
  have "p \<noteq> None" using assms unfolding rt_iface.simps [of v] by (cases p) (simp_all add: p)
  then obtain u x where v: "v = VIface (Some (u, x))" using p by (cases p) auto
  show thesis
  proof (cases u)
    case TBytes
    then show thesis using assms unfolding rt_iface.simps [of v] unfolding v by (cases x) (simp_all add: v bytes)
  next
    case (TSlice w)
    then have "w = TIface" using assms unfolding rt_iface.simps [of v] unfolding v by (cases w) simp_all
    then show thesis using TSlice assms unfolding rt_iface.simps [of v] unfolding v by (cases x) (simp_all add: v list)
  qed (use assms in \<open>unfold rt_iface.simps [of v], simp_all add: v\<close>)
qed

lemma rt_iface_good: "rt_iface v \<Longrightarrow> iface_good v"
proof (induction v rule: rt_iface.induct)
  case (1 v)
  from 1(2) show ?case
  proof (cases rule: rt_ifaceE)
    case (list vs)
    then show ?thesis using 1(1) by (simp add: list_all_iff iface_good_list)
  qed (simp add: iface_good_bytes)
qed

section \<open>The round trip\<close>

lemma fits_enc: "fits (rlp_enc k c) \<Longrightarrow> fits c"
  using fits_string [of c] by (auto simp: rlp_enc_def rlp_list_def split: if_splits)

lemma reads_to_end_map:
  assumes "reads_to_end f b a" and "\<And>s s'. f s = (Inr a, s') \<Longrightarrow> g s = (Inr c, s')"
  shows "reads_to_end g b c"
  using assms unfolding reads_to_end_def by meson

lemma rlp_enc_empty: "rlp_enc k [] = [if k = ListK then 0xC0 else 0x80]"
  by (simp add: rlp_enc_def rlp_list_def rlp_string_def single_byte_def puthead_def)

lemma good_Raw: "raw_ok b \<Longrightarrow> good TRaw ts (VRaw b)"
proof -
  assume "raw_ok b"
  then obtain k c where s: "fits b" "Split b = Inr (k, c, [])" "k = StringK \<longrightarrow> length c < 56"
    by (auto simp: raw_ok_def split: sum.splits)
  then have b: "kind_ok k c" "b = rlp_enc k c" using Split_iff [OF s(1)] by auto
  then have "fits c" using s(1) fits_enc by blast
  then have "reads (decoder TRaw ts (zero_val TRaw)) b (VRaw b)"
    using b s(3) by (auto simp: decodeRawValue_def intro!: reads_map [OF reads_Raw [of k c]])
  then show ?thesis using b by (auto simp: good_def rlp_of.simps [of TRaw])
qed

lemma good_Uint:
  assumes "n \<in> {8, 16, 32, 64}" "unat i < 2 ^ n"
  shows "good (TUint n) ts (VUint i)"
proof (rule good_string)
  show "rlp_of (TUint n) ts (VUint i) = Inr (rlp_string (be_bytes (unat i)))" by (simp add: rlp_of.simps [of "TUint n"])
  have "unat i < 256 ^ (n div 8)" "n div 8 \<le> 8" using assms by auto
  then show "reads (decoder (TUint n) ts (zero_val (TUint n))) (rlp_string (be_bytes (unat i))) (VUint i)"
    by (auto simp: decodeUint_def wrapped_def intro!: reads_map [OF reads_uint])
qed

lemma good_Bool: "good TBool ts (VBool x)"
proof (rule good_string)
  show "rlp_of TBool ts (VBool x) = Inr (rlp_string (if x then [1] else []))" by (simp add: rlp_of.simps [of TBool])
  show "reads (decoder TBool ts (zero_val TBool)) (rlp_string (if x then [1] else [])) (VBool x)"
    by (rule reads_map [OF reads_Bool]) (simp add: decodeBool_def wrapped_def)
qed

lemma good_String: "good TString ts (VString c)"
  by (rule good_string [where c = c])
    (auto simp: rlp_of.simps [of TString] decodeString_def wrapped_def intro!: reads_map [OF reads_Bytes])

lemma good_Bytes: "good TBytes ts (VBytes c)"
  by (rule good_string [where c = c])
    (auto simp: rlp_of.simps [of TBytes] decodeByteSlice_def wrapped_def intro!: reads_map [OF reads_Bytes])

lemma good_ByteArray: "c \<noteq> [0] \<Longrightarrow> good (TByteArray (length c)) ts (VBytes c)"
  by (rule good_string [where c = c])
    (simp_all add: rlp_of.simps [of "TByteArray (length c)"] reads_ByteArray)

lemma good_BigPtr: "0 \<le> i \<Longrightarrow> good TBigIntPtr ts (VBigPtr (Some i))"
  by (rule good_string [where c = "be_bytes (nat i)"])
    (auto simp: rlp_of.simps [of TBigIntPtr] intro!: reads_map [OF reads_BigInt])

lemma good_Big: "0 \<le> i \<Longrightarrow> good TBigInt ts (VBig i)"
  by (rule good_string [where c = "be_bytes (nat i)"])
    (auto simp: rlp_of.simps [of TBigInt] intro!: reads_map [OF reads_BigInt])

lemma good_Iface:
  assumes "rt_iface v"
  shows "good TIface ts v"
proof -
  obtain k c where k: "kind_ok k c" "rlp_of TIface no_tags v = Inr (rlp_enc k c)"
    "fits (rlp_enc k c) \<longrightarrow> (\<forall>fuel > length (rlp_enc k c). reads (decodeInterface fuel) (rlp_enc k c) v)"
    using rt_iface_good [OF assms] unfolding iface_good_def by blast
  have "rlp_of TIface ts v = rlp_of TIface no_tags v" by (simp add: rlp_of.simps [of TIface])
  moreover have "reads (decoder TIface ts (zero_val TIface)) (rlp_enc k c) v" if "fits (rlp_enc k c)"
  proof (rule readsI)
    fix s rd
    assume s: "kind s = None" "room s (length (rlp_enc k c))" "input s = rlp_enc k c @ rd"
    then have "length (rlp_enc k c) < slice_fuel s" by (simp add: slice_fuel_def)
    then show "\<exists>s'. decoder TIface ts (zero_val TIface) s = (Inr v, s') \<and> core s' = core (adv (length (rlp_enc k c)) s)"
      using k(3) that readsE [OF _ s, of "decodeInterface (slice_fuel s)" v] by auto
  qed
  ultimately show ?thesis using k unfolding good_def by metis
qed

lemma good_Slice:
  assumes "\<forall>v \<in> set vs. good t no_tags v" "genTypeInfo t"
  shows "field_good (TSlice t) ts (VList vs) \<and> (\<not> tail ts \<longrightarrow> good (TSlice t) ts (VList vs))"
proof -
  obtain bs where bs: "rlp_elems t vs = Inr (concat bs)" "[] \<notin> set bs"
    "fits (concat bs) \<longrightarrow> list_all2 (\<lambda>b v. reads (decoder t no_tags (zero_val t)) b v) bs vs"
    using elems_good [OF assms(1)] by blast
  note st = stops_decoder [OF assms(2)]
  have e: "elems_of (zero_val (TSlice t)) = []" by (simp add: elems_of_def)
  show ?thesis
  proof (cases "tail ts")
    case True
    then have "reads_to_end (decoder (TSlice t) ts (zero_val (TSlice t))) (concat bs) (VList vs)" if "fits (concat bs)"
      by (intro reads_to_end_map [OF reads_SliceElems [where d = "decoder t no_tags" and z = "zero_val t",
              OF bs(3) [rule_format, OF that] st bs(2)]]) (simp add: to_list_def e del: zero_val.simps)
    then show ?thesis using True bs(1) by (auto simp: field_good_def rlp_of.simps [of "TSlice t"])
  next
    case False
    then have "reads (decoder (TSlice t) ts (zero_val (TSlice t))) (rlp_list (concat bs)) (VList vs)" if "fits (concat bs)"
      by (intro reads_map [OF reads_ListSlice [where d = "decoder t no_tags" and z = "zero_val t",
              OF bs(3) [rule_format, OF that] st bs(2) that]]) (simp add: to_list_def e del: zero_val.simps)
    then have "good (TSlice t) ts (VList vs)"
      using False bs(1) by (intro good_list) (simp_all add: rlp_of.simps [of "TSlice t"])
    then show ?thesis using good_field by simp
  qed
qed

lemma good_Array:
  assumes "\<forall>v \<in> set vs. good t no_tags v" "\<not> tail ts"
  shows "good (TArray (length vs) t) ts (VList vs)"
proof -
  let ?t = "TArray (length vs) t"
  obtain bs where bs: "rlp_elems t vs = Inr (concat bs)"
    "fits (concat bs) \<longrightarrow> list_all2 (\<lambda>b v. reads (decoder t no_tags (zero_val t)) b v) bs vs"
    using elems_good [OF assms(1)] by blast
  have "reads (decoder ?t ts (zero_val ?t)) (rlp_list (concat bs)) (VList vs)" if "fits (concat bs)"
    by (intro reads_map [OF reads_ListArray [where d = "decoder t no_tags" and z = "zero_val t",
            OF bs(2) [rule_format, OF that] that]]) (simp add: to_list_def elems_of_def)
  then show ?thesis using assms(2) bs(1) by (intro good_list) (simp_all add: rlp_of.simps [of ?t])
qed

lemma map2_fields: "map fst gs = map fst fs \<Longrightarrow> map2 (\<lambda>f g. h (fst f) (snd g)) fs gs = map (\<lambda>g. h (fst g) (snd g)) gs"
proof (induction gs arbitrary: fs)
  case (Cons g gs)
  then show ?case by (cases fs) auto
qed simp

lemma good_Struct:
  assumes "structFields fs = Some gs" "list_all2 (\<lambda>g v. field_good (fst g) (snd g) v) gs vs"
  shows "good (TStruct fs) ts (VStruct vs)"
proof -
  let ?t = "TStruct fs"
  have gs: "fields_ok gs" "map fst gs = map fst fs" using structFields_ok [OF assms(1)] by auto
  obtain b where b: "rlp_fields gs vs = Inr b" "fits b \<longrightarrow>
      reads_to_end (struct_loop (map (\<lambda>g. decoder (fst g) (snd g)) gs) (map (\<lambda>g. zero_val (fst g)) gs)) b vs"
    using fields_good [OF assms(2) gs(1)] by blast
  have "map (zero_val \<circ> fst) gs = map (zero_val \<circ> fst) fs" using gs(2) by (metis map_map)
  then have z: "fields_of (zero_val ?t) = map (\<lambda>g. zero_val (fst g)) gs" by (simp add: fields_of_def comp_def)
  have "reads (decoder ?t ts (zero_val ?t)) (rlp_list b) (VStruct vs)" if "fits b"
    using reads_Struct [OF b(2) [rule_format, OF that] that] z assms(1)
    by (simp add: map2_fields [OF gs(2)] del: zero_val.simps)
  then show ?thesis using b(1) assms(1) by (intro good_list) (simp_all add: rlp_of.simps [of ?t])
qed

lemma good_Ptr:
  assumes g: "good t no_tags x" "genTypeInfo t"
    and o: "nilOK ts \<longrightarrow> peekable t \<and> rlp_of t no_tags x \<notin> {Inr [0x80], Inr [0xC0]}"
  shows "good (TPtr t) ts (VPtr (Some x))"
proof -
  obtain k c where k: "kind_ok k c" "rlp_of t no_tags x = Inr (rlp_enc k c)"
    "fits (rlp_enc k c) \<longrightarrow> reads (decoder t no_tags (zero_val t)) (rlp_enc k c) x"
    using g(1) unfolding good_def by blast
  have "reads (decoder (TPtr t) ts (zero_val (TPtr t))) (rlp_enc k c) (VPtr (Some x))" if f: "fits (rlp_enc k c)"
  proof (cases "nilOK ts")
    case True
    then have "c \<noteq> []" using k o by (cases "k = ListK") (auto simp: rlp_enc_empty)
    then show ?thesis
      using True o reads_OptionalPtr [where d = "decoder t no_tags" and x = "zero_val t", OF k(3) [rule_format, OF f] peeks_decoder [OF g(2)] k(1) fits_enc [OF f]]
      by (simp add: target_of_def)
  next
    case False
    then show ?thesis
      by (intro reads_map [OF k(3) [rule_format, OF f]]) (simp add: target_of_def decodePtr_def)
  qed
  moreover have "rlp_of (TPtr t) ts (VPtr (Some x)) = Inr (rlp_enc k c)" using k(2) by (simp add: rlp_of.simps [of "TPtr t"])
  ultimately show ?thesis using k(1) unfolding good_def by blast
qed

lemma good_Ptr_nil:
  assumes "nilOK ts" "rlp_of (TPtr t) ts (VPtr None) \<in> {Inr [0x80], Inr [0xC0]}"
  shows "good (TPtr t) ts (VPtr None)"
proof -
  obtain k where "kind_ok k []" "rlp_of (TPtr t) ts (VPtr None) = Inr (rlp_enc k [])"
    "rlp_enc k [] = [0x80] \<or> rlp_enc k [] = [0xC0]"
    using assms(2) that [of StringK] that [of ListK] by (auto simp: rlp_enc_empty kind_ok_def single_byte_def)
  moreover from this have "reads (decoder (TPtr t) ts (zero_val (TPtr t))) (rlp_enc k []) (VPtr None)"
    using assms(1) reads_OptionalPtr_nil by simp
  ultimately show ?thesis unfolding good_def by blast
qed

text \<open>
  The values of a type that decoding gives back: unsigned integers that fit their type, arrays of
  the length of the type, integers that are not negative; nil pointers where the tag allows them.
\<close>

function rt :: "rtype \<Rightarrow> tags \<Rightarrow> rval \<Rightarrow> bool" where
  "rt t ts v =
     (case (t, v) of
        (TRaw, VRaw b) \<Rightarrow> raw_ok b
      | (TUint n, VUint i) \<Rightarrow> n \<in> {8, 16, 32, 64} \<and> unat i < 2 ^ n
      | (TBool, VBool x) \<Rightarrow> True
      | (TString, VString s) \<Rightarrow> True
      | (TBytes, VBytes b) \<Rightarrow> True
      | (TByteArray n, VBytes b) \<Rightarrow> n = length b \<and> b \<noteq> [0]
      | (TBigIntPtr, VBigPtr p) \<Rightarrow> p \<noteq> None \<and> 0 \<le> the p
      | (TBigInt, VBig i) \<Rightarrow> 0 \<le> i
      | (TIface, _) \<Rightarrow> rt_iface v
      | (TSlice u, VList vs) \<Rightarrow> list_all (rt u no_tags) vs
      | (TArray n u, VList vs) \<Rightarrow> n = length vs \<and> list_all (rt u no_tags) vs
      | (TStruct fs, VStruct vs) \<Rightarrow>
          (case structFields fs of None \<Rightarrow> False
           | Some gs \<Rightarrow> length gs = length vs \<and> list_all (\<lambda>(g, x). rt (fst g) (snd g) x) (zip gs vs))
      | (TPtr u, VPtr p) \<Rightarrow>
          (case p of
             Some x \<Rightarrow> rt u no_tags x
               \<and> (nilOK ts \<longrightarrow> peekable u \<and> rlp_of u no_tags x \<notin> {Inr [0x80], Inr [0xC0]})
           | None \<Rightarrow> nilOK ts \<and> rlp_of t ts v \<in> {Inr [0x80], Inr [0xC0]})
      | _ \<Rightarrow> False)"
  by pat_completeness auto
termination
  by (relation "measure (\<lambda>(t, ts, v). size v)")
    (auto simp: less_Suc_eq_le dest!: set_zip_rightD intro!: size_list_estimation')

declare rt.simps [simp del]

lemma fields_okD: "fields_ok gs \<Longrightarrow> g \<in> set gs \<Longrightarrow> tail (snd g) \<longrightarrow> is_slice (fst g)"
  by (induction gs) auto

lemma structFields_info:
  assumes "structFields fs = Some gs" "list_all (\<lambda>f. genTypeInfo (fst f)) fs" "g \<in> set gs"
  shows "genTypeInfo (fst g)"
proof -
  have "fst g \<in> set (map fst fs)" using assms(3) structFields_ok [OF assms(1)] by (metis image_eqI set_map)
  then show ?thesis using assms(2) by (auto simp: list_all_iff)
qed

lemma rt_field_good:
  assumes "rt t ts v" "genTypeInfo t" "tail ts \<longrightarrow> is_slice t"
  shows "field_good t ts v \<and> (\<not> tail ts \<longrightarrow> good t ts v)"
  using assms
proof (induction t ts v rule: rt.induct)
  case (1 t ts v)
  note r = "1.prems"(1) [unfolded rt.simps [of t ts v]]
  show ?case
  proof (cases t)
    case (TSlice u)
    then obtain vs where "v = VList vs" using r by (cases v) simp_all
    then show ?thesis using r 1 TSlice good_Slice [of vs u ts]
      by (simp add: list_all_iff no_tags_def)
  next
    case (TArray n u)
    then obtain vs where "v = VList vs" using r by (cases v) simp_all
    then show ?thesis using r 1 TArray good_Array [of vs u ts]
      by (simp add: list_all_iff no_tags_def good_field)
  next
    case (TStruct fs)
    then obtain vs where v: "v = VStruct vs" using r by (cases v) simp_all
    obtain gs where gs: "structFields fs = Some gs" using "1.prems"(2) TStruct by auto
    have ok: "length gs = length vs" "\<forall>p \<in> set (zip gs vs). rt (fst (fst p)) (snd (fst p)) (snd p)"
      using r by (auto simp: TStruct v gs list_all_iff)
    have g: "genTypeInfo (fst g) \<and> (tail (snd g) \<longrightarrow> is_slice (fst g))" if "g \<in> set gs" for g
      using that structFields_info [OF gs] "1.prems"(2) fields_okD [of gs g] structFields_ok [OF gs] by (simp add: TStruct)
    have "field_good (fst (fst p)) (snd (fst p)) (snd p)" if p: "p \<in> set (zip gs vs)" for p
    proof -
      have "fst p \<in> set gs" using p set_zip_leftD [of "fst p" "snd p"] by simp
      from g [OF this] show ?thesis
        using "1.IH"(3) [of "TStruct fs" "VStruct vs" fs vs gs p "fst p" "snd p"] p ok(2) by (simp add: TStruct v gs)
    qed
    then have "list_all2 (\<lambda>g x. field_good (fst g) (snd g) x) gs vs"
      using ok(1) by (auto simp: list_all2_iff)
    then show ?thesis using good_Struct [OF gs] good_field by (simp add: TStruct v)
  next
    case (TPtr u)
    then obtain p where "v = VPtr p" using r by (cases v) simp_all
    then show ?thesis using r 1 TPtr good_Ptr [of u _ ts] good_Ptr_nil [of ts u]
      by (cases p) (simp_all add: no_tags_def good_field)
  next
    case TIface
    then show ?thesis using r good_Iface good_field by simp
  qed (use r in \<open>(cases v; auto simp: good_field good_Raw good_Uint good_Bool good_String good_Bytes good_ByteArray
        good_BigPtr good_Big)+\<close>)
qed

text \<open>A decoder that reads its own encoding off a stream leaves \<^verbatim>\<open>DecodeBytes\<close> with nothing over.\<close>

lemma DecodeBytes_reads:
  assumes d: "reads (decoder t no_tags v0) b v" "genTypeInfo t" and b: "fits b"
  shows "DecodeBytes b t v0 = Inr v"
proof -
  let ?s = "NewStream b True (of_nat (length b))"
  have "limited ?s" "remaining ?s = of_nat (length b)" "stack ?s = []" "kind ?s = None" "input ?s = b @ []"
    by (auto simp: NewStream_def Reset_def Let_def)
  then have s: "kind ?s = None" "room ?s (length b)" "input ?s = b @ []"
    using b unat_length [OF b] by (auto simp: room_def)
  obtain s' where "decoder t no_tags v0 ?s = (Inr v, s')" "core s' = core (adv (length b) ?s)"
    using readsE [OF d(1) s] by blast
  then show ?thesis using d(2) s(3) by (simp add: DecodeBytes_def Stream_Decode_def core_eq adv_def)
qed

lemma DecodeBytes_EncodeToBytes:
  assumes "genTypeInfo t" "rt t no_tags v" "\<And>b. rlp_of t no_tags v = Inr b \<Longrightarrow> fits b"
  shows "\<exists>b. EncodeToBytes eb t v = Inr b \<and> DecodeBytes b t (zero_val t) = Inr v"
proof -
  have "good t no_tags v" using rt_field_good [OF assms(2,1)] by (simp add: no_tags_def)
  then obtain b where b: "rlp_of t no_tags v = Inr b" "fits b \<longrightarrow> reads (decoder t no_tags (zero_val t)) b v"
    unfolding good_def by blast
  have "EncodeToBytes eb t v = Inr b" using EncodeToBytes_reference [of t v eb] assms b(1) by simp
  then show ?thesis using DecodeBytes_reads assms(1,3) b by blast
qed

end
