(* ===== verification/Rlp_Types.thy ===== *)
theory Rlp_Types
  imports Rlp_Decode
begin

text \<open>
  Decoding is type safe: what a decoder stores is a value of the Go type it was made for, whatever
  the input. Unsigned integers fit their width, arrays keep their length, structs their fields.
\<close>

section \<open>Values of a type\<close>

function has_type :: "rtype \<Rightarrow> rval \<Rightarrow> bool" where
  "has_type t v =
     (case (t, v) of
        (TRaw, VRaw b) \<Rightarrow> True
      | (TUint n, VUint i) \<Rightarrow> unat i < 2 ^ n
      | (TBool, VBool x) \<Rightarrow> True
      | (TString, VString s) \<Rightarrow> True
      | (TBytes, VBytes b) \<Rightarrow> True
      | (TByteArray n, VBytes b) \<Rightarrow> length b = n
      | (TBigIntPtr, VBigPtr p) \<Rightarrow> True
      | (TBigInt, VBig i) \<Rightarrow> True
      | (TIface, VIface p) \<Rightarrow> (case p of None \<Rightarrow> True | Some (u, x) \<Rightarrow> has_type u x)
      | (TSlice u, VList vs) \<Rightarrow> list_all (has_type u) vs
      | (TArray n u, VList vs) \<Rightarrow> length vs = n \<and> list_all (has_type u) vs
      | (TStruct fs, VStruct vs) \<Rightarrow> length fs = length vs \<and> list_all (\<lambda>(f, x). has_type (fst f) x) (zip fs vs)
      | (TPtr u, VPtr p) \<Rightarrow> (case p of None \<Rightarrow> True | Some x \<Rightarrow> has_type u x)
      | _ \<Rightarrow> False)"
  by pat_completeness auto
termination
  by (relation "measure (\<lambda>(t, v). size v)")
    (auto simp: less_Suc_eq_le dest!: set_zip_rightD intro!: size_list_estimation')

declare has_type.simps [simp del]

text \<open>The widths Go has for unsigned integers.\<close>

fun wf_type :: "rtype \<Rightarrow> bool" where
  "wf_type (TUint n) = (n \<in> {8, 16, 32, 64})"
| "wf_type (TSlice t) = wf_type t"
| "wf_type (TArray n t) = wf_type t"
| "wf_type (TStruct fs) = list_all (\<lambda>f. wf_type (fst f)) fs"
| "wf_type (TPtr t) = wf_type t"
| "wf_type t = True"

definition yields :: "('a \<Rightarrow> bool) \<Rightarrow> (Stream \<Rightarrow> 'a result) \<Rightarrow> bool" where
  "yields P f \<longleftrightarrow> (\<forall>s x s'. f s = (Inr x, s') \<longrightarrow> P x)"

lemma yieldsD: "yields P f \<Longrightarrow> f s = (Inr x, s') \<Longrightarrow> P x"
  by (auto simp: yields_def)

lemma has_type_simps:
  "has_type TRaw (VRaw b)" "has_type (TUint n) (VUint i) \<longleftrightarrow> unat i < 2 ^ n" "has_type TBool (VBool x)"
  "has_type TString (VString b)" "has_type TBytes (VBytes b)" "has_type (TByteArray n) (VBytes b) \<longleftrightarrow> length b = n"
  "has_type TBigIntPtr (VBigPtr p)" "has_type TBigInt (VBig j)"
  "has_type TIface (VIface None)" "has_type TIface (VIface (Some (u, v))) \<longleftrightarrow> has_type u v"
  "has_type (TSlice u) (VList vs) \<longleftrightarrow> list_all (has_type u) vs"
  "has_type (TArray n u) (VList vs) \<longleftrightarrow> length vs = n \<and> list_all (has_type u) vs"
  "has_type (TStruct fs) (VStruct vs) \<longleftrightarrow> list_all2 (\<lambda>f. has_type (fst f)) fs vs"
  "has_type (TPtr u) (VPtr None)" "has_type (TPtr u) (VPtr (Some v)) \<longleftrightarrow> has_type u v"
  by (simp_all add: has_type.simps [of TRaw] has_type.simps [of "TUint n"] has_type.simps [of TBool]
      has_type.simps [of TString] has_type.simps [of TBytes] has_type.simps [of "TByteArray n"]
      has_type.simps [of TBigIntPtr] has_type.simps [of TBigInt] has_type.simps [of TIface]
      has_type.simps [of "TSlice u"] has_type.simps [of "TArray n u"] has_type.simps [of "TStruct fs"]
      has_type.simps [of "TPtr u"] list_all2_iff list_all_iff)

section \<open>Integers\<close>

lemma unat_ucast_byte: "unat (ucast (b :: u8) :: u64) < 256"
proof -
  have "unat b < 2 ^ 8" using unat_u8_less [of b] by simp
  then show ?thesis by (simp add: unsigned_ucast_eq take_bit_nat_eq_self)
qed

lemma readUint_bound:
  assumes "readUint sz s = (Inr v, s')" "unat sz \<le> 8"
  shows "unat v < 256 ^ unat sz"
proof -
  consider "sz = 0" | "sz = 1" | "sz \<noteq> 0" "sz \<noteq> 1" by blast
  then show ?thesis
  proof cases
    case 2
    then obtain b :: u8 where "v = ucast b" using assms(1) by (auto simp: readUint_def split: prod.splits sum.splits)
    then show ?thesis using 2 unat_ucast_byte by simp
  next
    case 3
    then obtain b where b: "v = word_of_nat (be_val b)" "length b = unat sz"
      using assms(1) by (auto simp: readUint_def readFull_def Let_def split: prod.splits sum.splits option.splits if_splits)
    have "be_val b < 256 ^ unat sz" using be_val_less [of b] b(2) by simp
    moreover have "(256::nat) ^ unat sz \<le> 256 ^ 8" using assms(2) by (intro power_increasing) simp_all
    ultimately show ?thesis by (simp add: b(1) unsigned_of_nat take_bit_nat_eq_self)
  qed (use assms in \<open>auto simp: readUint_def\<close>)
qed

lemma uint_bound:
  assumes "Stream_uint bits s = (Inr v, s')" "bits \<in> {8, 16, 32, 64}"
  shows "unat v < 2 ^ bits"
proof -
  obtain k n e s1 where k: "Stream_Kind s = ((k, n, e), s1)" by (metis prod.collapse)
  have e: "e = None" using assms(1) by (cases e; cases k) (auto simp: Stream_uint_def k)
  show ?thesis
  proof (cases k)
    case ByteK
    then have "v = ucast (byteval s1)" using assms(1) by (auto simp: Stream_uint_def k e split: if_splits)
    then have "unat v < 2 ^ 8" using unat_ucast_byte by simp
    also have "(2::nat) ^ 8 \<le> 2 ^ bits" using assms(2) by (intro power_increasing) auto
    finally show ?thesis .
  next
    case StringK
    then have n: "unat n \<le> bits div 8"
      using assms by (auto simp: Stream_uint_def k e word_less_nat_alt not_less split: if_splits)
    then have "unat n \<le> 8" using assms(2) by auto
    then have u: "unat (ucast n :: u8) = unat n" by (simp add: unsigned_ucast_eq take_bit_nat_eq_self)
    have "\<exists>s2. readUint (ucast n) s1 = (Inr v, s2)"
      using assms(1) StringK by (auto simp: Stream_uint_def k e split: if_splits prod.splits sum.splits)
    then have "unat v < 256 ^ unat n" using readUint_bound u \<open>unat n \<le> 8\<close> by metis
    also have "(256::nat) ^ unat n \<le> 256 ^ (bits div 8)" using n by (intro power_increasing) simp_all
    also have "(256::nat) ^ (bits div 8) = 2 ^ bits" using assms(2) by auto
    finally show ?thesis .
  next
    case ListK
    then show ?thesis using assms(1) by (simp add: Stream_uint_def k e)
  qed
qed

section \<open>Decoders\<close>

lemma yields_wrapped: "(\<And>s a s'. g s = (Inr a, s') \<Longrightarrow> P (f a)) \<Longrightarrow> yields P (\<lambda>s. wrapped f (g s))"
  unfolding yields_def wrapped_def by (auto split: prod.splits sum.splits)

lemma yields_ByteArray: "yields (has_type (TByteArray n)) (decodeByteArray n)"
  unfolding yields_def
proof (intro allI impI)
  fix s x s'
  assume d: "decodeByteArray n s = (Inr x, s')"
  obtain k m e s1 where k: "Stream_Kind s = ((k, m, e), s1)" by (metis prod.collapse)
  have f: "length b = n" if "readFull n s1 = (Inr b, s2)" for b s2
    using that by (auto simp: readFull_def Let_def split: prod.splits option.splits if_splits)
  show "has_type (TByteArray n) x"
    using d f by (cases e; cases k) (auto simp: decodeByteArray_def k has_type_simps split: if_splits prod.splits sum.splits)
qed

lemma yields_slice_loop:
  assumes "\<And>v. P v \<Longrightarrow> yields P (d v)" "P z" "list_all P old"
  shows "yields (list_all P) (slice_loop fuel d z old)"
  using assms(3)
proof (induction fuel arbitrary: old)
  case 0
  then show ?case by (simp add: yields_def)
next
  case (Suc fuel)
  let ?v = "case old of [] \<Rightarrow> z | v # _ \<Rightarrow> v"
  have v: "P ?v" using Suc.prems assms(2) by (cases old) auto
  have tl: "list_all P (tl old)" using Suc.prems by (cases old) auto
  show ?case unfolding yields_def
  proof (intro allI impI)
    fix s x s'
    assume r: "slice_loop (Suc fuel) d z old s = (Inr x, s')"
    obtain q s1 where q: "d ?v s = (q, s1)" by (metis prod.collapse)
    obtain t s2 where t: "slice_loop fuel d z (tl old) s1 = (t, s2)" by (metis prod.collapse)
    show "list_all P x"
    proof (cases q)
      case (Inl e)
      then show ?thesis using r q by (simp split: if_splits)
    next
      case (Inr y)
      then have "P y" using yieldsD [OF assms(1) [OF v]] q by simp
      then show ?thesis using r q t Inr yieldsD [OF Suc.IH [OF tl]] by (cases t) auto
    qed
  qed
qed

lemma yields_ListSlice:
  assumes "\<And>v. P v \<Longrightarrow> yields P (d v)" "P z" "list_all P old"
  shows "yields (list_all P) (decodeListSlice d z old)" "yields (list_all P) (decodeSliceElems d z old)"
proof -
  show e: "yields (list_all P) (decodeSliceElems d z old)"
    using yields_slice_loop [where d = d, OF assms] by (simp add: yields_def decodeSliceElems_def)
  show "yields (list_all P) (decodeListSlice d z old)"
    using e unfolding yields_def decodeListSlice_def
    by (auto split: prod.splits sum.splits option.splits if_splits)
qed

lemma yields_array_loop:
  assumes "\<And>v. P v \<Longrightarrow> yields P (d v)" "list_all P old"
  shows "yields (\<lambda>vs. length vs = length old \<and> list_all P vs) (array_loop d old)"
  using assms(2)
proof (induction old)
  case Nil
  then show ?case by (simp add: yields_def)
next
  case (Cons v old)
  show ?case unfolding yields_def
  proof (intro allI impI)
    fix s x s'
    assume r: "array_loop d (v # old) s = (Inr x, s')"
    obtain q s1 where q: "d v s = (q, s1)" by (metis prod.collapse)
    obtain t s2 where t: "array_loop d old s1 = (t, s2)" by (metis prod.collapse)
    have "P y" if "q = Inr y" for y using yieldsD [OF assms(1)] Cons.prems q that by fastforce
    moreover have "length ys = length old \<and> list_all P ys" if "t = Inr ys" for ys
      using yieldsD [OF Cons.IH t [unfolded that]] Cons.prems by simp
    moreover obtain y ys where "q = Inr y" "t = Inr ys" "x = y # ys" using r q t by (cases q; cases t) auto
    ultimately show "length x = length (v # old) \<and> list_all P x" by simp
  qed
qed

lemma yields_struct_loop:
  assumes "list_all2 (\<lambda>P d. \<forall>v. P v \<longrightarrow> yields P (d v)) Ps ds" "list_all2 (\<lambda>P v. P v) Ps old"
  shows "yields (list_all2 (\<lambda>P v. P v) Ps) (struct_loop ds old)"
  using assms
proof (induction Ps ds arbitrary: old rule: list_all2_induct)
  case Nil
  then show ?case by (simp add: yields_def)
next
  case (Cons P Ps d ds)
  obtain v vs where old: "old = v # vs" "P v" "list_all2 (\<lambda>P v. P v) Ps vs"
    using Cons.prems by (cases old) auto
  show ?case unfolding yields_def old(1)
  proof (intro allI impI)
    fix s x s'
    assume r: "struct_loop (d # ds) (v # vs) s = (Inr x, s')"
    obtain q s1 where q: "d v s = (q, s1)" by (metis prod.collapse)
    obtain t s2 where t: "struct_loop ds vs s1 = (t, s2)" by (metis prod.collapse)
    have "P y" if "q = Inr y" for y using yieldsD Cons.hyps(1) old(2) q that by fastforce
    moreover have "list_all2 (\<lambda>P v. P v) Ps ys" if "t = Inr ys" for ys
      by (rule yieldsD [OF Cons.IH [OF old(3)] t [unfolded that]])
    moreover obtain y ys where "q = Inr y" "t = Inr ys" "x = y # ys" using r q t by (cases q; cases t) auto
    ultimately show "list_all2 (\<lambda>P v. P v) (P # Ps) x" by simp
  qed
qed

lemma yields_Interface: "yields (has_type TIface) (decodeInterface fuel)"
proof (induction fuel)
  case (Suc fuel)
  have l: "yields (list_all (has_type TIface)) (decodeListSlice (\<lambda>_. decodeInterface fuel) (VIface None) [])"
    by (rule yields_ListSlice) (simp_all add: Suc has_type_simps)
  show ?case unfolding yields_def
    by (auto simp: has_type_simps dest: yieldsD [OF l] split: prod.splits sum.splits option.splits if_splits)
qed (simp add: yields_def)

lemma has_zero: "genTypeInfo t \<Longrightarrow> has_type t (zero_val t)"
proof (induction t)
  case (TArray n t)
  then show ?case by (simp add: has_type_simps list_all_iff)
next
  case (TStruct fs)
  then have "has_type (fst f) (zero_val (fst f))" if "f \<in> set fs" for f
    using that by (cases f) (auto simp: list_all_iff)
  then show ?case by (simp add: has_type_simps list_all2_conv_all_nth)
qed (simp_all add: has_type_simps)

lemma yields_map: "yields P f \<Longrightarrow> (\<And>x. P x \<Longrightarrow> Q (h x)) \<Longrightarrow>
   (\<And>s. g s = (case f s of (Inl e, s1) \<Rightarrow> (Inl e, s1) | (Inr x, s1) \<Rightarrow> (Inr (h x), s1))) \<Longrightarrow> yields Q g"
  unfolding yields_def by (fastforce split: prod.splits sum.splits)

lemma yields_True: "yields (\<lambda>_. True) f"
  by (simp add: yields_def)

lemma yields_simple:
  "yields (has_type TRaw) decodeRawValue" "n \<in> {8, 16, 32, 64} \<Longrightarrow> yields (has_type (TUint n)) (decodeUint n)"
  "yields (has_type TBool) decodeBool" "yields (has_type TString) decodeString" "yields (has_type TBytes) decodeByteSlice"
proof -
  show "yields (has_type TRaw) decodeRawValue"
    by (rule yields_map [OF yields_True, where f = Stream_Raw and h = VRaw]) (simp_all add: has_type_simps decodeRawValue_def)
  have w: "decodeUint n = (\<lambda>s. wrapped VUint (Stream_uint n s))" "decodeBool = (\<lambda>s. wrapped VBool (Stream_Bool s))"
    "decodeString = (\<lambda>s. wrapped VString (Stream_Bytes s))" "decodeByteSlice = (\<lambda>s. wrapped VBytes (Stream_Bytes s))"
    by (simp_all add: fun_eq_iff decodeUint_def decodeBool_def decodeString_def decodeByteSlice_def)
  show "yields (has_type (TUint n)) (decodeUint n)" if "n \<in> {8, 16, 32, 64}"
    unfolding w by (rule yields_wrapped) (use that uint_bound in \<open>auto simp: has_type_simps\<close>)
  show "yields (has_type TBool) decodeBool" "yields (has_type TString) decodeString" "yields (has_type TBytes) decodeByteSlice"
    unfolding w by (rule yields_wrapped, simp add: has_type_simps)+
qed

lemma yields_Struct:
  assumes "yields (list_all2 (\<lambda>P v. P v) Ps) (struct_loop ds old)" "\<And>vs. list_all2 (\<lambda>P v. P v) Ps vs \<Longrightarrow> Q (VStruct vs)"
  shows "yields Q (decodeStruct ds old)"
  using assms unfolding yields_def decodeStruct_def by (fastforce split: prod.splits sum.splits option.splits)

lemma structFields_length: "structFields fs = Some gs \<Longrightarrow> length gs = length fs"
  by (induction fs arbitrary: gs) (auto split: option.splits prod.splits)

lemma yields_OptionalPtr:
  "yields (has_type t) (d x) \<Longrightarrow> yields (has_type (TPtr t)) (decodePtr d x) \<and> yields (has_type (TPtr t)) (decodeOptionalPtr d x)"
  unfolding yields_def decodePtr_def decodeOptionalPtr_def
  by (fastforce simp: has_type_simps split: prod.splits sum.splits option.splits if_splits)

lemma has_typeE:
  "has_type (TSlice t) v \<Longrightarrow> \<exists>vs. v = VList vs \<and> list_all (has_type t) vs"
  "has_type (TArray n t) v \<Longrightarrow> \<exists>vs. v = VList vs \<and> length vs = n \<and> list_all (has_type t) vs"
  "has_type (TStruct fs) v \<Longrightarrow> \<exists>vs. v = VStruct vs \<and> list_all2 (\<lambda>f. has_type (fst f)) fs vs"
  "has_type (TPtr t) v \<Longrightarrow> \<exists>p. v = VPtr p \<and> (\<forall>x. p = Some x \<longrightarrow> has_type t x)"
  by (cases v; simp add: has_type.simps [of "TSlice t"] has_type.simps [of "TArray n t"]
      has_type.simps [of "TStruct fs"] has_type.simps [of "TPtr t"] list_all2_iff list_all_iff split: option.splits)+

lemma yields_decoder:
  "genTypeInfo t \<Longrightarrow> wf_type t \<Longrightarrow> has_type t v \<Longrightarrow> yields (has_type t) (decoder t ts v)"
proof (induction t arbitrary: ts v)
  case (TSlice t)
  obtain vs where v: "v = VList vs" "list_all (has_type t) vs" using has_typeE(1) [OF TSlice.prems(3)] by blast
  have d: "yields (has_type t) (decoder t no_tags x)" if "has_type t x" for x using TSlice that by simp
  have z: "has_type t (zero_val t)" using has_zero TSlice.prems(1) by simp
  have "yields (list_all (has_type t)) ((if tail ts then decodeSliceElems else decodeListSlice) (decoder t no_tags) (zero_val t) vs)"
    using yields_ListSlice [where d = "decoder t no_tags", OF d z v(2)] by simp
  then show ?case by (rule yields_map [where h = VList]) (simp_all add: has_type_simps to_list_def elems_of_def v(1))
next
  case (TArray n t)
  obtain vs where v: "v = VList vs" "length vs = n" "list_all (has_type t) vs"
    using has_typeE(2) [OF TArray.prems(3)] by blast
  have d: "yields (has_type t) (decoder t no_tags x)" if "has_type t x" for x using TArray that by simp
  have "yields (\<lambda>vs. length vs = n \<and> list_all (has_type t) vs) (decodeListArray (decoder t no_tags) vs)"
    using yields_array_loop [where d = "decoder t no_tags", OF d v(3)] v(2)
    unfolding yields_def decodeListArray_def by (auto split: prod.splits sum.splits option.splits)
  then show ?case by (rule yields_map [where h = VList]) (simp_all add: has_type_simps to_list_def elems_of_def v(1))
next
  case (TStruct fs)
  obtain vs where v: "v = VStruct vs" "list_all2 (\<lambda>f. has_type (fst f)) fs vs" using has_typeE(3) [OF TStruct.prems(3)] by blast
  obtain gs where gs: "structFields fs = Some gs" using TStruct.prems(1) by auto
  let ?Ps = "map (\<lambda>f. has_type (fst f)) fs" and ?ds = "map2 (\<lambda>f g. decoder (fst f) (snd g)) fs gs"
  have "yields (has_type (fst f)) (decoder (fst f) us x)" if "f \<in> set fs" "has_type (fst f) x" for f us x
    using that(2) TStruct.IH [OF that(1) fsts.intros] TStruct.prems that(1)
    by (simp add: list_all_iff)
  then have "list_all2 (\<lambda>P d. \<forall>v. P v \<longrightarrow> yields P (d v)) ?Ps ?ds"
    using structFields_length [OF gs] by (simp add: list_all2_conv_all_nth)
  then have "yields (list_all2 (\<lambda>P v. P v) ?Ps) (struct_loop ?ds vs)"
    by (rule yields_struct_loop) (use v(2) in \<open>simp add: list_all2_map1\<close>)
  then have "yields (has_type (TStruct fs)) (decodeStruct ?ds vs)"
    by (rule yields_Struct) (simp add: has_type_simps list_all2_map1)
  then show ?case by (simp add: gs fields_of_def v(1))
next
  case (TPtr t)
  obtain p where v: "v = VPtr p" "\<forall>x. p = Some x \<longrightarrow> has_type t x" using has_typeE(4) [OF TPtr.prems(3)] by blast
  have "has_type t (target_of t v)" using v has_zero TPtr.prems(1) by (cases p) (simp_all add: target_of_def)
  then have "yields (has_type t) (decoder t no_tags (target_of t v))" using TPtr by simp
  then show ?case using yields_OptionalPtr [where d = "decoder t no_tags"] by simp
next
  case TIface
  then show ?case using yields_Interface by (simp add: yields_def)
next
  case TBigIntPtr
  show ?case by (rule yields_map [OF yields_True, where f = decodeBigInt and h = "\<lambda>i. VBigPtr (Some i)"]) (simp_all add: has_type_simps)
next
  case TBigInt
  show ?case by (rule yields_map [OF yields_True, where f = decodeBigInt and h = VBig]) (simp_all add: has_type_simps)
qed (simp_all add: yields_simple yields_ByteArray)

end
