(* ===== verification/Rlp_Fuel.thy ===== *)
theory Rlp_Fuel
  imports Rlp_Decode
begin

text \<open>
  The loops of the decoder end. Every element of a slice takes something off the stream: a byte of
  the input, or the kind that was read ahead. So the fuel of \<open>slice_loop\<close> and \<open>decodeInterface\<close> is
  never used up. There is one exception, arrays of one byte as elements of a slice: a zero byte is
  left where it is, and the loop of \<^verbatim>\<open>decodeSliceElems\<close> does not end.
\<close>

section \<open>What is left on a stream\<close>

definition left :: "Stream \<Rightarrow> nat" where
  "left s = length (input s) + (if kind s \<noteq> None \<and> kinderr s = None then 1 else 0)"

definition ok :: "Stream \<Rightarrow> bool" where
  "ok s \<longleftrightarrow> kinderr s \<noteq> Some OutOfFuel"

text \<open>
  On streams with at most \<open>n\<close> left, an operation \<open>spends\<close>: it does not run out of fuel, it leaves no
  more than there was, and, when \<open>p\<close> holds, it leaves less each time it succeeds.
\<close>

definition cost :: "bool \<Rightarrow> rlp_err + 'a \<Rightarrow> nat" where
  "cost p r = (case r of Inl e \<Rightarrow> 0 | Inr x \<Rightarrow> if p then 1 else 0)"

lemma cost_simps [simp]: "cost p (Inl e) = 0" "cost p (Inr x) = (if p then 1 else 0)"
  by (simp_all add: cost_def)

definition spends :: "bool \<Rightarrow> nat \<Rightarrow> (Stream \<Rightarrow> 'a result) \<Rightarrow> bool" where
  "spends p n f \<longleftrightarrow> (\<forall>s r s'. left s \<le> n \<longrightarrow> ok s \<longrightarrow> f s = (r, s') \<longrightarrow>
     r \<noteq> Inl OutOfFuel \<and> ok s' \<and> left s' + cost p r \<le> left s)"

lemma spendsI:
  assumes "\<And>s r s'. left s \<le> n \<Longrightarrow> ok s \<Longrightarrow> f s = (r, s') \<Longrightarrow>
     r \<noteq> Inl OutOfFuel \<and> ok s' \<and> left s' + cost p r \<le> left s"
  shows "spends p n f"
  using assms unfolding spends_def by blast

lemma spendsD:
  assumes "spends p n f" "left s \<le> n" "ok s" "f s = (r, s')"
  shows "r \<noteq> Inl OutOfFuel" "ok s'" "left s' + cost p r \<le> left s" "left s' \<le> left s" "left s' \<le> n"
  using assms unfolding spends_def by fastforce+

lemma spends_mono: "spends p n f \<Longrightarrow> m \<le> n \<Longrightarrow> (q \<longrightarrow> p) \<Longrightarrow> spends q m f"
proof (rule spendsI)
  fix s r s'
  assume a: "spends p n f" "m \<le> n" "q \<longrightarrow> p" "left s \<le> m" "ok s" "f s = (r, s')"
  have "cost q r \<le> cost p r" using a(3) by (simp add: cost_def split: sum.splits)
  then show "r \<noteq> Inl OutOfFuel \<and> ok s' \<and> left s' + cost q r \<le> left s"
    using spendsD [OF a(1) _ a(5,6)] a(2,4) by auto
qed

lemmas spends_weaken = spends_mono [OF _ le_refl]

section \<open>Operations of the stream\<close>

lemma willRead_left: "willRead n s = (r, s') \<Longrightarrow> r \<noteq> Some OutOfFuel \<and> kinderr s' = kinderr s \<and> kind s' = None \<and> input s' = input s"
  by (auto simp: willRead_def Let_def split: list.splits if_splits prod.splits option.splits)

lemma readByte_left:
  "readByte s = (r, s') \<Longrightarrow> r \<noteq> Inl OutOfFuel \<and> kinderr s' = kinderr s \<and> kind s' = None
     \<and> length (input s') + (case r of Inl e \<Rightarrow> 0 | Inr b \<Rightarrow> 1) \<le> length (input s)"
  by (auto simp: readByte_def dest!: willRead_left split: prod.splits option.splits list.splits)

lemma readFull_left:
  "readFull n s = (r, s') \<Longrightarrow> r \<noteq> Inl OutOfFuel \<and> kinderr s' = kinderr s \<and> kind s' = None
     \<and> length (input s') \<le> length (input s)"
  by (auto simp: readFull_def Let_def dest!: willRead_left split: prod.splits option.splits if_splits)

lemma readUint_left:
  "readUint n s = (r, s') \<Longrightarrow> r \<noteq> Inl OutOfFuel \<and> kinderr s' = kinderr s \<and> kind s' = None
     \<and> length (input s') \<le> length (input s)"
  by (auto simp: readUint_def dest!: readByte_left readFull_left split: prod.splits sum.splits if_splits)

lemma readKind_left:
  assumes "Stream_readKind s = ((k, n, e), s')"
  shows "e \<noteq> Some OutOfFuel \<and> kinderr s' = kinderr s
     \<and> length (input s') + (if e = None then 1 else 0) \<le> length (input s)"
proof (cases "readByte s")
  case (Pair r s1)
  show ?thesis
  proof (cases r)
    case (Inl x)
    then show ?thesis using assms Pair readByte_left [OF Pair] by (auto simp: Stream_readKind_def split: if_splits)
  next
    case (Inr b)
    note rb = readByte_left [OF Pair]
    then show ?thesis using assms Pair Inr
      by (auto simp: Stream_readKind_def Let_def dest!: readUint_left split: if_splits prod.splits sum.splits)
  qed
qed

lemma Kind_left:
  assumes "Stream_Kind s = ((k, n, e), s')" "ok s"
  shows "e \<noteq> Some OutOfFuel \<and> ok s' \<and> left s' \<le> left s \<and> (e = None \<longrightarrow> kind s' \<noteq> None \<and> kinderr s' = None)"
proof (cases "kind s")
  case (Some k')
  then show ?thesis using assms by (auto simp: Stream_Kind_def ok_def)
next
  case None
  let ?s = "s\<lparr>kinderr := None\<rparr>"
  obtain k1 n1 e1 s1 where r: "Stream_readKind ?s = ((k1, n1, e1), s1)" by (metis prod.collapse)
  show ?thesis
  proof (cases "case stack ?s of [] \<Rightarrow> False | (pos, sz) # st \<Rightarrow> pos = sz")
    case True
    then show ?thesis using assms(1) None by (auto simp: Stream_Kind_def Let_def ok_def left_def)
  next
    case False
    then show ?thesis using assms(1) None readKind_left [OF r] r
      by (auto simp: Stream_Kind_def Let_def ok_def left_def split: if_splits list.splits)
  qed
qed

text \<open>Past the kind, each operation forgets it or fails.\<close>

lemma left_None: "kind s = None \<Longrightarrow> left s = length (input s)"
  by (simp add: left_def)

lemma ok_None: "kinderr s = None \<Longrightarrow> ok s"
  by (simp add: ok_def)

lemma Kind_cases:
  assumes "ok s" "Stream_Kind s = ((k, n, e), s')"
  shows "case e of None \<Rightarrow> kinderr s' = None \<and> length (input s') < left s \<and> left s' \<le> left s
     | Some x \<Rightarrow> x \<noteq> OutOfFuel \<and> ok s' \<and> left s' \<le> left s"
  using Kind_left [OF assms(2,1)] by (cases e) (auto simp: left_def [of s'])

lemma List_left:
  assumes "ok s" "Stream_List s = (r, s')"
  shows "r \<noteq> Inl OutOfFuel \<and> ok s' \<and> left s' + cost True r \<le> left s"
proof -
  obtain k n e s1 where k: "Stream_Kind s = ((k, n, e), s1)" by (metis prod.collapse)
  show ?thesis using assms(2) Kind_cases [OF assms(1) k]
    by (cases e) (auto simp: Stream_List_def k left_None ok_None split: if_splits)
qed

lemma ListEnd_left:
  "ok s \<Longrightarrow> ListEnd s = (r, s') \<Longrightarrow> r \<noteq> Some OutOfFuel \<and> ok s' \<and> left s' \<le> left s"
  by (auto simp: ListEnd_def ok_def left_def split: list.splits if_splits)

lemma Bytes_left:
  assumes "ok s" "Stream_Bytes s = (r, s')"
  shows "r \<noteq> Inl OutOfFuel \<and> ok s' \<and> left s' + cost True r \<le> left s"
proof -
  obtain k n e s1 where k: "Stream_Kind s = ((k, n, e), s1)" by (metis prod.collapse)
  obtain r2 s2 where f: "readFull (unat n) s1 = (r2, s2)" by (metis prod.collapse)
  show ?thesis using assms(2) Kind_cases [OF assms(1) k] readFull_left [OF f]
    by (cases e; cases k; cases r2) (auto simp: Stream_Bytes_def k f left_None ok_None split: if_splits)
qed

lemma Raw_left:
  assumes "ok s" "Stream_Raw s = (r, s')"
  shows "r \<noteq> Inl OutOfFuel \<and> ok s' \<and> left s' + cost True r \<le> left s"
proof -
  obtain k n e s1 where k: "Stream_Kind s = ((k, n, e), s1)" by (metis prod.collapse)
  obtain r2 s2 where f: "readFull (unat n) s1 = (r2, s2)" by (metis prod.collapse)
  show ?thesis using assms(2) Kind_cases [OF assms(1) k] readFull_left [OF f]
    by (cases e; cases k; cases r2) (auto simp: Stream_Raw_def k f left_None ok_None split: if_splits)
qed

lemma uint_left:
  assumes "ok s" "Stream_uint b s = (r, s')"
  shows "r \<noteq> Inl OutOfFuel \<and> ok s' \<and> left s' + cost True r \<le> left s"
proof -
  obtain k n e s1 where k: "Stream_Kind s = ((k, n, e), s1)" by (metis prod.collapse)
  obtain r2 s2 where f: "readUint (ucast n) s1 = (r2, s2)" by (metis prod.collapse)
  show ?thesis using assms(2) Kind_cases [OF assms(1) k] readUint_left [OF f]
    by (cases e; cases k; cases r2) (auto simp: Stream_uint_def k f left_None ok_None split: if_splits)
qed

lemma ByteArray_left:
  assumes "ok s" "decodeByteArray vlen s = (r, s')"
  shows "r \<noteq> Inl OutOfFuel \<and> ok s' \<and> left s' + cost (vlen \<noteq> 1) r \<le> left s"
proof -
  obtain k n e s1 where k: "Stream_Kind s = ((k, n, e), s1)" by (metis prod.collapse)
  obtain r2 s2 where f: "readFull vlen s1 = (r2, s2)" by (metis prod.collapse)
  obtain r3 s3 where u: "Stream_Uint s1 = (r3, s3)" by (metis prod.collapse)
  note u3 = uint_left [OF _ u [unfolded Stream_Uint_def]]
  show ?thesis using assms(2) Kind_cases [OF assms(1) k] readFull_left [OF f] u3
    by (cases e; cases k; cases r2; cases r3)
      (auto simp: decodeByteArray_def k f u left_None ok_None wrapStreamError_def split: if_splits)
qed

section \<open>Loops\<close>

lemma slice_loop_left:
  assumes "\<And>v. spends True n (d v)" "left s < fuel" "left s \<le> n" "ok s" "slice_loop fuel d z old s = (r, s')"
  shows "r \<noteq> Inl OutOfFuel \<and> ok s' \<and> left s' \<le> left s"
  using assms(2-)
proof (induction fuel arbitrary: s old r s')
  case (Suc fuel)
  let ?v = "case old of [] \<Rightarrow> z | v # _ \<Rightarrow> v"
  obtain q s1 where q: "d ?v s = (q, s1)" by (metis prod.collapse)
  note d = spendsD [OF assms(1) Suc.prems(2,3) q]
  show ?case
  proof (cases q)
    case (Inl e)
    then show ?thesis using Suc.prems(4) d q by (auto split: if_splits)
  next
    case (Inr x)
    obtain t s2 where t: "slice_loop fuel d z (tl old) s1 = (t, s2)" by (metis prod.collapse)
    have "left s1 < fuel" "left s1 \<le> n" using d(3,5) Suc.prems(1) by (simp_all add: Inr)
    from Suc.IH [OF this d(2) t] show ?thesis
      using Suc.prems(4) q t d(4) by (cases t) (auto simp: Inr)
  qed
qed simp

lemma spends_SliceElems:
  assumes "\<And>v. spends True n (d v)"
  shows "spends False n (decodeSliceElems d z old)"
proof (rule spendsI)
  fix s r s'
  assume s: "left s \<le> n" "ok s" "decodeSliceElems d z old s = (r, s')"
  have "left s < slice_fuel s" by (simp add: left_def slice_fuel_def)
  from slice_loop_left [where d = d, OF assms this s(1,2)] s(3)
  show "r \<noteq> Inl OutOfFuel \<and> ok s' \<and> left s' + cost False r \<le> left s"
    by (auto simp: decodeSliceElems_def cost_def split: sum.splits)
qed

lemma array_loop_left:
  assumes "\<And>v. spends False n (d v)" "left s \<le> n" "ok s" "array_loop d old s = (r, s')"
  shows "r \<noteq> Inl OutOfFuel \<and> ok s' \<and> left s' \<le> left s"
  using assms(2-)
proof (induction old arbitrary: s r s')
  case (Cons v old)
  obtain q s1 where q: "d v s = (q, s1)" by (metis prod.collapse)
  note d = spendsD [OF assms(1) Cons.prems(1,2) q]
  obtain t s2 where t: "array_loop d old s1 = (t, s2)" by (metis prod.collapse)
  show ?case using Cons.IH [OF d(5,2) t] Cons.prems(3) q t d by (cases q; cases t) (auto split: if_splits)
qed auto

lemma struct_loop_left:
  assumes "\<And>d v. d \<in> set ds \<Longrightarrow> spends False n (d v)" "left s \<le> n" "ok s" "struct_loop ds old s = (r, s')"
  shows "r \<noteq> Inl OutOfFuel \<and> ok s' \<and> left s' \<le> left s"
  using assms
proof (induction ds old s arbitrary: r s' rule: struct_loop.induct)
  case (1 d ds v old s)
  obtain q s1 where q: "d v s = (q, s1)" by (metis prod.collapse)
  have "spends False n (d v)" using "1.prems"(1) by simp
  note d = spendsD [OF this "1.prems"(2,3) q]
  obtain t s2 where t: "struct_loop ds old s1 = (t, s2)" by (metis prod.collapse)
  have "t \<noteq> Inl OutOfFuel \<and> ok s2 \<and> left s2 \<le> left s1" if "q = Inr x" for x
    using "1.IH" [OF q [symmetric] that _ d(5,2) t] "1.prems"(1) by simp
  then show ?case using "1.prems"(4) q t d by (cases q; cases t) (auto split: if_splits)
qed auto

section \<open>Lists\<close>

text \<open>A list takes its header off the stream before the elements are read.\<close>

lemma list_left:
  assumes f: "\<And>s1 r s'. left s1 < left s \<Longrightarrow> ok s1 \<Longrightarrow> f s1 = (r, s') \<Longrightarrow> r \<noteq> Inl OutOfFuel \<and> ok s' \<and> left s' \<le> left s1"
    and s: "ok s" and w: "\<And>e. w e = OutOfFuel \<Longrightarrow> e = OutOfFuel" "\<And>e. w' e = OutOfFuel \<Longrightarrow> e = OutOfFuel"
    and r: "(case Stream_List s of (Inl e, s1) \<Rightarrow> (Inl (w e), s1)
      | (Inr n, s1) \<Rightarrow>
          (case f s1 of (Inl e, s2) \<Rightarrow> (Inl e, s2)
           | (Inr vs, s2) \<Rightarrow>
               (case ListEnd s2 of (Some e, s3) \<Rightarrow> (Inl (w' e), s3) | (None, s3) \<Rightarrow> (Inr vs, s3)))) = (r, s')"
  shows "r \<noteq> Inl OutOfFuel \<and> ok s' \<and> left s' + cost True r \<le> left s"
proof -
  obtain q s1 where q: "Stream_List s = (q, s1)" by (metis prod.collapse)
  note l = List_left [OF s q]
  show ?thesis
  proof (cases q)
    case (Inl e)
    then show ?thesis using r q l w(1) by auto
  next
    case (Inr n)
    obtain t s2 where t: "f s1 = (t, s2)" by (metis prod.collapse)
    have t': "t \<noteq> Inl OutOfFuel \<and> ok s2 \<and> left s2 \<le> left s1" using f [OF _ _ t] l by (simp add: Inr)
    obtain e s3 where e: "ListEnd s2 = (e, s3)" by (metis prod.collapse)
    show ?thesis using r q l t t' e ListEnd_left [OF _ e] w(2) by (cases t; cases e) (auto simp: Inr)
  qed
qed

lemma wrap_fuel: "wrapStreamError e = OutOfFuel \<Longrightarrow> e = OutOfFuel"
  by (cases e) (simp_all add: wrapStreamError_def)

lemma spends_ListSlice:
  assumes "\<And>v. spends True (n - 1) (d v)"
  shows "spends True n (decodeListSlice d z old)"
proof (rule spendsI)
  fix s r s'
  assume s: "left s \<le> n" "ok s" "decodeListSlice d z old s = (r, s')"
  obtain q s1 where q: "Stream_List s = (q, s1)" by (metis prod.collapse)
  note l = List_left [OF s(2) q]
  show "r \<noteq> Inl OutOfFuel \<and> ok s' \<and> left s' + cost True r \<le> left s"
  proof (cases q)
    case (Inl e)
    then show ?thesis using s(3) q l wrap_fuel by (auto simp: decodeListSlice_def)
  next
    case (Inr m)
    obtain t s2 where t: "decodeSliceElems d z old s1 = (t, s2)" by (metis prod.collapse)
    have "left s1 \<le> n - 1" using l s(1) by (auto simp: Inr)
    note t' = spendsD [OF spends_SliceElems [where d = d, OF assms] this _ t]
    obtain e s3 where e: "ListEnd s2 = (e, s3)" by (metis prod.collapse)
    obtain e0 s0 where e0: "ListEnd s1 = (e0, s0)" by (metis prod.collapse)
    show ?thesis
      using s(3) q l t t' e e0 ListEnd_left [OF _ e] ListEnd_left [OF _ e0]
      by (cases t; cases e; cases e0) (auto simp: Inr decodeListSlice_def split: if_splits)
  qed
qed

lemma spends_ListArray:
  assumes "\<And>v. spends False n (d v)"
  shows "spends True n (decodeListArray d old)"
proof (rule spendsI)
  fix s r s'
  assume s: "left s \<le> n" "ok s" "decodeListArray d old s = (r, s')"
  show "r \<noteq> Inl OutOfFuel \<and> ok s' \<and> left s' + cost True r \<le> left s"
  proof (rule list_left [OF _ s(2) wrap_fuel wrap_fuel s(3) [unfolded decodeListArray_def]])
    fix s1 t s2
    assume "left s1 < left s" "ok s1" "array_loop d old s1 = (t, s2)"
    then show "t \<noteq> Inl OutOfFuel \<and> ok s2 \<and> left s2 \<le> left s1"
      using array_loop_left [where d = d, OF assms, of s1 old t s2] s(1) by simp
  qed
qed

lemma spends_Struct:
  assumes "\<And>d v. d \<in> set ds \<Longrightarrow> spends False n (d v)"
  shows "spends True n (decodeStruct ds old)"
proof (rule spendsI)
  fix s r s'
  assume s: "left s \<le> n" "ok s" "decodeStruct ds old s = (r, s')"
  let ?f = "\<lambda>s. case struct_loop ds old s of (Inl e, s2) \<Rightarrow> (Inl e, s2) | (Inr vs, s2) \<Rightarrow> (Inr (VStruct vs), s2)"
  have r: "(case Stream_List s of (Inl e, s1) \<Rightarrow> (Inl (wrapStreamError e), s1)
      | (Inr n, s1) \<Rightarrow>
          (case ?f s1 of (Inl e, s2) \<Rightarrow> (Inl e, s2)
           | (Inr vs, s2) \<Rightarrow>
               (case ListEnd s2 of (Some e, s3) \<Rightarrow> (Inl (wrapStreamError e), s3) | (None, s3) \<Rightarrow> (Inr vs, s3)))) = (r, s')"
    using s(3) by (auto simp: decodeStruct_def split: prod.splits sum.splits option.splits)
  show "r \<noteq> Inl OutOfFuel \<and> ok s' \<and> left s' + cost True r \<le> left s"
  proof (rule list_left [OF _ s(2) wrap_fuel wrap_fuel r])
    fix s1 q s3
    assume a: "left s1 < left s" "ok s1" "?f s1 = (q, s3)"
    obtain t s2 where t: "struct_loop ds old s1 = (t, s2)" by (metis prod.collapse)
    have "left s1 \<le> n" using a(1) s(1) by simp
    then have "t \<noteq> Inl OutOfFuel \<and> ok s2 \<and> left s2 \<le> left s1"
      using struct_loop_left [OF _ _ a(2) t] assms by blast
    then show "q \<noteq> Inl OutOfFuel \<and> ok s3 \<and> left s3 \<le> left s1" using a(3) t by (cases t) auto
  qed
qed

lemma spends_Interface: "n < fuel \<Longrightarrow> spends True n (decodeInterface fuel)"
proof (induction fuel arbitrary: n)
  case (Suc fuel)
  show ?case
  proof (rule spendsI)
    fix s r s'
    assume s: "left s \<le> n" "ok s" "decodeInterface (Suc fuel) s = (r, s')"
    obtain k m e s1 where k: "Stream_Kind s = ((k, m, e), s1)" by (metis prod.collapse)
    note kc = Kind_cases [OF s(2) k]
    show "r \<noteq> Inl OutOfFuel \<and> ok s' \<and> left s' + cost True r \<le> left s"
    proof (cases e)
      case (Some x)
      then show ?thesis using s(3) k kc by auto
    next
      case None
      have s1: "left s1 \<le> n" "ok s1" using kc s(1) by (simp_all add: None ok_None)
      let ?d = "decodeListSlice (\<lambda>_. decodeInterface fuel) (VIface None) []"
      obtain t s2 where t: "?d s1 = (t, s2)" by (metis prod.collapse)
      obtain q s3 where q: "Stream_Bytes s1 = (q, s3)" by (metis prod.collapse)
      have "0 < n" using kc s(1) by (simp add: None)
      then have "spends True (n - 1) (decodeInterface fuel)" using Suc by simp
      then have "spends True n ?d" by (rule spends_ListSlice)
      from spendsD [OF this s1 t] show ?thesis
        using s(3) k kc t q Bytes_left [OF s1(2) q] by (cases t; cases q) (auto simp: None split: if_splits)
    qed
  qed
qed simp

section \<open>The decoder of a type\<close>

text \<open>
  \<open>progress\<close>: a value of the type takes something off the stream. \<open>bounded\<close>: all slices in the
  type have elements that do.
\<close>

fun progress :: "rtype \<Rightarrow> bool" where
  "progress (TByteArray n) = (n \<noteq> 1)"
| "progress (TPtr t) = progress t"
| "progress t = True"

fun bounded :: "rtype \<Rightarrow> bool" where
  "bounded (TSlice t) = (progress t \<and> bounded t)"
| "bounded (TArray n t) = bounded t"
| "bounded (TStruct fs) = list_all (\<lambda>f. bounded (fst f)) fs"
| "bounded (TPtr t) = bounded t"
| "bounded t = True"

lemma spends_wrapped:
  assumes "\<And>s r s'. ok s \<Longrightarrow> f s = (r, s') \<Longrightarrow> r \<noteq> Inl OutOfFuel \<and> ok s' \<and> left s' + cost True r \<le> left s"
  shows "spends True n (\<lambda>s. wrapped g (f s))"
proof (rule spendsI)
  fix s r s'
  assume s: "left s \<le> n" "ok s" "wrapped g (f s) = (r, s')"
  obtain q s1 where q: "f s = (q, s1)" by (metis prod.collapse)
  show "r \<noteq> Inl OutOfFuel \<and> ok s' \<and> left s' + cost True r \<le> left s"
    using assms [OF s(2) q] s(3) wrap_fuel by (cases q) (auto simp: wrapped_def q)
qed

lemma Bool_left:
  assumes "ok s" "Stream_Bool s = (r, s')"
  shows "r \<noteq> Inl OutOfFuel \<and> ok s' \<and> left s' + cost True r \<le> left s"
proof -
  obtain q s1 where q: "Stream_uint 8 s = (q, s1)" by (metis prod.collapse)
  show ?thesis using assms(2) uint_left [OF assms(1) q] by (cases q) (auto simp: Stream_Bool_def q split: if_splits)
qed

lemma spends_map:
  assumes "spends p n f" "\<And>s. g s = (case f s of (Inl e, s1) \<Rightarrow> (Inl e, s1) | (Inr x, s1) \<Rightarrow> (Inr (h x), s1))"
  shows "spends p n g"
proof (rule spendsI)
  fix s r s'
  assume s: "left s \<le> n" "ok s" "g s = (r, s')"
  obtain q s1 where q: "f s = (q, s1)" by (metis prod.collapse)
  show "r \<noteq> Inl OutOfFuel \<and> ok s' \<and> left s' + cost p r \<le> left s"
    using spendsD [OF assms(1) s(1,2) q] s(3) by (cases q) (auto simp: assms(2) q)
qed

lemma spends_simple:
  "spends True n decodeRawValue" "spends True n (decodeUint b)" "spends True n decodeBool"
  "spends True n decodeString" "spends True n decodeByteSlice" "spends (m \<noteq> 1) n (decodeByteArray m)"
proof -
  have "spends True n Stream_Raw" by (rule spendsI) (rule Raw_left)
  then show "spends True n decodeRawValue" by (rule spends_map [where h = VRaw]) (simp add: decodeRawValue_def)
  have w: "decodeUint b = (\<lambda>s. wrapped VUint (Stream_uint b s))" "decodeBool = (\<lambda>s. wrapped VBool (Stream_Bool s))"
    "decodeString = (\<lambda>s. wrapped VString (Stream_Bytes s))" "decodeByteSlice = (\<lambda>s. wrapped VBytes (Stream_Bytes s))"
    by (simp_all add: fun_eq_iff decodeUint_def decodeBool_def decodeString_def decodeByteSlice_def)
  show "spends True n (decodeUint b)" unfolding w by (rule spends_wrapped) (rule uint_left)
  show "spends True n decodeBool" unfolding w by (rule spends_wrapped) (rule Bool_left)
  show "spends True n decodeString" "spends True n decodeByteSlice"
    unfolding w by (rule spends_wrapped, rule Bytes_left, assumption+)+
  show "spends (m \<noteq> 1) n (decodeByteArray m)" by (rule spendsI) (rule ByteArray_left)
qed

lemma spends_BigInt: "spends True n decodeBigInt"
proof (rule spendsI)
  fix s r s'
  assume s: "left s \<le> n" "ok s" "decodeBigInt s = (r, s')"
  obtain q s1 where q: "Stream_Bytes s = (q, s1)" by (metis prod.collapse)
  show "r \<noteq> Inl OutOfFuel \<and> ok s' \<and> left s' + cost True r \<le> left s"
    using s(3) Bytes_left [OF s(2) q] wrap_fuel [of ErrCanonInt] wrap_fuel
    by (cases q) (auto simp: decodeBigInt_def q split: if_splits)
qed

lemma spends_OptionalPtr:
  assumes "spends p n (d x)"
  shows "spends p n (decodeOptionalPtr d x)"
proof (rule spendsI)
  fix s r s'
  assume s: "left s \<le> n" "ok s" "decodeOptionalPtr d x s = (r, s')"
  obtain k m e s1 where k: "Stream_Kind s = ((k, m, e), s1)" by (metis prod.collapse)
  note kc = Kind_cases [OF s(2) k]
  obtain q s2 where q: "d x s1 = (q, s2)" by (metis prod.collapse)
  show "r \<noteq> Inl OutOfFuel \<and> ok s' \<and> left s' + cost p r \<le> left s"
  proof (cases e)
    case None
    then have s1: "left s1 \<le> n" "ok s1" using kc s(1) by (simp_all add: ok_None)
    show ?thesis
      using s(3) kc k None q spendsD [OF assms s1 q]
      by (cases q) (auto simp: decodeOptionalPtr_def decodePtr_def ok_None left_None split: if_splits)
  next
    case (Some y)
    then show ?thesis using s(3) kc k by (auto simp: decodeOptionalPtr_def ok_def left_def split: if_splits)
  qed
qed

lemma spends_decoder: "bounded t \<Longrightarrow> spends (progress t \<and> \<not> tail ts) n (decoder t ts v)"
proof (induction t arbitrary: ts v n)
  case (TSlice t)
  then have d: "spends True n (decoder t no_tags v)" for n v using TSlice.IH [of no_tags] by (simp add: no_tags_def)
  have "spends True n (decodeListSlice (decoder t no_tags) (zero_val t) (elems_of v))"
    by (rule spends_ListSlice) (rule d)
  moreover have "spends False n (decodeSliceElems (decoder t no_tags) (zero_val t) (elems_of v))"
    by (rule spends_SliceElems) (rule d)
  ultimately have "spends (\<not> tail ts) n ((if tail ts then decodeSliceElems else decodeListSlice)
      (decoder t no_tags) (zero_val t) (elems_of v))" by simp
  then have "spends (\<not> tail ts) n (decoder (TSlice t) ts v)"
    by (rule spends_map [where h = VList]) (simp add: to_list_def)
  then show ?case by simp
next
  case (TArray m t)
  have "spends False n (decoder t no_tags v)" for n v
    by (rule spends_weaken [OF TArray.IH [of no_tags]]) (use TArray.prems in simp_all)
  then have "spends True n (decodeListArray (decoder t no_tags) (elems_of v))" by (rule spends_ListArray)
  then have "spends True n (decoder (TArray m t) ts v)" by (rule spends_map [where h = VList]) (simp add: to_list_def)
  then show ?case by (rule spends_weaken) simp_all
next
  case (TStruct fs)
  have "spends True n (decoder (TStruct fs) ts v)"
  proof (cases "structFields fs")
    case None
    then show ?thesis by (simp add: spends_def)
  next
    case (Some gs)
    have "spends False n (d v)" if "d \<in> set (map2 (\<lambda>f g. decoder (fst f) (snd g)) fs gs)" for d v
    proof -
      obtain f g where f: "f \<in> set fs" "d = decoder (fst f) (snd g)" using \<open>d \<in> _\<close> by (auto dest!: set_zip_leftD)
      then have "bounded (fst f)" using TStruct.prems by (simp add: list_all_iff)
      then have "spends (progress (fst f) \<and> \<not> tail (snd g)) n (d v)" using TStruct.IH f by (cases f) auto
      then show ?thesis by (rule spends_weaken) simp_all
    qed
    then have "spends True n (decodeStruct (map2 (\<lambda>f g. decoder (fst f) (snd g)) fs gs) (fields_of v))"
      by (rule spends_Struct)
    then show ?thesis by (simp add: Some)
  qed
  then show ?case by (rule spends_weaken) simp_all
next
  case (TPtr t)
  then have d: "spends (progress t) n (decoder t no_tags (target_of t v))" using TPtr.IH [of no_tags] by (simp add: no_tags_def)
  have "spends (progress t) n (decodePtr (decoder t no_tags) (target_of t v))"
    using d by (rule spends_map [where h = "\<lambda>x. VPtr (Some x)"]) (simp add: decodePtr_def)
  then have "spends (progress t) n (decoder (TPtr t) ts v)"
    using spends_OptionalPtr [where d = "decoder t no_tags", OF d] by simp
  then show ?case by (rule spends_weaken) simp_all
next
  case TIface
  have "spends True n (decoder TIface ts v)"
  proof (rule spendsI)
    fix s r s'
    assume s: "left s \<le> n" "ok s" "decoder TIface ts v s = (r, s')"
    have "left s < slice_fuel s" by (simp add: left_def slice_fuel_def)
    from spendsD [OF spends_Interface [OF this] _ s(2)] s(3)
    show "r \<noteq> Inl OutOfFuel \<and> ok s' \<and> left s' + cost True r \<le> left s" by simp
  qed
  then show ?case by (rule spends_weaken) simp_all
next
  case (TByteArray m)
  have "spends (m \<noteq> 1) n (decoder (TByteArray m) ts v)" using spends_simple(6) [of m n] by simp
  then show ?case by (rule spends_weaken) simp_all
next
  case TBigIntPtr
  have "spends True n (decoder TBigIntPtr ts v)" using spends_BigInt by (rule spends_map [where h = "\<lambda>i. VBigPtr (Some i)"]) simp
  then show ?case by (rule spends_weaken) simp_all
next
  case TBigInt
  have "spends True n (decoder TBigInt ts v)" using spends_BigInt by (rule spends_map [where h = VBig]) simp
  then show ?case by (rule spends_weaken) simp_all
next
  case TOther
  then show ?case by (simp add: spends_def)
qed (simp_all add: spends_weaken [OF spends_simple(1)] spends_weaken [OF spends_simple(2)]
    spends_weaken [OF spends_simple(3)] spends_weaken [OF spends_simple(4)] spends_weaken [OF spends_simple(5)])

end
