(* ===== verification/Rlp_Props.thy ===== *)
theory Rlp_Props
  imports Rlp_Roundtrip Rlp_Types Rlp_Fuel
begin

text \<open>
  The properties of the RLP package, each with a witness on concrete bytes where it has hypotheses.
\<close>

section \<open>A type and a value of it\<close>

definition ex_type :: rtype where
  "ex_type = TStruct [(TUint 8, ''''), (TPtr TString, ''nil''), (TSlice TBytes, ''tail'')]"

definition ex_val :: rval where
  "ex_val = VStruct [VUint 200, VPtr None, VList [VBytes [1], VBytes [5, 6]]]"

definition ex_bytes :: bytes where
  "ex_bytes = [0xC7, 0x81, 200, 0x80, 1, 0x82, 5, 6]"

lemma ex_type_ok: "genTypeInfo ex_type" "wf_type ex_type" "bounded ex_type"
  by code_simp+

lemma ex_rt: "rt ex_type no_tags ex_val"
  by code_simp

lemma ex_rlp: "rlp_of ex_type no_tags ex_val = Inr ex_bytes"
  by code_simp

section \<open>Encoding\<close>

text \<open>
  C20: the encoder. With the headers of lists kept aside and their sizes filled in later,
  \<^verbatim>\<open>EncodeToBytes\<close> produces the documented encoding, in which every list is its header
  followed by its payload, and fails exactly where that encoding is not defined; the pieces
  \<^verbatim>\<open>Encode\<close> writes to a writer join to the same bytes.
\<close>

theorem encoder_writes_reference:
  assumes "rlp_of t no_tags v = r" "case r of Inl e \<Rightarrow> True | Inr b \<Rightarrow> fits b"
  shows "EncodeToBytes eb t v = (if genTypeInfo t then r else Inl NotSerializable)
    \<and> map_sum id concat (Encode eb t v) = EncodeToBytes eb t v"
proof -
  have f: "\<And>b. rlp_of t no_tags v = Inr b \<Longrightarrow> fits b" using assms by (auto split: sum.splits)
  have "map_sum id concat (Encode eb t v) = EncodeToBytes eb t v"
  proof (cases "encbuf_encode t v (encbuf_reset eb)")
    case (Inr w)
    have "\<exists>b. appends (encbuf_reset eb) w b"
      using encbuf_encode_agrees [of t v "encbuf_reset eb"] f Inr
      by (auto simp: agrees_def split: sum.splits if_splits)
    then show ?thesis using appends_toBytes Inr
      by (auto simp: Encode_def EncodeToBytes_def toWriter_def toBytes_def toWriter_toBytes)
  qed (simp add: Encode_def EncodeToBytes_def)
  then show ?thesis using EncodeToBytes_reference [of t v eb] f assms(1) by simp
qed

theorem encoder_writes_reference_witness:
  "EncodeToBytes \<lparr>str = [9], lheads = [], lhsize = 3\<rparr> ex_type ex_val = Inr ex_bytes"
  using encoder_writes_reference [OF ex_rlp, of "\<lparr>str = [9], lheads = [], lhsize = 3\<rparr>"] ex_type_ok
  by (simp add: ex_bytes_def)

section \<open>Readers\<close>

text \<open>A source of bytes: each read takes what there is, up to the room, and reports the end.\<close>

fun source_reads :: "nat list \<Rightarrow> bytes \<Rightarrow> (bytes \<times> bool) list" where
  "source_reads [] b = []"
| "source_reads (n # ns) b = (take n b, length b \<le> n) # source_reads ns (drop n b)"

fun reader_reads :: "nat list \<Rightarrow> encReader \<Rightarrow> (bytes \<times> bool) list" where
  "reader_reads [] r = []"
| "reader_reads (n # ns) r = (case encReader_Read n r of (b, eof, r') \<Rightarrow> (b, eof) # reader_reads ns r')"

lemma reader_reads_source: "reader_ok r \<Longrightarrow> reader_reads ns r = source_reads ns (to_read r)"
proof (induction ns arbitrary: r)
  case (Cons n ns)
  obtain b eof r' where r: "encReader_Read n r = (b, eof, r')" by (cases "encReader_Read n r")
  show ?case using encReader_Read_spec [OF Cons.prems r] Cons.IH [of r'] r by simp
qed simp

text \<open>
  C21: the reader that \<^verbatim>\<open>EncodeToReader\<close> returns refines a plain source of bytes that holds the
  encoding: whatever the sizes of the slices it is asked to fill, its reads deliver the same
  pieces and report \<^verbatim>\<open>io.EOF\<close> at the same places; the size returned with it is the number of
  bytes to come.
\<close>

theorem reader_refines_source:
  assumes "genTypeInfo t" "rlp_of t no_tags v = Inr b" "fits b"
  shows "\<exists>r. EncodeToReader eb t v = Inr (length b, r) \<and> reader_reads ns r = source_reads ns b"
proof -
  obtain w where w: "encbuf_encode t v (encbuf_reset eb) = Inr w" "appends (encbuf_reset eb) w b"
    using encbuf_encode_agrees [of t v "encbuf_reset eb"] assms by (auto simp: agrees_def)
  note a = appends_toBytes [OF w(2)]
  let ?r = "\<lparr>buf = Some w, lhpos = 0, strpos = 0, piece = None\<rparr>"
  have "reader_ok ?r" "to_read ?r = b" using a by (simp_all add: reader_ok_def to_read_def toBytes_def)
  then show ?thesis using reader_reads_source [of ?r ns] w(1) a(3) by (auto simp: EncodeToReader_def)
qed

theorem reader_refines_source_witness:
  "\<exists>r. EncodeToReader \<lparr>str = [], lheads = [], lhsize = 0\<rparr> ex_type ex_val = Inr (length ex_bytes, r)
     \<and> reader_reads [3, 5, 1] r = [([0xC7, 0x81, 200], False), ([0x80, 1, 0x82, 5, 6], True), ([], True)]"
proof -
  have "source_reads [3, 5, 1] ex_bytes = [([0xC7, 0x81, 200], False), ([0x80, 1, 0x82, 5, 6], True), ([], True)]"
    by code_simp
  moreover have "fits ex_bytes" by (simp add: ex_bytes_def)
  ultimately show ?thesis
    using reader_refines_source [OF ex_type_ok(1) ex_rlp, of "\<lparr>str = [], lheads = [], lhsize = 0\<rparr>" "[3, 5, 1]"] by simp
qed

section \<open>Round trip\<close>

text \<open>
  C19: decoding what was encoded gives the value back, for every type the package supports and
  every value in \<open>rt\<close>: integers within their width, raw values that hold one item other than a
  long string, byte arrays other than a single zero byte, pointers that are set or, under the tag
  \<^verbatim>\<open>nil\<close>, nil. Nothing is left over.
\<close>

theorem rlp_roundtrip:
  assumes "genTypeInfo t" "rt t no_tags v" "rlp_of t no_tags v = Inr b" "fits b"
  shows "EncodeToBytes eb t v = Inr b \<and> DecodeBytes b t (zero_val t) = Inr v"
proof -
  have "EncodeToBytes eb t v = Inr b" using EncodeToBytes_reference [of t v eb] assms by simp
  then show ?thesis using DecodeBytes_EncodeToBytes [OF assms(1,2), of eb] assms(3,4) by auto
qed

theorem rlp_roundtrip_witness:
  "EncodeToBytes \<lparr>str = [], lheads = [], lhsize = 0\<rparr> ex_type ex_val = Inr ex_bytes
   \<and> DecodeBytes ex_bytes ex_type (zero_val ex_type) = Inr ex_val"
  using rlp_roundtrip [OF ex_type_ok(1) ex_rt ex_rlp, of "\<lparr>str = [], lheads = [], lhsize = 0\<rparr>"]
  by (simp add: ex_bytes_def)

section \<open>Raw values\<close>

text \<open>
  C24: \<^verbatim>\<open>Split\<close> accepts exactly the canonical encodings: it returns a kind, a content and a rest
  if and only if the input is the encoding of that content under that kind followed by that rest,
  with single bytes below 0x80 as themselves, sizes of the least length and no long form for short
  contents.
\<close>

theorem split_canonical:
  assumes "fits b"
  shows "Split b = Inr (k, c, rest) \<longleftrightarrow> kind_ok k c \<and> b = rlp_enc k c @ rest"
  by (rule Split_iff [OF assms])

theorem split_canonical_witness:
  "Split [0x82, 5, 6, 0xC0] = Inr (StringK, [5, 6], [0xC0])"
proof -
  have "kind_ok StringK [5, 6] \<and> [0x82, 5, 6, 0xC0] = rlp_enc StringK [5, 6] @ [0xC0]" by code_simp
  then show ?thesis using split_canonical [of "[0x82, 5, 6, 0xC0]" StringK "[5, 6]" "[0xC0]"] by simp
qed

text \<open>
  C25: \<^verbatim>\<open>CountValues\<close> counts the values: when it returns a number, the input is the concatenation of
  that many canonical encodings, and there is only one such decomposition.
\<close>

theorem count_values:
  assumes "fits b" "CountValues b = Inr n"
  shows "\<exists>!xs. length xs = n \<and> list_all ok_item xs \<and> b = concat (map enc_item xs)"
proof -
  obtain xs where xs: "n = length xs" "list_all ok_item xs" "b = concat (map enc_item xs)"
    using assms CountValues_loop_iff [OF assms(1), of 0 n] by (auto simp: CountValues_def)
  have "ys = xs" if "list_all ok_item ys" "b = concat (map enc_item ys)" for ys
    by (rule rlp_items.sequence_unique [OF _ that(1) xs(2)])
      (simp_all only: that(2) [symmetric] xs(3) [symmetric] assms(1))
  then show ?thesis using xs by blast
qed

theorem count_values_witness:
  "\<exists>!xs. length xs = 3 \<and> list_all ok_item xs \<and> [1, 0x81, 0x80, 0xC1, 7] = concat (map enc_item xs)"
proof -
  have "CountValues [1, 0x81, 0x80, 0xC1, 7] = Inr 3" by code_simp
  then show ?thesis using count_values [of "[1, 0x81, 0x80, 0xC1, 7]" 3] by simp
qed

text \<open>
  C26: sizes. \<^verbatim>\<open>intsize\<close> is the number of bytes \<^verbatim>\<open>putint\<close> writes, between one and eight and the
  least that holds the number, and the bytes read back as it; a header takes \<^verbatim>\<open>headsize\<close> bytes, at
  most nine.
\<close>

theorem header_bounds:
  "length (putint i) = intsize i \<and> 1 \<le> intsize i \<and> intsize i \<le> 8 \<and> be_val (putint i) = unat i
   \<and> unat i < 256 ^ intsize i \<and> 256 ^ (intsize i - 1) \<le> max 1 (unat i)
   \<and> length (puthead s l i) = headsize i \<and> 1 \<le> headsize i \<and> headsize i \<le> 9"
proof -
  have "256 ^ (intsize i - 1) \<le> max 1 (unat i)"
  proof (rule ccontr)
    assume n: "\<not> ?thesis"
    then have "unat i < 256 ^ (intsize i - 1)" "intsize i - 1 \<noteq> 0" by auto
    then have "length (be_bytes (unat i)) \<le> intsize i - 1" "1 < intsize i" using length_be_bytes_le by auto
    then show False using n by (cases "i = 0") (auto simp: intsize_putint putint_be_bytes)
  qed
  moreover have "unat i < 256 ^ intsize i" using be_val_less [of "putint i"] by (simp add: intsize_putint)
  ultimately show ?thesis using length_putint [of i] by (simp add: intsize_putint headsize_def Suc_le_eq)
qed

section \<open>Decoding any input\<close>

text \<open>
  C23: decoding is type safe. Whatever bytes arrive, a value that is decoded into a variable of a
  type is a value of that type: integers fit their width, arrays have their length, structs their
  fields, and pointers and slices hold values of their element type.
\<close>

theorem decode_type_safe:
  assumes "wf_type t" "has_type t old" "DecodeBytes b t old = Inr v \<or> Decode rd sized t old = Inr v"
  shows "has_type t v"
proof -
  have "\<exists>s s'. Stream_Decode t old s = (Inr v, s')"
    using assms(3)
  proof
    assume "DecodeBytes b t old = Inr v"
    then show ?thesis by (auto simp: DecodeBytes_def split: prod.splits sum.splits if_splits)
  next
    assume "Decode rd sized t old = Inr v"
    then show ?thesis unfolding Decode_def by (metis prod.collapse)
  qed
  then obtain s s' where "genTypeInfo t" "decoder t no_tags old s = (Inr v, s')"
    by (auto simp: Stream_Decode_def split: if_splits)
  then show ?thesis using yieldsD [OF yields_decoder] assms(1,2) by blast
qed

theorem decode_type_safe_witness:
  "has_type (TArray 2 (TUint 8)) (VList [VUint 3, VUint 200])"
proof -
  have d: "DecodeBytes [0xC3, 3, 0x81, 200] (TArray 2 (TUint 8)) (VList [VUint 0, VUint 1])
      = Inr (VList [VUint 3, VUint 200])"
    by code_simp
  have "has_type (TArray 2 (TUint 8)) (VList [VUint 0, VUint 1])" by code_simp
  then show ?thesis using decode_type_safe [of "TArray 2 (TUint 8)", OF _ _ disjI1 [OF d]] by simp
qed



text \<open>
  C27: a slice of \<^verbatim>\<open>[1]byte\<close> does not terminate. When the next item is a zero byte,
  \<^verbatim>\<open>decodeByteArray\<close> drops the error of \<^verbatim>\<open>s.Uint()\<close>, which leaves the byte where it is: the
  loop of \<^verbatim>\<open>decodeSliceElems\<close> stores element after element and never reaches the end of the
  list, so no amount of fuel is enough.
\<close>

theorem one_byte_array_loops:
  assumes "Stream_Kind s = ((ByteK, n, None), s1)" "byteval s1 = 0"
  shows "fst (slice_loop fuel (decoder (TByteArray 1) no_tags) z old s) = Inl OutOfFuel"
proof -
  have k: "Stream_Kind s1 = ((ByteK, n, None), s1)"
    using assms(1) Stream_Kind_twice [of s] by simp
  have d: "decoder (TByteArray 1) no_tags v u = (Inr (VBytes [0]), s1)" if "u = s \<or> u = s1" for v u
    using that assms k by (auto simp: decodeByteArray_def Stream_Uint_def Stream_uint_def)
  have "u = s \<or> u = s1 \<Longrightarrow> fst (slice_loop fuel (decoder (TByteArray 1) no_tags) z old u) = Inl OutOfFuel" for u
  proof (induction fuel arbitrary: u old)
    case (Suc fuel)
    show ?case using Suc.IH [of s1 "tl old"] d [OF Suc.prems] by (auto split: prod.splits)
  qed simp
  then show ?thesis by blast
qed

theorem one_byte_array_loops_witness:
  "fst (slice_loop 1000 (decoder (TByteArray 1) no_tags) (VBytes [0]) []
     (snd (Stream_List (NewStream [0xC1, 0x00] True 2)))) = Inl OutOfFuel"
proof -
  let ?s = "snd (Stream_List (NewStream [0xC1, 0x00] True 2))"
  have "fst (Stream_Kind ?s) = (ByteK, 0, None)" "byteval (snd (Stream_Kind ?s)) = 0" by code_simp+
  then show ?thesis
    using one_byte_array_loops [of ?s 0 "snd (Stream_Kind ?s)"] by (metis prod.collapse)
qed

text \<open>
  C28: raw values of long strings are wrong. Reading a string of 56 bytes or more as a raw value
  succeeds, but the header that \<^verbatim>\<open>Raw\<close> puts back has the tag of the next size, 0xB8 plus the number
  of size bytes: the result is not the item that was read, and \<^verbatim>\<open>Split\<close> does not take it for that
  string.
\<close>

theorem raw_long_string:
  assumes "56 \<le> length c" "fits (rlp_string c)"
  shows "\<exists>b. DecodeBytes (rlp_string c) TRaw (VRaw []) = Inr (VRaw b) \<and> b \<noteq> rlp_string c
    \<and> (\<forall>rest. Split b \<noteq> Inr (StringK, c, rest))"
proof -
  let ?n = "of_nat (length c) :: u64" and ?b = "puthead 0x80 0xB8 (of_nat (length c)) @ c"
  have f: "fits c" using fits_string assms(2) by blast
  have nb: "\<not> single_byte c" using assms(1) by (auto elim!: single_byteE)
  have "\<not> ?n < 56" using assms(1) word_length_less [OF f] by simp
  then have h: "hd ?b \<noteq> hd (rlp_string c)" "length ?b = length (rlp_string c)"
    using nb by (simp_all add: long_head rlp_string_def)
  have "reads Stream_Raw (rlp_string c) ?b"
  proof (rule readsI)
    fix s rd
    assume s: "kind s = None" "room s (length (rlp_string c))" "input s = rlp_string c @ rd"
    show "\<exists>s'. Stream_Raw s = (Inr ?b, s') \<and> core s' = core (adv (length (rlp_string c)) s)"
      using nb Stream_Kind_string [OF s f] string_body [OF s f nb] unat_length [OF f] by (simp add: Stream_Raw_def)
  qed
  then have "reads (decoder TRaw no_tags (VRaw [])) (rlp_string c) (VRaw ?b)"
    by (rule reads_map) (simp add: decodeRawValue_def)
  then have "DecodeBytes (rlp_string c) TRaw (VRaw []) = Inr (VRaw ?b)"
    using DecodeBytes_reads assms(2) by simp
  moreover have "?b \<noteq> rlp_string c" using h(1) by metis
  moreover have "Split ?b \<noteq> Inr (StringK, c, rest)" for rest
  proof
    assume "Split ?b = Inr (StringK, c, rest)"
    then have "?b = rlp_string c @ rest" using Split_iff [of ?b StringK c rest] h(2) assms(2) by (simp add: rlp_enc_def)
    moreover have "rlp_string c \<noteq> []" using nb by (simp add: rlp_string_def)
    ultimately show False using h(1) by (metis hd_append2)
  qed
  ultimately show ?thesis by blast
qed

theorem raw_long_string_witness:
  "\<exists>b. DecodeBytes (rlp_string (replicate 56 7)) TRaw (VRaw []) = Inr (VRaw b) \<and> b \<noteq> rlp_string (replicate 56 7)"
proof -
  have "fits (rlp_string (replicate 56 (7::u8)))" 
    using length_putint(2) [of 56] by (simp add: rlp_string_def single_byte_def headsize_def intsize_putint)
  then show ?thesis using raw_long_string [of "replicate 56 7"] by auto
qed

end
