(* ===== verification/Words32.thy ===== *)
theory Words32
  imports Prelude
begin

text \<open>
  32-bit words and their big-endian bytes, as \<^verbatim>\<open>binary.BigEndian\<close> and the shifts in
  \<^verbatim>\<open>crypto-gm/sm3\<close> and \<^verbatim>\<open>crypto-gm/sm4\<close> read and write them.
\<close>

unbundle bit_operations_syntax

type_synonym u32 = "32 word"

text \<open>\<^verbatim>\<open>x<<(i%32) | x>>(32-i%32)\<close>; a shift by 32 gives zero, as in Go.\<close>

definition rotl :: "u32 \<Rightarrow> nat \<Rightarrow> u32" where
  "rotl x i = push_bit (i mod 32) x OR drop_bit (32 - i mod 32) x"

definition be32 :: "u8 \<Rightarrow> u8 \<Rightarrow> u8 \<Rightarrow> u8 \<Rightarrow> u32" where
  "be32 a b c d = push_bit 24 (ucast a) OR push_bit 16 (ucast b) OR push_bit 8 (ucast c) OR ucast d"

definition put32 :: "u32 \<Rightarrow> bytes" where
  "put32 x = [ucast (drop_bit 24 x), ucast (drop_bit 16 x), ucast (drop_bit 8 x), ucast x]"

text \<open>The \<open>i\<close>-th word of a byte string.\<close>

definition word_at :: "bytes \<Rightarrow> nat \<Rightarrow> u32" where
  "word_at b i = be32 (b ! (4 * i)) (b ! (4 * i + 1)) (b ! (4 * i + 2)) (b ! (4 * i + 3))"

lemma length_put32 [simp]: "length (put32 x) = 4"
  by (simp add: put32_def)

lemma put32_nth [simp]:
  "put32 x ! 0 = ucast (drop_bit 24 x)" "put32 x ! Suc 0 = ucast (drop_bit 16 x)"
  "put32 x ! 2 = ucast (drop_bit 8 x)" "put32 x ! 3 = ucast x"
  "put32 x ! Suc (Suc 0) = ucast (drop_bit 8 x)"
  by (simp_all add: put32_def)

lemma be32_put32:
  "be32 (ucast (drop_bit 24 x)) (ucast (drop_bit 16 x)) (ucast (drop_bit 8 x)) (ucast x) = x"
proof (rule bit_word_eqI)
  fix n :: nat
  assume n: "n < LENGTH(32)"
  then consider "n < 8" | "8 \<le> n" "n < 16" | "16 \<le> n" "n < 24" | "24 \<le> n" "n < 32" by fastforce
  then show "bit (be32 (ucast (drop_bit 24 x)) (ucast (drop_bit 16 x)) (ucast (drop_bit 8 x)) (ucast x)) n = bit x n"
    by cases (auto simp: be32_def bit_simps)
qed

lemma put32_be32:
  "put32 (be32 a b c d) = [a, b, c, d]"
proof -
  have "ucast (drop_bit 24 (be32 a b c d)) = a" "ucast (drop_bit 16 (be32 a b c d)) = b"
    "ucast (drop_bit 8 (be32 a b c d)) = c" "ucast (be32 a b c d) = d"
    by (rule bit_word_eqI, auto simp: be32_def bit_simps dest: bit_imp_le_length)+
  then show ?thesis by (simp add: put32_def)
qed

lemma bit_rotl: "bit (rotl x i) n \<longleftrightarrow> n < 32 \<and> bit x ((n + (32 - i mod 32)) mod 32)"
proof (cases "n < 32")
  case True
  let ?j = "i mod 32"
  have j: "?j < 32" by simp
  show ?thesis
  proof (cases "n < ?j")
    case True
    then have "(n + (32 - ?j)) mod 32 = n + (32 - ?j)" using \<open>n < 32\<close> j by simp
    then show ?thesis using True \<open>n < 32\<close> by (auto simp: rotl_def bit_simps add.commute)
  next
    case False
    then have "n + (32 - ?j) = n - ?j + 32" using j by simp
    then have "(n + (32 - ?j)) mod 32 = (n - ?j + 32) mod 32" by (rule arg_cong)
    also have "\<dots> = n - ?j" using \<open>n < 32\<close> by (simp only: mod_add_self2) simp
    finally have "(n + (32 - ?j)) mod 32 = n - ?j" .
    moreover have "\<not> bit x (32 - ?j + n)" using False j by (auto dest: bit_imp_le_length)
    ultimately show ?thesis using False \<open>n < 32\<close> by (auto simp: rotl_def bit_simps)
  qed
next
  case False
  then show ?thesis by (auto dest: bit_imp_le_length)
qed

lemma rotl_xor: "rotl (x XOR y) i = rotl x i XOR rotl y i"
  by (rule bit_word_eqI) (simp add: bit_rotl bit_simps)

lemma rotl_commute: "rotl (rotl x i) j = rotl (rotl x j) i"
proof -
  have "((n + a) mod 32 + b) mod 32 = ((n + b) mod 32 + a) mod 32" for n a b :: nat
    by (simp only: mod_add_left_eq) (simp only: ac_simps)
  then show ?thesis by (intro bit_word_eqI) (simp only: bit_rotl mod_less_divisor zero_less_numeral simp_thms)
qed

end
