(* ===== verification/Sm3.thy ===== *)
theory Sm3
  imports Words32
begin

text \<open>
  The hash function of \<^verbatim>\<open>crypto-gm/sm3/sm3.go\<close> and \<^verbatim>\<open>hashes.go\<close>: the compression, the state that
  takes a message piece by piece, the padding, and \<^verbatim>\<open>Sum\<close>. The state is compared with the
  definition of the hash on the whole message.
\<close>

section \<open>Compression\<close>

definition ff0 :: "u32 \<Rightarrow> u32 \<Rightarrow> u32 \<Rightarrow> u32" where "ff0 x y z = x XOR y XOR z"
definition ff1 :: "u32 \<Rightarrow> u32 \<Rightarrow> u32 \<Rightarrow> u32" where "ff1 x y z = (x AND y) OR (x AND z) OR (y AND z)"
definition gg0 :: "u32 \<Rightarrow> u32 \<Rightarrow> u32 \<Rightarrow> u32" where "gg0 x y z = x XOR y XOR z"
definition gg1 :: "u32 \<Rightarrow> u32 \<Rightarrow> u32 \<Rightarrow> u32" where "gg1 x y z = (x AND y) OR (NOT x AND z)"
definition p0 :: "u32 \<Rightarrow> u32" where "p0 x = x XOR rotl x 9 XOR rotl x 17"
definition p1 :: "u32 \<Rightarrow> u32" where "p1 x = x XOR rotl x 15 XOR rotl x 23"

text \<open>The message schedule: 16 words of the block, then the recurrence up to 68.\<close>

definition schedule :: "bytes \<Rightarrow> u32 list" where
  "schedule msg =
     foldl (\<lambda>w i. w @ [p1 (w ! (i - 16) XOR w ! (i - 9) XOR rotl (w ! (i - 3)) 15)
                        XOR rotl (w ! (i - 13)) 7 XOR w ! (i - 6)])
       (map (word_at msg) [0..<16]) [16..<68]"

definition schedule1 :: "u32 list \<Rightarrow> u32 list" where
  "schedule1 w = map (\<lambda>i. w ! i XOR w ! (i + 4)) [0..<64]"

type_synonym regs = "u32 \<times> u32 \<times> u32 \<times> u32 \<times> u32 \<times> u32 \<times> u32 \<times> u32"

text \<open>One step of the two loops over the rounds; they differ in the constant and the functions.\<close>

definition sm3_step :: "u32 \<Rightarrow> (u32 \<Rightarrow> u32 \<Rightarrow> u32 \<Rightarrow> u32) \<Rightarrow> (u32 \<Rightarrow> u32 \<Rightarrow> u32 \<Rightarrow> u32) \<Rightarrow>
    u32 list \<Rightarrow> u32 list \<Rightarrow> regs \<Rightarrow> nat \<Rightarrow> regs" where
  "sm3_step t ff gg w w1 r i =
     (case r of (A, B, C, D, E, F, G, H) \<Rightarrow>
        let SS1 = rotl (rotl A 12 + E + rotl t i) 7;
            SS2 = SS1 XOR rotl A 12;
            TT1 = ff A B C + D + SS2 + w1 ! i;
            TT2 = gg E F G + H + SS1 + w ! i
        in (TT1, A, rotl B 9, C, p0 TT2, E, rotl F 19, G))"

text \<open>\<^verbatim>\<open>a ^= A\<close> and so on after the rounds.\<close>

definition xor_regs :: "u32 list \<Rightarrow> regs \<Rightarrow> u32 list" where
  "xor_regs v r =
     (case r of (A, B, C, D, E, F, G, H) \<Rightarrow>
        [v ! 0 XOR A, v ! 1 XOR B, v ! 2 XOR C, v ! 3 XOR D, v ! 4 XOR E, v ! 5 XOR F, v ! 6 XOR G, v ! 7 XOR H])"

definition compress :: "u32 list \<Rightarrow> bytes \<Rightarrow> u32 list" where
  "compress v msg =
     (let w = schedule msg; w1 = schedule1 w;
          r0 = (v ! 0, v ! 1, v ! 2, v ! 3, v ! 4, v ! 5, v ! 6, v ! 7);
          r1 = foldl (sm3_step 0x79cc4519 ff0 gg0 w w1) r0 [0..<16];
          r2 = foldl (sm3_step 0x7a879d8a ff1 gg1 w w1) r1 [16..<64]
      in xor_regs v r2)"

text \<open>\<^verbatim>\<open>update\<close>: all full blocks of a message; the rest is left alone.\<close>

function update_loop :: "u32 list \<Rightarrow> bytes \<Rightarrow> u32 list" where
  "update_loop v msg = (if 64 \<le> length msg then update_loop (compress v (take 64 msg)) (drop 64 msg) else v)"
  by pat_completeness auto
termination
  by (relation "measure (\<lambda>(v, msg). length msg)") auto

declare update_loop.simps [simp del]

section \<open>The running hash\<close>

record SM3 =
  digest :: "u32 list"
  sm3_length :: u64
  unhandleMsg :: bytes

definition sm3_iv :: "u32 list" where
  "sm3_iv = [0x7380166f, 0x4914b2b9, 0x172442d7, 0xda8a0600, 0xa96f30bc, 0x163138aa, 0xe38dee4d, 0xb0fb0e4e]"

definition Sm3_Reset :: "SM3 \<Rightarrow> SM3" where
  "Sm3_Reset s = s\<lparr>digest := sm3_iv, sm3_length := 0, unhandleMsg := []\<rparr>"

definition Sm3_New :: SM3 where
  "Sm3_New = Sm3_Reset \<lparr> digest = replicate 8 0, sm3_length = 0, unhandleMsg = [] \<rparr>"

definition Sm3_BlockSize :: nat where "Sm3_BlockSize = 64"
definition Sm3_Size :: nat where "Sm3_Size = 32"

definition Sm3_update :: "bytes \<Rightarrow> SM3 \<Rightarrow> SM3" where
  "Sm3_update msg s = s\<lparr>digest := update_loop (digest s) msg\<rparr>"

definition Sm3_Write :: "bytes \<Rightarrow> SM3 \<Rightarrow> SM3" where
  "Sm3_Write p s =
     (let s1 = s\<lparr>sm3_length := sm3_length s + of_nat (length p * 8)\<rparr>;
          msg = unhandleMsg s @ p;
          nblocks = length msg div Sm3_BlockSize
      in (Sm3_update msg s1)\<lparr>unhandleMsg := drop (nblocks * Sm3_BlockSize) msg\<rparr>)"

text \<open>\<^verbatim>\<open>pad\<close>; the final check of the length panics.\<close>

function pad_loop :: "bytes \<Rightarrow> bytes" where
  "pad_loop msg = (if length msg mod 64 \<noteq> 56 then pad_loop (msg @ [0]) else msg)"
  by pat_completeness auto
termination
  by (relation "measure (\<lambda>msg. if length msg mod 64 \<le> 56 then 56 - length msg mod 64 else 120 - length msg mod 64)")
    (auto simp: mod_Suc)

declare pad_loop.simps [simp del]

definition len_bytes :: "u64 \<Rightarrow> bytes" where
  "len_bytes n = map (\<lambda>k. ucast (drop_bit k n AND 0xff)) [56, 48, 40, 32, 24, 16, 8, 0]"

definition Sm3_pad :: "SM3 \<Rightarrow> bytes option" where
  "Sm3_pad s =
     (let msg = pad_loop (unhandleMsg s @ [0x80]) @ len_bytes (sm3_length s)
      in if length msg mod 64 \<noteq> 0 then None else Some msg)"

text \<open>
  \<^verbatim>\<open>Sum\<close>: the 32 bytes after \<^verbatim>\<open>in\<close>, and the state it leaves. \<open>None\<close> is the panic of \<^verbatim>\<open>pad\<close>.
\<close>

definition Sm3_Sum :: "bytes \<Rightarrow> SM3 \<Rightarrow> (bytes \<times> SM3) option" where
  "Sm3_Sum b s =
     (let s1 = Sm3_Write b s in
      case Sm3_pad s1 of None \<Rightarrow> None
      | Some msg \<Rightarrow> let s2 = Sm3_update msg s1 in Some (concat (map put32 (take 8 (digest s2))), s2))"

definition Sm3Sum :: "bytes \<Rightarrow> bytes option" where
  "Sm3Sum data = map_option fst (Sm3_Sum [] (Sm3_Write data Sm3_New))"

text \<open>\<^verbatim>\<open>hashes.go\<close>; \<^verbatim>\<open>copy\<close> writes as many bytes as the target has.\<close>

definition Sm3_NewKeccak256 :: SM3 where "Sm3_NewKeccak256 = Sm3_New"

definition Sm3_Sum256 :: "bytes \<Rightarrow> bytes option" where "Sm3_Sum256 data = Sm3Sum data"

definition Sm3_hash_Sum :: "bytes \<Rightarrow> bytes \<Rightarrow> bytes option" where
  "Sm3_hash_Sum hash data =
     map_option (\<lambda>tmp. take (length hash) tmp @ drop (length tmp) hash) (Sm3Sum data)"

section \<open>The hash of a whole message\<close>

definition blocks :: "bytes \<Rightarrow> bytes list" where
  "blocks m = map (\<lambda>i. take 64 (drop (64 * i) m)) [0..<length m div 64]"

text \<open>The message, a one bit, the least number of zeros, and the length in bits.\<close>

definition sm3_padded :: "bytes \<Rightarrow> bytes" where
  "sm3_padded m = m @ [0x80] @ replicate ((119 - length m mod 64) mod 64) 0 @ len_bytes (of_nat (length m * 8))"

definition sm3_spec :: "bytes \<Rightarrow> bytes" where
  "sm3_spec m = concat (map put32 (foldl compress sm3_iv (blocks (sm3_padded m))))"

section \<open>The state follows the message\<close>

lemma blocks_Cons: "64 \<le> length m \<Longrightarrow> blocks m = take 64 m # blocks (drop 64 m)"
proof -
  assume m: "64 \<le> length m"
  then have d: "length m div 64 = Suc ((length m - 64) div 64)" by (simp add: le_div_geq)
  have "drop (64 * Suc i) m = drop (64 * i) (drop 64 m)" for i by (simp add: add.commute)
  then show ?thesis unfolding blocks_def d by (simp add: map_Suc_upt [symmetric] upt_conv_Cons del: upt_Suc)
qed

lemma update_loop_blocks: "update_loop v m = foldl compress v (blocks m)"
proof (induction v m rule: update_loop.induct)
  case (1 v msg)
  show ?case
  proof (cases "64 \<le> length msg")
    case True
    then show ?thesis using 1 by (simp add: update_loop.simps [of v msg] blocks_Cons)
  next
    case False
    then show ?thesis by (simp add: update_loop.simps [of v msg] blocks_def)
  qed
qed

lemma length_compress [simp]: "length (compress v m) = 8"
proof -
  have "length (xor_regs v r) = 8" for r by (simp add: xor_regs_def split: prod.splits)
  then show ?thesis by (simp only: compress_def Let_def)
qed

lemma length_update_loop: "length v = 8 \<Longrightarrow> length (update_loop v m) = 8"
proof (induction v m rule: update_loop.induct)
  case (1 v msg)
  then show ?case by (simp add: update_loop.simps [of v msg])
qed

lemma update_loop_append: "length a mod 64 = 0 \<Longrightarrow> update_loop v (a @ b) = update_loop (update_loop v a) b"
proof (induction v a rule: update_loop.induct)
  case (1 v a)
  show ?case
  proof (cases "64 \<le> length a")
    case True
    then have "(length a - 64) mod 64 = 0" using "1.prems" by (metis le_mod_geq)
    then show ?thesis using 1 True by (simp add: update_loop.simps [of v "a @ b"] update_loop.simps [of v a])
  next
    case False
    then have "a = []" using "1.prems" by simp
    then show ?thesis by (simp add: update_loop.simps [of v "[]"])
  qed
qed

definition done_part :: "bytes \<Rightarrow> bytes" where "done_part m = take (64 * (length m div 64)) m"
definition rest_part :: "bytes \<Rightarrow> bytes" where "rest_part m = drop (64 * (length m div 64)) m"

lemma done_rest [simp]: "done_part m @ rest_part m = m" "length (done_part m) mod 64 = 0" "length (rest_part m) < 64"
proof -
  show "done_part m @ rest_part m = m" by (simp add: done_part_def rest_part_def)
  have "min (length m) (64 * (length m div 64)) = 64 * (length m div 64)" by simp
  then show "length (done_part m) mod 64 = 0" by (simp add: done_part_def)
  show "length (rest_part m) < 64" by (simp add: rest_part_def minus_mult_div_eq_mod)
qed

lemma done_rest_unique:
  assumes "a @ r = m" "length a mod 64 = 0" "length r < 64"
  shows "a = done_part m" "r = rest_part m"
proof -
  have "length m div 64 * 64 = length a" using assms by (auto simp: div_mult_mod_eq [symmetric])
  then have "64 * (length m div 64) = length a" by simp
  then show "a = done_part m" "r = rest_part m" using assms(1) by (auto simp: done_part_def rest_part_def)
qed

lemma update_loop_short: "length m < 64 \<Longrightarrow> update_loop v m = v"
  by (simp add: update_loop.simps [of v m])

lemma update_loop_done: "update_loop v m = update_loop v (done_part m)"
  using update_loop_append [OF done_rest(2), of v m "rest_part m"] update_loop_short [OF done_rest(3)]
  by (simp only: done_rest(1))

definition follows :: "bytes \<Rightarrow> SM3 \<Rightarrow> bool" where
  "follows m s \<longleftrightarrow> digest s = update_loop sm3_iv m \<and> unhandleMsg s = rest_part m
     \<and> sm3_length s = of_nat (length m * 8)"

lemma follows_New: "follows [] Sm3_New"
  by (simp add: follows_def Sm3_New_def Sm3_Reset_def rest_part_def update_loop.simps [of _ "[]"])

lemma follows_Write: "follows m s \<Longrightarrow> follows (m @ p) (Sm3_Write p s)"
proof -
  assume f: "follows m s"
  let ?a = "done_part m" and ?q = "rest_part m @ p"
  have w: "update_loop sm3_iv (m @ p) = update_loop (update_loop sm3_iv m) ?q"
    using update_loop_append [of ?a sm3_iv ?q] update_loop_done [of sm3_iv m] by (simp flip: append_assoc)
  have l: "length (?a @ done_part ?q) mod 64 = 0"
    using done_rest(2) [of m] done_rest(2) [of ?q] by (simp add: mod_add_eq [symmetric] del: done_rest(2))
  have "(?a @ done_part ?q) @ rest_part ?q = m @ p"
    using done_rest(1) [of m] done_rest(1) [of ?q] by (metis append.assoc)
  then have r: "rest_part ?q = rest_part (m @ p)" by (rule done_rest_unique(2)) (simp_all only: l done_rest(3))
  show ?thesis using f w r
    by (simp add: follows_def Sm3_Write_def Sm3_update_def Sm3_BlockSize_def Let_def rest_part_def algebra_simps)
qed

section \<open>Padding and sums\<close>

lemma pad_loop_zeros: "pad_loop msg = msg @ replicate ((120 - length msg mod 64) mod 64) 0"
proof (induction msg rule: pad_loop.induct)
  case (1 msg)
  let ?n = "length msg mod 64"
  show ?case
  proof (cases "?n = 56")
    case True
    then show ?thesis by (simp add: pad_loop.simps [of msg])
  next
    case False
    have a: "(120 - n) mod 64 = Suc ((120 - (if n = 63 then 0 else Suc n)) mod 64)" if "n < 64" "n \<noteq> 56" for n :: nat
    proof (cases "n < 56")
      case True
      then have "(120 - n) mod 64 = 56 - n" "(119 - n) mod 64 = 55 - n"
        by (simp_all add: mod_if [of "120 - n"] mod_if [of "119 - n"])
      then show ?thesis using True by simp
    next
      case False
      then have "(120 - n) mod 64 = 120 - n" "n = 63 \<or> (119 - n) mod 64 = 119 - n" using that by auto
      then show ?thesis using that False by auto
    qed
    have s: "Suc (length msg) mod 64 = (if ?n = 63 then 0 else Suc ?n)" by (simp add: mod_Suc)
    have "?n < 64" by simp
    then have "(120 - ?n) mod 64 = Suc ((120 - Suc (length msg) mod 64) mod 64)" unfolding s using False by (rule a)
    then show ?thesis using 1 False by (simp add: pad_loop.simps [of msg])
  qed
qed

lemma length_len_bytes [simp]: "length (len_bytes n) = 8"
  by (simp add: len_bytes_def)

lemma Sm3_pad_follows:
  assumes "follows m s"
  shows "Sm3_pad s = Some (drop (length (done_part m)) (sm3_padded m))"
    and "done_part m @ drop (length (done_part m)) (sm3_padded m) = sm3_padded m"
proof -
  let ?p = "drop (length (done_part m)) (sm3_padded m)"
  let ?r = "rest_part m" and ?k = "(119 - length m mod 64) mod 64"
  have r: "length ?r = length m mod 64" by (simp add: rest_part_def minus_mult_div_eq_mod)
  have "length m mod 64 < 64" by simp
  then have k: "(120 - length (?r @ [0x80]) mod 64) mod 64 = ?k"
    unfolding length_append r by (auto simp: mod_Suc)
  have e: "sm3_padded m = done_part m @ ?r @ [0x80] @ replicate ?k 0 @ len_bytes (of_nat (length m * 8))"
    unfolding sm3_padded_def using done_rest(1) [of m] by (metis append.assoc)
  then have p: "?p = ?r @ [0x80] @ replicate ?k 0 @ len_bytes (of_nat (length m * 8))" by simp
  have "length ?p mod 64 = (length m mod 64 + (9 + ?k)) mod 64" by (simp add: p r)
  also have "\<dots> = 0"
  proof (cases "length m mod 64 \<le> 55")
    case True
    then show ?thesis by (simp add: mod_if [of "119 - _"])
  next
    case False
    then show ?thesis using \<open>length m mod 64 < 64\<close> by (simp add: mod_if [of "119 - _"])
  qed
  finally have "length ?p mod 64 = 0" .
  moreover have "pad_loop (?r @ [0x80]) @ len_bytes (of_nat (length m * 8)) = ?p"
    unfolding pad_loop_zeros k p by simp
  ultimately show "Sm3_pad s = Some ?p" using assms by (simp add: Sm3_pad_def Let_def follows_def)
  show "done_part m @ ?p = sm3_padded m" unfolding p by (rule e [symmetric])
qed

lemma Sum_follows:
  assumes "follows m s"
  shows "\<exists>s'. Sm3_Sum b s = Some (sm3_spec (m @ b), s') \<and> digest s' = foldl compress sm3_iv (blocks (sm3_padded (m @ b)))"
proof -
  let ?m = "m @ b" and ?s = "Sm3_Write b s"
  have f: "follows ?m ?s" using follows_Write [OF assms] .
  note p = Sm3_pad_follows [OF f]
  have "update_loop (digest ?s) (drop (length (done_part ?m)) (sm3_padded ?m)) = update_loop sm3_iv (sm3_padded ?m)"
    using f update_loop_done [of sm3_iv ?m] p(2)
      update_loop_append [OF done_rest(2), of sm3_iv ?m "drop (length (done_part ?m)) (sm3_padded ?m)"]
    by (simp add: follows_def)
  moreover have "length (update_loop sm3_iv (sm3_padded ?m)) = 8" by (rule length_update_loop) (simp add: sm3_iv_def)
  ultimately show ?thesis using p(1)
    by (simp add: Sm3_Sum_def Let_def Sm3_update_def sm3_spec_def update_loop_blocks)
qed

lemma follows_writes: "follows m s \<Longrightarrow> follows (m @ concat ps) (foldl (\<lambda>s p. Sm3_Write p s) s ps)"
proof (induction ps arbitrary: m s)
  case (Cons p ps)
  show ?case using Cons.IH [OF follows_Write [OF Cons.prems, of p]] by simp
qed simp

lemma Sum_writes: "map_option fst (Sm3_Sum b (foldl (\<lambda>s p. Sm3_Write p s) Sm3_New ps)) = Some (sm3_spec (concat ps @ b))"
  using Sum_follows [OF follows_writes [OF follows_New, of ps], of b] by auto

lemma Sm3Sum_spec [simp]: "Sm3Sum m = Some (sm3_spec m)"
  using Sum_writes [of "[]" "[m]"] by (simp add: Sm3Sum_def)

lemma length_sm3_spec [simp]: "length (sm3_spec m) = 32"
proof -
  have "length (update_loop sm3_iv (sm3_padded m)) = 8" by (rule length_update_loop) (simp add: sm3_iv_def)
  moreover have "length (concat (map put32 ws)) = 4 * length ws" for ws by (induction ws) simp_all
  ultimately show ?thesis by (simp add: sm3_spec_def update_loop_blocks)
qed

section \<open>Correctness\<close>

text \<open>
  C30: hashing in pieces. However a message is cut into the pieces given to \<^verbatim>\<open>Write\<close>, \<^verbatim>\<open>Sum\<close>
  returns the hash of the whole message: the compression folded over the 64-byte blocks of the
  padded message. The argument of \<^verbatim>\<open>Sum\<close> counts as one more piece, and the state \<^verbatim>\<open>Sum\<close> leaves
  behind is the final one, in which no more pieces can be added. The padding never panics.
\<close>

theorem sm3_streaming:
  "\<exists>s. Sm3_Sum b (foldl (\<lambda>s p. Sm3_Write p s) Sm3_New ps) = Some (sm3_spec (concat ps @ b), s)
     \<and> concat (map put32 (digest s)) = sm3_spec (concat ps @ b)"
  using Sum_follows [OF follows_writes [OF follows_New, of ps], of b] by (auto simp: sm3_spec_def)

end
