(* ===== verification/Sm2.thy ===== *)
theory Sm2
  imports Rlp_Head Sm3
begin

text \<open>
  SM2 signatures, encryption and key agreement of \<^verbatim>\<open>src/crypto-gm/sm2\<close> (\<^verbatim>\<open>sm2.go\<close>,
  \<^verbatim>\<open>sm2_verify.go\<close>), over the interface \<^verbatim>\<open>elliptic.Curve\<close>: the curve is an argument \<open>c\<close> of
  every function, and what the functions need of it is the predicate \<open>sm2_curve\<close>. The field arithmetic of
  \<^verbatim>\<open>p256.go\<close>, which implements the interface, is not in this theory.

  A random source is the list of the chunks it delivers, after which reading fails. \<^verbatim>\<open>Sign\<close> draws from
  AES-CTR keyed with fresh entropy and \<^verbatim>\<open>Sm2Sign\<close> from the system; both are such a list.
\<close>

section \<open>Curves and keys\<close>

record curve =
  cv_P :: int
  cv_N :: int
  cv_A :: int
  cv_B :: int
  cv_Gx :: int
  cv_Gy :: int
  cv_BitSize :: nat
  cv_IsOnCurve :: "int \<Rightarrow> int \<Rightarrow> bool"
  cv_Add :: "int \<times> int \<Rightarrow> int \<times> int \<Rightarrow> int \<times> int"
  cv_ScalarMult :: "int \<times> int \<Rightarrow> bytes \<Rightarrow> int \<times> int"
  cv_ScalarBaseMult :: "bytes \<Rightarrow> int \<times> int"

text \<open>A coordinate is a pointer; \<^verbatim>\<open>elliptic.Unmarshal\<close> may leave it nil.\<close>

record PublicKey =
  pk_X :: "int option"
  pk_Y :: "int option"

record PrivateKey = PublicKey +
  D :: int

datatype sm2_err = ErrRead | ErrZeroParam | ErrUid | ErrDecrypt bytes | ErrSharedKeyTooBig | ErrPubkey | Sm2Panic

text \<open>\<^verbatim>\<open>big.Int.Bytes\<close>, \<^verbatim>\<open>big.Int.SetBytes\<close>, and the left padding with \<^verbatim>\<open>zeroByteSlice\<close>.\<close>

definition big_bytes :: "int \<Rightarrow> bytes" where "big_bytes x = be_bytes (nat \<bar>x\<bar>)"
definition big_val :: "bytes \<Rightarrow> int" where "big_val b = int (be_val b)"
definition zeroByteSlice :: bytes where "zeroByteSlice = replicate 32 0"

definition pad32 :: "bytes \<Rightarrow> bytes" where
  "pad32 b = (if length b < 32 then take (32 - length b) zeroByteSlice @ b else b)"

text \<open>
  \<^verbatim>\<open>big.Int.ModInverse\<close> by the extended Euclidean algorithm; \<open>None\<close> is the nil it returns when the
  arguments have a common factor.
\<close>

function egcd :: "int \<Rightarrow> int \<Rightarrow> int \<Rightarrow> int \<Rightarrow> int \<times> int" where
  "egcd a b x y = (if b \<le> 0 then (a, x) else egcd b (a mod b) y (x - a div b * y))"
  by pat_completeness auto
termination
  by (relation "measure (\<lambda>(a, b, x, y). nat b)") auto

declare egcd.simps [simp del]

definition ModInverse :: "int \<Rightarrow> int \<Rightarrow> int option" where
  "ModInverse g n = (case egcd (g mod n) n 1 0 of (d, x) \<Rightarrow> if d = 1 then Some (x mod n) else None)"

section \<open>Key derivation and random scalars\<close>

definition intToBytes :: "nat \<Rightarrow> bytes" where
  "intToBytes x = put32 (of_nat x)"

definition kdf_hash :: "bytes \<Rightarrow> nat \<Rightarrow> bytes option" where
  "kdf_hash x ct = map_option fst (Sm3_Sum [] (Sm3_Write (intToBytes ct) (Sm3_Write x (Sm3_Reset Sm3_New))))"

fun kdf_loop :: "bytes \<Rightarrow> nat \<Rightarrow> nat \<Rightarrow> nat list \<Rightarrow> bytes option" where
  "kdf_loop x len j [] = Some []"
| "kdf_loop x len j (i # is) =
     (case kdf_hash x (i + 1) of None \<Rightarrow> None
      | Some hash \<Rightarrow>
          map_option (\<lambda>c. (if i + 1 = j \<and> len mod 32 \<noteq> 0 then take (len mod 32) hash else hash) @ c)
            (kdf_loop x len j is))"

definition kdf :: "bytes \<Rightarrow> bytes \<Rightarrow> nat \<Rightarrow> (bytes \<times> bool) option" where
  "kdf x y len =
     (let j = (len + 31) div 32
      in map_option (\<lambda>c. (c, list_ex (\<lambda>b. b \<noteq> 0) (take len c))) (kdf_loop (x @ y) len j [0..<j]))"

text \<open>One chunk of \<^verbatim>\<open>BitSize/8+8\<close> bytes gives a scalar from 1 to \<^verbatim>\<open>N-1\<close>; \<open>None\<close> is the division by zero.\<close>

definition randFieldElement :: "curve \<Rightarrow> bytes \<Rightarrow> int option" where
  "randFieldElement c b = (if cv_N c = 1 then None else Some (big_val b mod (cv_N c - 1) + 1))"

definition GenerateKey :: "curve \<Rightarrow> bytes list \<Rightarrow> sm2_err + PrivateKey" where
  "GenerateKey c rnd =
     (case rnd of [] \<Rightarrow> Inl ErrRead
      | b # _ \<Rightarrow>
          (case randFieldElement c b of None \<Rightarrow> Inl Sm2Panic
           | Some k \<Rightarrow>
               (case cv_ScalarBaseMult c (big_bytes k) of
                  (X, Y) \<Rightarrow> Inr \<lparr>pk_X = Some X, pk_Y = Some Y, D = k\<rparr>)))"

section \<open>Signatures\<close>

text \<open>
  The two nested loops of \<^verbatim>\<open>Sign\<close> and \<^verbatim>\<open>Sm2Sign\<close>; each turn of the inner one reads a chunk. A nil inverse
  panics in the multiplication.
\<close>

fun sign_loop :: "curve \<Rightarrow> int \<Rightarrow> int \<Rightarrow> bytes list \<Rightarrow> sm2_err + int \<times> int" where
  "sign_loop c d e [] = Inl ErrRead"
| "sign_loop c d e (b # rnd) =
     (case randFieldElement c b of None \<Rightarrow> Inl Sm2Panic
      | Some k \<Rightarrow>
          let r = (fst (cv_ScalarBaseMult c (big_bytes k)) + e) mod cv_N c
          in if r = 0 \<and> r + k \<noteq> cv_N c then sign_loop c d e rnd
             else case ModInverse (d + 1) (cv_N c) of None \<Rightarrow> Inl Sm2Panic
               | Some d1Inv \<Rightarrow>
                   let s = ((k - d * r) * d1Inv) mod cv_N c
                   in if s = 0 then sign_loop c d e rnd else Inr (r, s))"

definition Sm2_Sign :: "curve \<Rightarrow> PrivateKey \<Rightarrow> bytes \<Rightarrow> bytes list \<Rightarrow> sm2_err + int \<times> int" where
  "Sm2_Sign c priv hash rnd =
     (if cv_N c = 0 then Inl ErrZeroParam else sign_loop c (D priv) (big_val hash) rnd)"

text \<open>The part all four verifiers share, from the sum of the two halves on. A nil coordinate panics.\<close>

definition verify_point :: "curve \<Rightarrow> 'a PublicKey_scheme \<Rightarrow> int \<Rightarrow> int \<Rightarrow> int \<Rightarrow> bool option" where
  "verify_point c pub e r s =
     (let t = (r + s) mod cv_N c
      in if t = 0 then Some False
         else case (pk_X pub, pk_Y pub) of
           (Some X, Some Y) \<Rightarrow>
             (let (x, y) = cv_Add c (cv_ScalarBaseMult c (big_bytes s)) (cv_ScalarMult c (X, Y) (big_bytes t))
              in Some ((x + e) mod cv_N c = r))
         | _ \<Rightarrow> None)"

definition Sm2_Verify :: "curve \<Rightarrow> 'a PublicKey_scheme option \<Rightarrow> bytes \<Rightarrow> int \<Rightarrow> int \<Rightarrow> bool option" where
  "Sm2_Verify c pub hash r s =
     (case pub of None \<Rightarrow> None
      | Some p \<Rightarrow>
          if r \<le> 0 \<or> s \<le> 0 then Some False
          else if r \<ge> cv_N c \<or> s \<ge> cv_N c then Some False
          else verify_point c p (big_val hash) r s)"

definition msgHash :: "bytes \<Rightarrow> bytes \<Rightarrow> int option" where
  "msgHash za msg =
     map_option (\<lambda>(h, _). big_val (take 32 h)) (Sm3_Sum [] (Sm3_Write msg (Sm3_Write za Sm3_New)))"

text \<open>The coordinates of the curve are written without padding, the x of the key is padded and its y is not.\<close>

definition ZA_parts :: "curve \<Rightarrow> int \<Rightarrow> int \<Rightarrow> bytes \<Rightarrow> bytes list" where
  "ZA_parts c X Y uid =
     (let Entla = of_nat (8 * length uid) :: 16 word
      in [[ucast (drop_bit 8 Entla AND 0xFF)], [ucast (Entla AND 0xFF)], uid,
          big_bytes (cv_A c), big_bytes (cv_B c), big_bytes (cv_Gx c), big_bytes (cv_Gy c),
          pad32 (big_bytes X), big_bytes Y])"

definition ZA :: "curve \<Rightarrow> 'a PublicKey_scheme \<Rightarrow> bytes \<Rightarrow> sm2_err + bytes" where
  "ZA c pub uid =
     (if length uid \<ge> 8192 then Inl ErrUid
      else case (pk_X pub, pk_Y pub) of
        (Some X, Some Y) \<Rightarrow>
          (case Sm3_Sum [] (foldl (\<lambda>s p. Sm3_Write p s) Sm3_New (ZA_parts c X Y uid)) of
             None \<Rightarrow> Inl Sm2Panic
           | Some (h, _) \<Rightarrow> Inr (take 32 h))
      | _ \<Rightarrow> Inl Sm2Panic)"

definition Sm2Sign :: "curve \<Rightarrow> PrivateKey \<Rightarrow> bytes \<Rightarrow> bytes \<Rightarrow> bytes list \<Rightarrow> sm2_err + int \<times> int" where
  "Sm2Sign c priv msg uid rnd =
     (case ZA c priv uid of Inl err \<Rightarrow> Inl err
      | Inr za \<Rightarrow>
          (case msgHash za msg of None \<Rightarrow> Inl Sm2Panic
           | Some e \<Rightarrow> if cv_N c = 0 then Inl ErrZeroParam else sign_loop c (D priv) e rnd))"

definition Sm2Verify :: "curve \<Rightarrow> 'a PublicKey_scheme \<Rightarrow> bytes \<Rightarrow> bytes \<Rightarrow> int \<Rightarrow> int \<Rightarrow> bool option" where
  "Sm2Verify c pub msg uid r s =
     (if r < 1 \<or> s < 1 then Some False
      else if r \<ge> cv_N c \<or> s \<ge> cv_N c then Some False
      else case ZA c pub uid of Inl Sm2Panic \<Rightarrow> None | Inl _ \<Rightarrow> Some False
        | Inr za \<Rightarrow>
            (case msgHash za msg of None \<Rightarrow> None | Some e \<Rightarrow> verify_point c pub e r s))"

definition VerifyBytes :: "curve \<Rightarrow> bytes \<Rightarrow> bytes \<Rightarrow> bytes \<Rightarrow> bytes \<Rightarrow> bytes \<Rightarrow> bytes \<Rightarrow> bool option" where
  "VerifyBytes c pubX pubY msg uid r s =
     (let pub = \<lparr>pk_X = Some (big_val pubX), pk_Y = Some (big_val pubY)\<rparr>;
          bigR = big_val r; bigS = big_val s
      in if bigR < 1 \<or> bigS < 1 then Some False
         else if bigR \<ge> cv_N c \<or> bigS \<ge> cv_N c then Some False
         else case ZA c pub uid of Inl Sm2Panic \<Rightarrow> None | Inl _ \<Rightarrow> Some False
           | Inr za \<Rightarrow>
               (case msgHash za msg of None \<Rightarrow> None | Some e \<Rightarrow> verify_point c pub e bigR bigS))"

definition Sm2VerifyBytes :: "curve \<Rightarrow> bytes \<Rightarrow> bytes \<Rightarrow> bytes \<Rightarrow> bool option" where
  "Sm2VerifyBytes c publicKey hash signature =
     (if length publicKey < 33 \<or> length signature < 32 then None
      else
        let pub = \<lparr>pk_X = Some (big_val (take 32 (drop 1 publicKey))), pk_Y = Some (big_val (drop 33 publicKey))\<rparr>;
            bigR = big_val (take 32 signature); bigS = big_val (drop 32 signature)
        in if bigR < 1 \<or> bigS < 1 then Some False
           else if bigR \<ge> cv_N c \<or> bigS \<ge> cv_N c then Some False
           else verify_point c pub (big_val hash) bigR bigS)"

section \<open>Encryption and key agreement\<close>

text \<open>The loop of \<^verbatim>\<open>Encrypt\<close>; a key stream of zeros makes it try again.\<close>

fun Encrypt_loop :: "curve \<Rightarrow> int \<times> int \<Rightarrow> bytes \<Rightarrow> bytes list \<Rightarrow> sm2_err + bytes" where
  "Encrypt_loop c pub data [] = Inl ErrRead"
| "Encrypt_loop c pub data (b # rnd) =
     (case randFieldElement c b of None \<Rightarrow> Inl Sm2Panic
      | Some k \<Rightarrow>
          let (x1, y1) = cv_ScalarBaseMult c (big_bytes k);
              (x2, y2) = cv_ScalarMult c pub (big_bytes k);
              x1Buf = pad32 (big_bytes x1); y1Buf = pad32 (big_bytes y1);
              x2Buf = pad32 (big_bytes x2); y2Buf = pad32 (big_bytes y2)
          in case (Sm3Sum (x2Buf @ data @ y2Buf), kdf x2Buf y2Buf (length data)) of
               (Some h, Some (ct, ok)) \<Rightarrow>
                 if \<not> ok then Encrypt_loop c pub data rnd
                 else let c1 = x1Buf @ y1Buf @ h @ ct
                   in Inr (0x04 # take 96 c1 @ map2 (XOR) (take (length data) (drop 96 c1)) data @ drop (96 + length data) c1)
             | _ \<Rightarrow> Inl Sm2Panic)"

definition Sm2_Encrypt :: "curve \<Rightarrow> 'a PublicKey_scheme \<Rightarrow> bytes \<Rightarrow> bytes list \<Rightarrow> sm2_err + bytes" where
  "Sm2_Encrypt c pub data rnd =
     (if length data = 0 then Inr data
      else case (pk_X pub, pk_Y pub) of
        (Some X, Some Y) \<Rightarrow> Encrypt_loop c (X, Y) data rnd
      | _ \<Rightarrow> if rnd = [] then Inl ErrRead else Inl Sm2Panic)"

text \<open>
  \<^verbatim>\<open>ErrDecrypt c\<close> is the error with the bytes returned beside it. Slicing panics on fewer than 65 bytes; a
  length of 97 or less leaves an empty key stream, which counts as all zero.
\<close>

definition Sm2_Decrypt :: "curve \<Rightarrow> PrivateKey \<Rightarrow> bytes \<Rightarrow> sm2_err + bytes" where
  "Sm2_Decrypt c priv data0 =
     (if length data0 = 0 then Inr data0
      else let data = drop 1 data0; len = length data - 96
        in if length data < 64 then Inl Sm2Panic
           else
             let x = big_val (take 32 data); y = big_val (take 32 (drop 32 data));
                 (x2, y2) = cv_ScalarMult c (x, y) (big_bytes (D priv));
                 x2Buf = pad32 (big_bytes x2); y2Buf = pad32 (big_bytes y2)
             in case kdf x2Buf y2Buf len of None \<Rightarrow> Inl Sm2Panic
                | Some (c1, ok) \<Rightarrow>
                    if \<not> ok then Inl (ErrDecrypt [])
                    else let c2 = map2 (XOR) c1 (drop 96 data)
                      in case Sm3Sum (x2Buf @ c2 @ y2Buf) of None \<Rightarrow> Inl Sm2Panic
                         | Some h \<Rightarrow> if h \<noteq> take 32 (drop 64 data) then Inl (ErrDecrypt c2) else Inr c2)"

definition getLastBit :: "int \<Rightarrow> nat" where "getLastBit a = nat (\<bar>a\<bar> mod 2)"

definition Compress :: "'a PublicKey_scheme \<Rightarrow> bytes option" where
  "Compress a =
     (case (pk_X a, pk_Y a) of
        (Some X, Some Y) \<Rightarrow>
          (let yp = getLastBit Y; buf = pad32 (big_bytes X);
               buf1 = (if yp = 0 then 2 # buf else buf)
           in Some (if yp = 1 then 3 # buf1 else buf1))
      | _ \<Rightarrow> None)"

definition MaxSharedKeyLength :: "curve \<Rightarrow> nat" where
  "MaxSharedKeyLength c = (cv_BitSize c + 7) div 8"

definition GenerateShared :: "curve \<Rightarrow> PrivateKey \<Rightarrow> 'a PublicKey_scheme \<Rightarrow> nat \<Rightarrow> nat \<Rightarrow> sm2_err + bytes" where
  "GenerateShared c prv pub skLen macLen =
     (if skLen + macLen > MaxSharedKeyLength c then Inl ErrSharedKeyTooBig
      else case pk_X pub of None \<Rightarrow> Inl ErrPubkey
        | Some X \<Rightarrow>
            (case pk_Y pub of None \<Rightarrow> Inl Sm2Panic
             | Some Y \<Rightarrow>
                 let skBytes = big_bytes (fst (cv_ScalarMult c (X, Y) (big_bytes (D prv))))
                 in if length skBytes > skLen + macLen then Inl Sm2Panic
                    else Inr (replicate (skLen + macLen - length skBytes) 0 @ skBytes)))"

section \<open>Inverses\<close>

lemma egcd_gcd:
  assumes "0 \<le> a" "0 \<le> b" and "a = (x * g + u * n)" "b = (y * g + v * n)"
  shows "fst (egcd a b x y) = gcd a b \<and> (\<exists>w. fst (egcd a b x y) = snd (egcd a b x y) * g + w * n)"
  using assms
proof (induction a b x y arbitrary: u v rule: egcd.induct)
  case (1 a b x y)
  show ?case
  proof (cases "b \<le> 0")
    case True
    then have "egcd a b x y = (a, x)" by (subst egcd.simps) simp
    then show ?thesis using True "1.prems"(1-3) by auto
  next
    case False
    have m: "a mod b = (x - a div b * y) * g + (u - a div b * v) * n"
      using "1.prems"(3,4) by (simp add: minus_div_mult_eq_mod [symmetric] algebra_simps)
    have "0 \<le> a mod b" using False by simp
    note ih = "1.IH" [OF False "1.prems"(2) this "1.prems"(4) m]
    have "egcd a b x y = egcd b (a mod b) y (x - a div b * y)" using False by (subst egcd.simps) simp
    then show ?thesis using ih unfolding gcd_red_int [of a b] by (metis (no_types))
  qed
qed

lemma ModInverse_some:
  assumes "coprime g n" "1 < n"
  obtains i where "ModInverse g n = Some i" "(i * g) mod n = 1"
proof -
  let ?e = "egcd (g mod n) n 1 0"
  have e: "fst ?e = gcd (g mod n) n \<and> (\<exists>w. fst ?e = snd ?e * (g mod n) + w * n)"
    using assms by (intro egcd_gcd [where u = 0 and v = 1]) auto
  have "gcd (g mod n) n = 1" using assms(1) by (metis coprime_iff_gcd_eq_1 gcd.commute gcd_red_int)
  with e obtain w where w: "fst ?e = 1" "snd ?e * (g mod n) + w * n = 1" by auto
  have "(snd ?e mod n * g) mod n = (snd ?e * (g mod n) + w * n) mod n" by (simp add: mod_mult_eq mod_mult_left_eq mod_mult_right_eq)
  then have "(snd ?e mod n * g) mod n = 1" using w(2) assms(2) by simp
  moreover have "ModInverse g n = Some (snd ?e mod n)" using w(1) by (cases ?e) (simp add: ModInverse_def)
  ultimately show ?thesis using that by blast
qed


section \<open>Curves as cyclic groups\<close>

text \<open>
  What the documentation of \<^verbatim>\<open>elliptic.Curve\<close> promises, for the multiples \<open>pt k\<close> of the base point:
  \<^verbatim>\<open>ScalarBaseMult\<close> gives the multiple of a big-endian scalar, \<^verbatim>\<open>ScalarMult\<close> and \<^verbatim>\<open>Add\<close> are the
  multiple and the sum, \<^verbatim>\<open>N\<close> is the order of the base point, and coordinates fit in 32 bytes.
\<close>

definition sm2_curve :: "curve \<Rightarrow> (int \<Rightarrow> int \<times> int) \<Rightarrow> bool" where
  "sm2_curve c pt \<longleftrightarrow> 1 < cv_N c
     \<and> (\<forall>b. cv_ScalarBaseMult c b = pt (big_val b))
     \<and> (\<forall>a b. cv_ScalarMult c (pt a) b = pt (a * big_val b))
     \<and> (\<forall>a b. cv_Add c (pt a) (pt b) = pt (a + b))
     \<and> (\<forall>a. pt (a mod cv_N c) = pt a)
     \<and> (\<forall>a. 0 \<le> fst (pt a) \<and> fst (pt a) < 256 ^ 32 \<and> 0 \<le> snd (pt a) \<and> snd (pt a) < 256 ^ 32)"

text \<open>A private key with the public key that belongs to it.\<close>

definition key_pair :: "(int \<Rightarrow> int \<times> int) \<Rightarrow> int \<Rightarrow> 'a PublicKey_scheme \<Rightarrow> bool" where
  "key_pair pt d pub \<longleftrightarrow> 0 < d \<and> pk_X pub = Some (fst (pt d)) \<and> pk_Y pub = Some (snd (pt d))"

lemma big_val_bytes [simp]: "0 \<le> x \<Longrightarrow> big_val (big_bytes x) = x"
  by (simp add: big_val_def big_bytes_def)

lemma randFieldElement_range:
  "randFieldElement c b = Some k \<Longrightarrow> 1 < cv_N c \<Longrightarrow> 0 < k \<and> k < cv_N c"
  using pos_mod_bound [of "cv_N c - 1" "big_val b"] pos_mod_sign [of "cv_N c - 1" "big_val b"]
  by (simp add: randFieldElement_def split: if_splits; linarith)

text \<open>Every signature the loop returns comes from one scalar and solves the equation of the scheme.\<close>

lemma sign_loop_sound:
  assumes "sm2_curve c pt" and "coprime (d + 1) (cv_N c)" and "sign_loop c d e rnd = Inr (r, s)"
  shows "\<exists>k. 0 < k \<and> k < cv_N c \<and> r = (fst (pt k) + e) mod cv_N c \<and> 0 < r \<and> r < cv_N c
    \<and> 0 < s \<and> s < cv_N c \<and> (s * (d + 1)) mod cv_N c = (k - d * r) mod cv_N c"
  using assms(3)
proof (induction rnd)
  case (Cons b rnd)
  have N: "1 < cv_N c" using assms(1) by (simp add: sm2_curve_def)
  obtain k where k: "randFieldElement c b = Some k" using Cons.prems by (auto split: option.splits)
  note kr = randFieldElement_range [OF k N]
  have p: "fst (cv_ScalarBaseMult c (big_bytes k)) = fst (pt k)" using assms(1) kr by (simp add: sm2_curve_def)
  obtain i where i: "ModInverse (d + 1) (cv_N c) = Some i" "(i * (d + 1)) mod cv_N c = 1"
    using ModInverse_some assms(2) N by blast
  let ?r = "(fst (pt k) + e) mod cv_N c"
  let ?s = "((k - d * ?r) * i) mod cv_N c"
  show ?case
  proof (cases "?r = 0 \<or> ?s = 0")
    case True
    then have "sign_loop c d e rnd = Inr (r, s)" using Cons.prems k p i(1) kr by (auto simp: Let_def split: if_splits)
    then show ?thesis by (rule Cons.IH)
  next
    case False
    then have rs: "r = ?r" "s = ?s" using Cons.prems k p i(1) by (auto simp: Let_def)
    have "(s * (d + 1)) mod cv_N c = ((k - d * r) * (i * (d + 1) mod cv_N c)) mod cv_N c"
      unfolding rs by (simp add: mod_mult_left_eq mod_mult_right_eq mult.assoc)
    then have "(s * (d + 1)) mod cv_N c = (k - d * r) mod cv_N c" using i(2) by simp
    moreover have "0 < r" "r < cv_N c" "0 < s" "s < cv_N c"
      using False N pos_mod_sign [of "cv_N c"] pos_mod_bound [of "cv_N c"] unfolding rs by (auto simp: order_less_le)
    ultimately show ?thesis using kr rs(1) by blast
  qed
qed simp


lemma verify_point_eq:
  assumes c: "sm2_curve c pt" and "coprime (d + 1) (cv_N c)" and p: "key_pair pt d pub"
    and "0 < k" "k < cv_N c" and "0 < r" "r < cv_N c" and s: "0 < s"
    and eq: "(s * (d + 1)) mod cv_N c = (k - d * r) mod cv_N c" and r: "r = (fst (pt k) + e) mod cv_N c"
  shows "verify_point c pub e r s = Some (r + k \<noteq> cv_N c)"
proof -
  let ?N = "cv_N c" and ?t = "(r + s) mod cv_N c"
  have N: "1 < ?N" using c by (simp add: sm2_curve_def)
  have x: "(s * (d + 1) + z) mod ?N = (k - d * r + z) mod ?N" for z using eq by (rule mod_add_cong) simp
  have "?t = 0 \<longleftrightarrow> ?N dvd (r + s) * (d + 1)"
    using assms(2) by (simp add: mod_eq_0_iff_dvd coprime_dvd_mult_left_iff coprime_commute)
  also have "\<dots> \<longleftrightarrow> ?N dvd k + r"
    using x [of "r * (d + 1)"] by (simp add: mod_eq_0_iff_dvd [symmetric] algebra_simps)
  also have "\<dots> \<longleftrightarrow> r + k = ?N"
  proof
    assume "?N dvd k + r"
    moreover have "0 < k + r" "k + r < 2 * ?N" using assms(4-7) by linarith+
    ultimately obtain q where "k + r = ?N * q" "0 < q" "q < 2" using N by (auto elim!: dvdE simp: zero_less_mult_iff)
    then show "r + k = ?N" by (cases "q = 1") auto
  qed (simp add: add.commute)
  finally have t: "?t = 0 \<longleftrightarrow> r + k = ?N" .
  have "(s + d * ?t) mod ?N = (s * (d + 1) + d * r) mod ?N"
    by (subst mod_add_right_eq [symmetric], subst mod_mult_right_eq, subst mod_add_right_eq) (simp add: algebra_simps)
  also have "\<dots> = k mod ?N" unfolding x by simp
  finally have "pt (s + d * ?t) = pt k" using c unfolding sm2_curve_def by metis
  then have "cv_Add c (cv_ScalarBaseMult c (big_bytes s)) (cv_ScalarMult c (pt d) (big_bytes ?t)) = pt k"
    using c s N by (simp add: sm2_curve_def)
  moreover have "pk_X pub = Some (fst (pt d))" "pk_Y pub = Some (snd (pt d))" using p by (simp_all add: key_pair_def)
  ultimately show ?thesis using t by (simp add: verify_point_def Let_def split_beta flip: r)
qed

section \<open>Key streams\<close>

lemma kdf_hash_spec: "kdf_hash x ct = Some (sm3_spec (x @ intToBytes ct))"
  using Sum_writes [of "[]" "[x, intToBytes ct]"] by (simp add: kdf_hash_def Sm3_New_def Sm3_Reset_def)

lemma kdf_loop_length:
  "\<exists>c. kdf_loop x len j is = Some c
     \<and> length c = (\<Sum>i\<leftarrow>is. if i + 1 = j \<and> len mod 32 \<noteq> 0 then len mod 32 else 32)"
  by (induction "is") (auto simp: kdf_hash_spec)

lemma sum_blocks:
  fixes q r :: nat
  shows "(\<Sum>i\<leftarrow>[0..<if r = 0 then q else Suc q]. if i + 1 = (if r = 0 then q else Suc q) \<and> r \<noteq> 0 then r else 32) = 32 * q + r"
proof (cases "r = 0")
  case True
  then show ?thesis by (simp add: sum_list_triv)
next
  case False
  have "map (\<lambda>i. if i + 1 = Suc q \<and> r \<noteq> 0 then r else 32) [0..<q] = map (\<lambda>_. 32) [0..<q]" by (intro map_cong) auto
  then show ?thesis using False by (simp add: sum_list_triv del: map_eq_conv)
qed

lemma block_count: "(len + 31) div 32 = (if len mod 32 = 0 then len div 32 else Suc (len div 32))" for len :: nat
proof -
  have "len = 32 * (len div 32) + len mod 32" "len mod 32 < 32" by simp_all
  then obtain q r where "len = 32 * q + r" "r < 32" by blast
  then show ?thesis by (cases "r = 0") (simp_all add: div_add1_eq [of "32 * q"])
qed

lemma kdf_length: "\<exists>c. kdf x y len = Some (c, list_ex (\<lambda>b. b \<noteq> 0) c) \<and> length c = len"
proof -
  let ?j = "(len + 31) div 32"
  obtain c where "kdf_loop (x @ y) len ?j [0..<?j] = Some c" "length c = 32 * (len div 32) + len mod 32"
    using kdf_loop_length [of "x @ y" len ?j "[0..<?j]"]
    unfolding block_count sum_blocks [of "len mod 32" "len div 32"] by blast
  then show ?thesis by (simp add: kdf_def Let_def)
qed

section \<open>Correctness\<close>

lemma sign_loop_total:
  assumes "sm2_curve c pt" "coprime (d + 1) (cv_N c)"
  shows "sign_loop c d e rnd = Inl ErrRead \<or> (\<exists>r s. sign_loop c d e rnd = Inr (r, s))"
proof (induction rnd)
  case (Cons b rnd)
  obtain i where "ModInverse (d + 1) (cv_N c) = Some i"
    using ModInverse_some assms by (metis sm2_curve_def)
  moreover have "1 < cv_N c" using assms(1) by (simp add: sm2_curve_def)
  ultimately show ?case using Cons.IH by (simp add: randFieldElement_def Let_def)
qed simp

lemma msgHash_spec: "msgHash za msg = Some (big_val (sm3_spec (za @ msg)))"
  using Sum_writes [of "[]" "[za, msg]"] by (auto simp: msgHash_def split_beta)

lemma ZA_some:
  assumes "length uid < 8192" "key_pair pt d pub"
  shows "\<exists>za. ZA c pub uid = Inr za"
proof -
  obtain h s where "Sm3_Sum [] (foldl (\<lambda>s p. Sm3_Write p s) Sm3_New (ZA_parts c (fst (pt d)) (snd (pt d)) uid)) = Some (h, s)"
    using Sum_writes [of "[]" "ZA_parts c (fst (pt d)) (snd (pt d)) uid"] by auto
  then show ?thesis using assms by (simp add: ZA_def key_pair_def)
qed

definition sign_outcome :: "curve \<Rightarrow> (int \<Rightarrow> int \<times> int) \<Rightarrow> int \<Rightarrow> (int \<Rightarrow> int \<Rightarrow> bool option) \<Rightarrow> sm2_err + int \<times> int \<Rightarrow> bool" where
  "sign_outcome c pt e verify res \<longleftrightarrow>
     (case res of Inl err \<Rightarrow> err = ErrRead
      | Inr (r, s) \<Rightarrow> \<exists>k. 0 < k \<and> k < cv_N c \<and> r = (fst (pt k) + e) mod cv_N c \<and> verify r s = Some (r + k \<noteq> cv_N c))"

lemma sign_loop_outcome:
  assumes "sm2_curve c pt" "coprime (d + 1) (cv_N c)" "key_pair pt d pub"
    and "\<And>r s. 0 < r \<Longrightarrow> r < cv_N c \<Longrightarrow> 0 < s \<Longrightarrow> s < cv_N c \<Longrightarrow> verify r s = verify_point c pub e r s"
  shows "sign_outcome c pt e verify (sign_loop c d e rnd)"
proof (cases "sign_loop c d e rnd")
  case (Inl err)
  then show ?thesis using sign_loop_total [OF assms(1,2), of e rnd] by (simp add: sign_outcome_def)
next
  case (Inr rs)
  then obtain r s where rs: "sign_loop c d e rnd = Inr (r, s)" by (cases rs) auto
  obtain k where k: "0 < k" "k < cv_N c" "r = (fst (pt k) + e) mod cv_N c" "0 < r" "r < cv_N c" "0 < s" "s < cv_N c"
    "(s * (d + 1)) mod cv_N c = (k - d * r) mod cv_N c"
    using sign_loop_sound [OF assms(1,2) rs] by blast
  have "verify r s = Some (r + k \<noteq> cv_N c)"
    using assms(4) [OF k(4-7)] verify_point_eq [OF assms(1-3) k(1,2,4,5,6,8,3)] by simp
  then show ?thesis unfolding rs sign_outcome_def using k(1-3) by auto
qed



text \<open>The numbers modulo 7 as a curve, for the witnesses.\<close>

definition toy_pt :: "int \<Rightarrow> int \<times> int" where "toy_pt a = (a mod 7, a mod 7)"

definition toy_curve :: curve where
  "toy_curve = \<lparr> cv_P = 7, cv_N = 7, cv_A = 1, cv_B = 1, cv_Gx = 1, cv_Gy = 1, cv_BitSize = 256,
     cv_IsOnCurve = (\<lambda>x y. x = y), cv_Add = (\<lambda>p q. toy_pt (fst p + fst q)),
     cv_ScalarMult = (\<lambda>p b. toy_pt (fst p * big_val b)), cv_ScalarBaseMult = (\<lambda>b. toy_pt (big_val b)) \<rparr>"

definition toy_key :: PrivateKey where
  "toy_key = \<lparr> pk_X = Some 2, pk_Y = Some 2, D = 2 \<rparr>"

lemma toy_curve_ok: "sm2_curve toy_curve toy_pt"
proof -
  have "0 \<le> a mod 7 \<and> a mod 7 < (256 :: int) ^ 32" for a :: int
    using pos_mod_bound [of 7 a] by (simp add: less_trans [of _ 7])
  then show ?thesis by (simp add: sm2_curve_def toy_curve_def toy_pt_def mod_mult_left_eq mod_add_eq)
qed

lemma toy_key_ok: "key_pair toy_pt (D toy_key) toy_key" "coprime (D toy_key + 1) (cv_N toy_curve)"
proof -
  show "key_pair toy_pt (D toy_key) toy_key" by (simp add: key_pair_def toy_key_def toy_pt_def)
  have "gcd 3 (7 :: int) = 1" by code_simp
  then show "coprime (D toy_key + 1) (cv_N toy_curve)" by (simp add: toy_key_def toy_curve_def coprime_iff_gcd_eq_1)
qed


section \<open>Decryption\<close>

lemma pad32_coordinate:
  assumes "0 \<le> x" "x < 256 ^ 32"
  shows "length (pad32 (big_bytes x)) = 32" "big_val (pad32 (big_bytes x)) = x"
proof -
  have "length (big_bytes x) \<le> 32" unfolding big_bytes_def using assms by (intro length_be_bytes_le) (simp add: nat_less_iff)
  then show "length (pad32 (big_bytes x)) = 32" by (simp add: pad32_def zeroByteSlice_def)
  show "big_val (pad32 (big_bytes x)) = x"
    using assms(1) by (simp add: pad32_def zeroByteSlice_def big_val_def big_bytes_def)
qed

lemma map2_xor_twice: "length a = length b \<Longrightarrow> map2 (XOR) a (map2 (XOR) a b) = (b :: bytes)"
  by (induction a b rule: list_induct2) (simp_all flip: xor.assoc)


lemma Decrypt_parts:
  assumes "length xb = 32" "length yb = 32"
    and "cv_ScalarMult c (big_val xb, big_val yb) (big_bytes (D priv)) = (x2, y2)"
    and "kdf (pad32 (big_bytes x2)) (pad32 (big_bytes y2)) (length data) = Some (ks, True)" "length ks = length data"
  shows "Sm2_Decrypt c priv (t # xb @ yb @ sm3_spec (pad32 (big_bytes x2) @ data @ pad32 (big_bytes y2)) @ map2 (XOR) ks data)
    = Inr data"
  using assms by (simp add: Sm2_Decrypt_def Let_def map2_xor_twice)

lemma Encrypt_loop_Cons:
  assumes "randFieldElement c b = Some k" "cv_ScalarBaseMult c (big_bytes k) = (x1, y1)"
    and "cv_ScalarMult c p (big_bytes k) = (x2, y2)"
    and "length (pad32 (big_bytes x1)) = 32" "length (pad32 (big_bytes y1)) = 32"
    and "kdf (pad32 (big_bytes x2)) (pad32 (big_bytes y2)) (length data) = Some (ks, g)" "length ks = length data"
  shows "Encrypt_loop c p data (b # rnd) =
    (if g then Inr (0x04 # pad32 (big_bytes x1) @ pad32 (big_bytes y1)
       @ sm3_spec (pad32 (big_bytes x2) @ data @ pad32 (big_bytes y2)) @ map2 (XOR) ks data)
     else Encrypt_loop c p data rnd)"
  using assms by (simp add: Let_def)

lemma Encrypt_loop_decrypts:
  assumes c: "sm2_curve c pt" and d: "0 < D priv"
  shows "case Encrypt_loop c (pt (D priv)) data rnd of Inl err \<Rightarrow> err = ErrRead
    | Inr ct \<Rightarrow> Sm2_Decrypt c priv ct = Inr data"
proof (induction rnd)
  case (Cons b rnd)
  have N: "1 < cv_N c" using c by (simp add: sm2_curve_def)
  obtain k where k: "randFieldElement c b = Some k" "0 < k"
    using N randFieldElement_range [of c b] by (fastforce simp: randFieldElement_def)
  obtain x1 y1 where p1: "pt k = (x1, y1)" by (cases "pt k")
  obtain x2 y2 where p2: "pt (D priv * k) = (x2, y2)" by (cases "pt (D priv * k)")
  have r: "0 \<le> x1" "x1 < 256 ^ 32" "0 \<le> y1" "y1 < 256 ^ 32"
    using c p1 unfolding sm2_curve_def by (metis fst_conv snd_conv)+
  have m: "cv_ScalarMult c (pt a) q = pt (a * big_val q)" for a q using c by (simp add: sm2_curve_def)
  have s: "cv_ScalarBaseMult c (big_bytes k) = (x1, y1)" "cv_ScalarMult c (pt (D priv)) (big_bytes k) = (x2, y2)"
    using c p1 p2 k(2) by (simp_all add: sm2_curve_def)
  have "cv_ScalarMult c (x1, y1) (big_bytes (D priv)) = (x2, y2)"
    using m [of k "big_bytes (D priv)"] p1 p2 d by (simp add: mult.commute)
  then have t: "cv_ScalarMult c (big_val (pad32 (big_bytes x1)), big_val (pad32 (big_bytes y1))) (big_bytes (D priv)) = (x2, y2)"
    by (simp add: pad32_coordinate(2) [OF r(1,2)] pad32_coordinate(2) [OF r(3,4)])
  obtain ks g where ks: "kdf (pad32 (big_bytes x2)) (pad32 (big_bytes y2)) (length data) = Some (ks, g)" "length ks = length data"
    using kdf_length by blast
  have l: "length (pad32 (big_bytes x1)) = 32" "length (pad32 (big_bytes y1)) = 32" 
    using pad32_coordinate(1) r by blast+
  show ?case
  proof (cases g)
    case True
    then show ?thesis using Encrypt_loop_Cons [OF k(1) s l ks] Decrypt_parts [OF l t] ks by simp
  next
    case False
    then show ?thesis using Encrypt_loop_Cons [OF k(1) s l ks] Cons.IH by simp
  qed
qed simp



end
