(* ===== verification/Encodings.thy ===== *)
theory Encodings
  imports Sm2
begin

text \<open>
  The text and binary encodings keys and signatures travel in: \<^verbatim>\<open>encoding/base64\<close> (\<^verbatim>\<open>StdEncoding\<close>),
  \<^verbatim>\<open>encoding/asn1\<close> for the struct \<^verbatim>\<open>sm2Signature\<close> with its two functions of \<^verbatim>\<open>sm2.go\<close>, and
  \<^verbatim>\<open>elliptic.Marshal\<close>. Each decoder reads back what its encoder writes.
\<close>

section \<open>Base64\<close>

definition b64_char :: "u32 \<Rightarrow> char" where
  "b64_char s = ''ABCDEFGHIJKLMNOPQRSTUVWXYZabcdefghijklmnopqrstuvwxyz0123456789+/'' ! unat s"

definition b64_val :: "char \<Rightarrow> u32 option" where
  "b64_val c =
     (let n = of_char c :: int in
      if 65 \<le> n \<and> n \<le> 90 then Some (of_int (n - 65))
      else if 97 \<le> n \<and> n \<le> 122 then Some (of_int (n - 97 + 26))
      else if 48 \<le> n \<and> n \<le> 57 then Some (of_int (n - 48 + 52))
      else if n = 43 then Some 62
      else if n = 47 then Some 63
      else None)"

definition b64_sextet :: "nat \<Rightarrow> u32 \<Rightarrow> u32" where
  "b64_sextet i v = drop_bit (18 - 6 * i) v AND 63"

fun b64_encode :: "bytes \<Rightarrow> string" where
  "b64_encode [] = []"
| "b64_encode [a] =
     (let v = be32 0 a 0 0 in [b64_char (b64_sextet 0 v), b64_char (b64_sextet 1 v), CHR ''='', CHR ''=''])"
| "b64_encode [a, b] =
     (let v = be32 0 a b 0 in
      [b64_char (b64_sextet 0 v), b64_char (b64_sextet 1 v), b64_char (b64_sextet 2 v), CHR ''=''])"
| "b64_encode (a # b # c # r) =
     (let v = be32 0 a b c in
      b64_char (b64_sextet 0 v) # b64_char (b64_sextet 1 v) # b64_char (b64_sextet 2 v) # b64_char (b64_sextet 3 v)
        # b64_encode r)"

definition b64_join :: "u32 \<Rightarrow> u32 \<Rightarrow> u32 \<Rightarrow> u32 \<Rightarrow> bytes" where
  "b64_join s0 s1 s2 s3 =
     (let v = push_bit 18 s0 OR push_bit 12 s1 OR push_bit 6 s2 OR s3
      in [ucast (drop_bit 16 v), ucast (drop_bit 8 v), ucast v])"

text \<open>
  The bytes decoded, and whether the input was well formed: on an error the bytes before it are returned, as
  \<^verbatim>\<open>DecodeString\<close> does.
\<close>

fun b64_quanta :: "string \<Rightarrow> bytes \<times> bool" where
  "b64_quanta [] = ([], True)"
| "b64_quanta (a # b # c # d # r) =
     (case (b64_val a, b64_val b) of
        (Some s0, Some s1) \<Rightarrow>
          (case b64_val c of
             Some s2 \<Rightarrow>
               (case b64_val d of
                  Some s3 \<Rightarrow> (case b64_quanta r of (x, g) \<Rightarrow> (b64_join s0 s1 s2 s3 @ x, g))
                | None \<Rightarrow> if d = CHR ''='' then (take 2 (b64_join s0 s1 s2 0), r = []) else ([], False))
           | None \<Rightarrow> if c = CHR ''='' \<and> d = CHR ''='' then (take 1 (b64_join s0 s1 0 0), r = []) else ([], False))
      | _ \<Rightarrow> ([], False))"
| "b64_quanta _ = ([], False)"

definition b64_decode :: "string \<Rightarrow> bytes \<times> bool" where
  "b64_decode s = b64_quanta (filter (\<lambda>c. c \<noteq> CHR 0x0A \<and> c \<noteq> CHR 0x0D) s)"

lemma b64_val_char: "unat s < 64 \<Longrightarrow> b64_val (b64_char s) = Some s"
proof -
  have "list_all (\<lambda>n. b64_val (b64_char (of_nat n)) = Some (of_nat n)) [0..<64]" by code_simp
  then have "n < 64 \<Longrightarrow> b64_val (b64_char (of_nat n)) = Some (of_nat n)" for n
    unfolding list_all_iff set_upt by (meson atLeastLessThan_iff le0)
  from this [of "unat s"] show "unat s < 64 \<Longrightarrow> b64_val (b64_char s) = Some s" by simp
qed

lemma sextet_less: "unat (b64_sextet i v) < 64"
proof -
  have "b64_sextet i v = take_bit 6 (drop_bit (18 - 6 * i) v)" by (simp add: b64_sextet_def take_bit_eq_mask mask_eq_exp_minus_1)
  then show ?thesis by (simp add: unsigned_take_bit_eq take_bit_nat_def)
qed

lemma join_sextets:
  "b64_join (b64_sextet 0 (be32 0 a b c)) (b64_sextet 1 (be32 0 a b c)) (b64_sextet 2 (be32 0 a b c)) (b64_sextet 3 (be32 0 a b c))
    = [a, b, c]"
proof -
  let ?v = "be32 0 a b c"
  have m: "(63 :: u32) = mask 6" by (simp add: mask_eq_exp_minus_1)
  have "push_bit 18 (b64_sextet 0 ?v) OR push_bit 12 (b64_sextet 1 ?v) OR push_bit 6 (b64_sextet 2 ?v) OR b64_sextet 3 ?v = ?v"
  proof (rule bit_word_eqI)
    fix n :: nat
    assume "n < LENGTH(32)"
    then consider "n < 6" | "6 \<le> n" "n < 12" | "12 \<le> n" "n < 18" | "18 \<le> n" "n < 24" | "24 \<le> n" "n < 32" by fastforce
    then show "bit (push_bit 18 (b64_sextet 0 ?v) OR push_bit 12 (b64_sextet 1 ?v) OR push_bit 6 (b64_sextet 2 ?v) OR b64_sextet 3 ?v) n
        = bit ?v n"
      by cases (auto simp: b64_sextet_def m bit_simps be32_def dest: bit_imp_le_length)
  qed
  then show ?thesis using put32_be32 [of 0 a b c] by (simp add: b64_join_def Let_def put32_def)
qed

lemma sextets_zero:
  "b64_sextet 2 (be32 0 a 0 0) = 0" "b64_sextet 3 (be32 0 a b 0) = 0"
proof -
  have m: "(63 :: u32) = mask 6" by (simp add: mask_eq_exp_minus_1)
  show "b64_sextet 2 (be32 0 a 0 0) = 0" "b64_sextet 3 (be32 0 a b 0) = 0"
    by (rule bit_word_eqI, auto simp: b64_sextet_def m be32_def bit_simps)+
qed

lemma b64_quanta_encode: "b64_quanta (b64_encode b) = (b, True)"
proof (induction b rule: b64_encode.induct)
  case (2 a)
  then show ?case using join_sextets [of a 0 0] sextets_zero(1) [of a] sextets_zero(2) [of a 0]
    by (simp add: Let_def b64_val_char sextet_less b64_val_def [of "CHR ''=''"])
next
  case (3 a b)
  then show ?case using join_sextets [of a b 0] sextets_zero(2) [of a b]
    by (simp add: Let_def b64_val_char sextet_less b64_val_def [of "CHR ''=''"])
next
  case (4 a b c r)
  then show ?case using join_sextets [of a b c] by (simp add: Let_def b64_val_char sextet_less)
qed simp


lemma b64_char_plain: "unat s < 64 \<Longrightarrow> b64_char s \<noteq> CHR 0x0A \<and> b64_char s \<noteq> CHR 0x0D"
  using b64_val_char [of s] by (auto simp: b64_val_def)

lemma b64_encode_plain: "c \<in> set (b64_encode b) \<Longrightarrow> c \<noteq> CHR 0x0A \<and> c \<noteq> CHR 0x0D"
  by (induction b rule: b64_encode.induct) (auto simp: Let_def b64_char_plain sextet_less)

lemma b64_decode_encode [simp]: "b64_decode (b64_encode b) = (b, True)"
proof -
  have "filter (\<lambda>c. c \<noteq> CHR 0x0A \<and> c \<noteq> CHR 0x0D) (b64_encode b) = b64_encode b"
    using b64_encode_plain by (intro filter_True) blast
  then show ?thesis unfolding b64_decode_def by (simp only: b64_quanta_encode)
qed

section \<open>Signatures in DER\<close>

text \<open>\<^verbatim>\<open>appendTagAndLength\<close> for one-byte tags.\<close>

definition der_length :: "nat \<Rightarrow> bytes" where
  "der_length n = (if n < 128 then [of_nat n] else (0x80 OR of_nat (length (be_bytes n))) # be_bytes n)"

definition der_elem :: "u8 \<Rightarrow> bytes \<Rightarrow> bytes" where
  "der_elem t b = t # der_length (length b) @ b"

text \<open>\<^verbatim>\<open>makeBigInt\<close>: two's complement, as short as the sign bit allows.\<close>

definition der_int :: "int \<Rightarrow> bytes" where
  "der_int n =
     (if n < 0 then
        (let b = map (NOT) (be_bytes (nat (- n - 1)))
         in if b = [] \<or> \<not> bit (hd b) 7 then 0xff # b else b)
      else if n = 0 then [0]
      else (let b = be_bytes (nat n) in if bit (hd b) 7 then 0 # b else b))"

text \<open>\<^verbatim>\<open>SignDigitToSignData\<close>; a nil number is a structural error.\<close>

definition SignDigitToSignData :: "bytes \<Rightarrow> int option \<Rightarrow> int option \<Rightarrow> bytes option" where
  "SignDigitToSignData v r s =
     (case (r, s) of
        (Some r, Some s) \<Rightarrow> Some (der_elem 0x30 (der_elem 0x04 v @ der_elem 0x02 (der_int r) @ der_elem 0x02 (der_int s)))
      | _ \<Rightarrow> None)"

text \<open>The long form of a length: the bytes counted so far and the rest.\<close>

fun der_long :: "nat \<Rightarrow> nat \<Rightarrow> bytes \<Rightarrow> (nat \<times> bytes) option" where
  "der_long 0 len b = Some (len, b)"
| "der_long (Suc k) len [] = None"
| "der_long (Suc k) len (x # b) =
     (if len \<ge> 2 ^ 23 then None
      else let l = 256 * len + unat x in if l = 0 then None else der_long k l b)"

definition der_read_length :: "bytes \<Rightarrow> (nat \<times> bytes) option" where
  "der_read_length b =
     (case b of [] \<Rightarrow> None
      | x # r \<Rightarrow>
          if \<not> bit x 7 then Some (unat x, r)
          else if x AND 0x7f = 0 then None
          else case der_long (unat (x AND 0x7f)) 0 r of None \<Rightarrow> None
            | Some (len, r) \<Rightarrow> if len < 128 then None else Some (len, r))"

text \<open>\<^verbatim>\<open>parseField\<close>: an element with the expected tag, its content and what follows.\<close>

definition der_read :: "u8 \<Rightarrow> bytes \<Rightarrow> (bytes \<times> bytes) option" where
  "der_read t b =
     (case b of [] \<Rightarrow> None
      | x # r \<Rightarrow>
          (case der_read_length r of None \<Rightarrow> None
           | Some (len, r) \<Rightarrow> if x \<noteq> t \<or> length r < len then None else Some (take len r, drop len r)))"

text \<open>\<^verbatim>\<open>checkInteger\<close> and \<^verbatim>\<open>parseBigInt\<close>.\<close>

definition der_read_int :: "bytes \<Rightarrow> int option" where
  "der_read_int b =
     (if b = [] then None
      else if length b > 1 \<and> (b ! 0 = 0 \<and> \<not> bit (b ! 1) 7 \<or> b ! 0 = 0xff \<and> bit (b ! 1) 7) then None
      else if bit (b ! 0) 7 then Some (- (big_val (map (NOT) b) + 1))
      else Some (big_val b))"

text \<open>\<^verbatim>\<open>SignDataToSignDigit\<close>; bytes after the third element and after the sequence are ignored.\<close>

definition SignDataToSignDigit :: "bytes \<Rightarrow> (bytes \<times> int \<times> int) option" where
  "SignDataToSignDigit sign =
     (case der_read 0x30 sign of None \<Rightarrow> None
      | Some (b, _) \<Rightarrow>
          (case der_read 0x04 b of None \<Rightarrow> None
           | Some (v, b) \<Rightarrow>
               (case der_read 0x02 b of None \<Rightarrow> None
                | Some (r, b) \<Rightarrow>
                    (case der_read_int r of None \<Rightarrow> None
                     | Some r \<Rightarrow>
                         (case der_read 0x02 b of None \<Rightarrow> None
                          | Some (s, _) \<Rightarrow> map_option (\<lambda>s. (v, r, s)) (der_read_int s))))))"


lemma be_val_Cons: "be_val (x # b) = unat x * 256 ^ length b + be_val b"
  using be_val_append [of "[x]" b] by (simp add: be_val_def)

lemma be_bytes_nonempty: "0 < n \<Longrightarrow> be_bytes n \<noteq> []"
  by (subst be_bytes.simps) simp

lemma der_long_be:
  "len * 256 ^ length b + be_val b < 2 ^ 31 \<Longrightarrow> 0 < len \<or> b = [] \<or> hd b \<noteq> 0
    \<Longrightarrow> der_long (length b) len (b @ r) = Some (len * 256 ^ length b + be_val b, r)"
proof (induction b arbitrary: len)
  case (Cons x b)
  let ?l = "256 * len + unat x"
  have v: "len * 256 ^ length (x # b) + be_val (x # b) = ?l * 256 ^ length b + be_val b"
    by (simp add: be_val_Cons algebra_simps)
  have "?l \<le> ?l * 256 ^ length b + be_val b" by (intro trans_le_add1) simp
  then have "?l < 2 ^ 31" using Cons.prems(1) unfolding v by (rule le_less_trans)
  then have "len < 2 ^ 23" by simp
  moreover have "0 < ?l" using Cons.prems(2) by (auto simp: unat_gt_0)
  ultimately show ?case using Cons.IH [of ?l] Cons.prems(1) unfolding v by simp
qed simp

lemma der_long_tag:
  assumes "0 < k" "k \<le> 4"
  shows "unat ((0x80 OR of_nat k) AND 0x7f :: u8) = k" "bit (0x80 OR of_nat k :: u8) 7"
proof -
  have "list_all (\<lambda>k. unat ((0x80 OR of_nat k) AND 0x7f :: u8) = k \<and> bit (0x80 OR of_nat k :: u8) 7) [1, 2, 3, 4]"
    by code_simp
  moreover have "k \<in> set [1, 2, 3, 4]" using assms by auto
  ultimately show "unat ((0x80 OR of_nat k) AND 0x7f :: u8) = k" "bit (0x80 OR of_nat k :: u8) 7"
    unfolding list_all_iff by blast+
qed

lemma der_length_read:
  assumes "n < 2 ^ 31"
  shows "der_read_length (der_length n @ r) = Some (n, r)"
proof (cases "n < 128")
  case True
  then have "\<not> bit n 7" by (simp add: bit_iff_odd)
  then have "\<not> bit (of_nat n :: u8) 7" by (simp add: bit_simps)
  then show ?thesis using True by (simp add: der_length_def der_read_length_def unsigned_of_nat take_bit_nat_eq_self)
next
  case False
  let ?k = "length (be_bytes n)"
  have h: "be_bytes n \<noteq> []" "hd (be_bytes n) \<noteq> 0" using hd_be_bytes [of n] be_bytes_nonempty [of n] False by simp_all
  have "?k \<le> 4" using assms by (intro length_be_bytes_le) simp
  moreover have "0 < ?k" using h by simp
  ultimately have t: "unat ((0x80 OR of_nat ?k) AND 0x7f :: u8) = ?k" "bit (0x80 OR of_nat ?k :: u8) 7"
    "(0x80 OR of_nat ?k) AND 0x7f \<noteq> (0 :: u8)" using der_long_tag [of ?k] by (blast, blast, auto)
  have "der_long ?k 0 (be_bytes n @ r) = Some (n, r)" using der_long_be [of 0 "be_bytes n" r] h assms by simp
  then show ?thesis using False t by (simp add: der_length_def der_read_length_def)
qed

lemma der_elem_read: "length b < 2 ^ 31 \<Longrightarrow> der_read t (der_elem t b @ r) = Some (b, r)"
  by (simp add: der_read_def der_elem_def der_length_read)

lemma der_int_read:
  assumes "0 \<le> n"
  shows "der_read_int (der_int n) = Some n"
proof (cases "n = 0")
  case True
  then show ?thesis by (simp add: der_int_def der_read_int_def big_val_def be_val_def)
next
  case False
  let ?b = "be_bytes (nat n)"
  obtain x b where b: "?b = x # b" "x \<noteq> 0" using hd_be_bytes [of "nat n"] be_bytes_nonempty [of "nat n"] False assms by (cases ?b) auto
  have "big_val (0 # ?b) = n" "big_val ?b = n" using assms by (simp_all add: big_val_def be_val_Cons)
  moreover have "der_int n = (if bit x 7 then 0 # x # b else x # b)" using False assms b by (simp add: der_int_def)
  moreover have "bit (255 :: u8) 7" by code_simp
  ultimately show ?thesis using b by (auto simp: der_read_int_def)
qed


lemma length_der_int: "n < 256 ^ k \<Longrightarrow> 0 \<le> n \<Longrightarrow> length (der_int n) \<le> Suc k"
  using length_be_bytes_le [of "nat n" k] by (auto simp: der_int_def Let_def nat_less_iff)

lemma length_der_elem:
  assumes "length b < 2 ^ 31"
  shows "length (der_elem t b) \<le> length b + 6"
proof -
  have "length (be_bytes (length b)) \<le> 4" using assms by (intro length_be_bytes_le) simp
  then show ?thesis by (simp add: der_elem_def der_length_def)
qed

lemma SignData_roundtrip:
  assumes "length v \<le> 256" "0 \<le> r" "r < 256 ^ 32" "0 \<le> s" "s < 256 ^ 32"
    and "SignDigitToSignData v (Some r) (Some s) = Some d"
  shows "SignDataToSignDigit d = Some (v, r, s)"
proof -
  let ?a = "der_elem 0x04 v" and ?b = "der_elem 0x02 (der_int r)" and ?c = "der_elem 0x02 (der_int s)"
  have i: "length (der_int r) \<le> 33" "length (der_int s) \<le> 33"
    using length_der_int [of r 32] length_der_int [of s 32] assms by auto
  have "length ?a \<le> 262" "length ?b \<le> 39" "length ?c \<le> 39"
    using length_der_elem [of v "0x04"] length_der_elem [of "der_int r" "0x02"] length_der_elem [of "der_int s" "0x02"] i assms(1)
    by simp_all
  then have "length (?a @ ?b @ ?c) < 2 ^ 31" by simp
  from der_elem_read [OF this, of "0x30" "[]"]
  have "der_read 0x30 d = Some (?a @ ?b @ ?c, [])" using assms(6) by (simp add: SignDigitToSignData_def)
  moreover have "der_read 0x04 (?a @ ?b @ ?c) = Some (v, ?b @ ?c)" using assms(1) by (intro der_elem_read) simp
  moreover have "der_read 0x02 (?b @ ?c) = Some (der_int r, ?c)" using i by (intro der_elem_read) simp
  moreover have "der_read 0x02 ?c = Some (der_int s, [])" using der_elem_read [of "der_int s" "0x02" "[]"] i by simp
  ultimately show ?thesis by (simp add: SignDataToSignDigit_def der_int_read assms)
qed

section \<open>Uncompressed points\<close>

definition ec_bytelen :: "curve \<Rightarrow> nat" where "ec_bytelen c = (cv_BitSize c + 7) div 8"

text \<open>
  \<^verbatim>\<open>elliptic.Marshal\<close>: each coordinate right-aligned in its field; \<open>None\<close> is the panic of the negative slice
  bound.
\<close>

definition ec_Marshal :: "curve \<Rightarrow> int \<Rightarrow> int \<Rightarrow> bytes option" where
  "ec_Marshal c x y =
     (let n = ec_bytelen c; xb = big_bytes x; yb = big_bytes y
      in if length xb > n \<or> length yb > n then None
         else Some (4 # replicate (n - length xb) 0 @ xb @ replicate (n - length yb) 0 @ yb))"

definition ec_Unmarshal :: "curve \<Rightarrow> bytes \<Rightarrow> (int \<times> int) option" where
  "ec_Unmarshal c data =
     (let n = ec_bytelen c
      in if length data \<noteq> 1 + 2 * n then None
         else if data ! 0 \<noteq> 4 then None
         else let x = big_val (take n (drop 1 data)); y = big_val (drop (1 + n) data)
           in if x \<ge> cv_P c \<or> y \<ge> cv_P c then None
              else if \<not> cv_IsOnCurve c x y then None else Some (x, y))"

lemma big_val_zeros: "0 \<le> x \<Longrightarrow> big_val (replicate n 0 @ big_bytes x) = x"
  by (simp add: big_val_def big_bytes_def)

lemma ec_Unmarshal_Marshal:
  assumes "ec_Marshal c x y = Some b" "0 \<le> x" "x < cv_P c" "0 \<le> y" "y < cv_P c" "cv_IsOnCurve c x y"
  shows "ec_Unmarshal c b = Some (x, y)" "length b = 1 + 2 * ec_bytelen c"
proof -
  let ?n = "ec_bytelen c"
  let ?xb = "replicate (?n - length (big_bytes x)) 0 @ big_bytes x" and ?yb = "replicate (?n - length (big_bytes y)) 0 @ big_bytes y"
  have b: "b = 4 # ?xb @ ?yb" "length (big_bytes x) \<le> ?n" "length (big_bytes y) \<le> ?n"
    using assms(1) by (auto simp: ec_Marshal_def Let_def split: if_splits)
  have l: "length ?xb = ?n" "length ?yb = ?n" using b(2,3) by simp_all
  then show "length b = 1 + 2 * ?n" unfolding b(1) by simp
  have "take ?n (drop 1 b) = ?xb" "drop (1 + ?n) b = ?yb" unfolding b(1) using l by simp_all
  then have "big_val (take ?n (drop 1 b)) = x" "big_val (drop (1 + ?n) b) = y" using big_val_zeros assms(2,4) by metis+
  then show "ec_Unmarshal c b = Some (x, y)" using \<open>length b = _\<close> b(1) assms by (simp add: ec_Unmarshal_def Let_def)
qed

end
