(* ===== verification/Crypto_Gm.thy ===== *)
theory Crypto_Gm
  imports Encodings Rlp_Roundtrip
begin

text \<open>
  \<^verbatim>\<open>src/crypto-gm/crypto.go\<close> and the hash of \<^verbatim>\<open>src/signature/types.go\<close>: hashing, keys as bytes,
  signatures that carry the public key of the signer, and addresses. The curve \<^verbatim>\<open>P256Sm2()\<close> is the
  argument \<open>c\<close>. A call ends in a panic, an error, or a result.
\<close>

datatype 'a go = Panic | Err | Ret 'a

section \<open>Hashes\<close>

definition Keccak256 :: "bytes list \<Rightarrow> bytes option" where
  "Keccak256 data = map_option fst (Sm3_Sum [] (foldl (\<lambda>d b. Sm3_Write b d) Sm3_New data))"

text \<open>\<^verbatim>\<open>d.Sum(h[:0])\<close> writes the digest into \<^verbatim>\<open>h\<close>, whose capacity is just large enough.\<close>

definition Keccak256Hash :: "bytes list \<Rightarrow> bytes option" where
  "Keccak256Hash data = map_option fst (Sm3_Sum [] (foldl (\<lambda>d b. Sm3_Write b d) Sm3_New data))"

definition Gm_Sha3 :: "bytes list \<Rightarrow> bytes option" where "Gm_Sha3 data = Keccak256 data"
definition Gm_Sha3Hash :: "bytes list \<Rightarrow> bytes option" where "Gm_Sha3Hash data = Keccak256Hash data"
definition Gm_Sha256 :: "bytes \<Rightarrow> bytes option" where "Gm_Sha256 data = Sm3_Sum256 data"

text \<open>\<^verbatim>\<open>RlpHash\<close>: the encoder writes its pieces into the hash; its error is dropped.\<close>

definition RlpHash :: "rtype \<Rightarrow> rval \<Rightarrow> bytes option" where
  "RlpHash t v =
     map_option fst (Sm3_Sum [] (foldl (\<lambda>d b. Sm3_Write b d) Sm3_NewKeccak256
       (case Encode empty_encbuf t v of Inl e \<Rightarrow> [] | Inr ps \<Rightarrow> ps)))"

text \<open>The list of two interface values \<^verbatim>\<open>CreateAddress\<close> hashes.\<close>

definition CreateAddress :: "bytes \<Rightarrow> u64 \<Rightarrow> bytes option" where
  "CreateAddress b nonce =
     (let data = (case EncodeToBytes empty_encbuf (TSlice TIface)
                    (VList [VIface (Some (TByteArray AddressLength, VBytes b)), VIface (Some (TUint 64, VUint nonce))]) of
                    Inl e \<Rightarrow> [] | Inr d \<Rightarrow> d)
      in map_option (\<lambda>h. BytesToAddress (drop 12 h)) (Keccak256 [data]))"

section \<open>Keys\<close>

definition ToECDSA :: "curve \<Rightarrow> bytes \<Rightarrow> PrivateKey option" where
  "ToECDSA c prv =
     (if length prv = 0 then None
      else case cv_ScalarBaseMult c prv of
        (X, Y) \<Rightarrow> Some \<lparr>pk_X = Some X, pk_Y = Some Y, D = int (BytesToBig prv)\<rparr>)"

definition FromECDSA :: "PrivateKey option \<Rightarrow> bytes" where
  "FromECDSA prv = (case prv of None \<Rightarrow> [] | Some p \<Rightarrow> big_bytes (D p))"

definition ToECDSAPub :: "curve \<Rightarrow> bytes \<Rightarrow> PublicKey option" where
  "ToECDSAPub c pub =
     (if length pub = 0 then None
      else case ec_Unmarshal c pub of
        None \<Rightarrow> Some \<lparr>pk_X = None, pk_Y = None\<rparr>
      | Some (x, y) \<Rightarrow> Some \<lparr>pk_X = Some x, pk_Y = Some y\<rparr>)"

definition FromECDSAPub :: "curve \<Rightarrow> 'a PublicKey_scheme option \<Rightarrow> bytes go" where
  "FromECDSAPub c pub =
     (case pub of None \<Rightarrow> Ret []
      | Some p \<Rightarrow>
          (case (pk_X p, pk_Y p) of
             (Some X, Some Y) \<Rightarrow> (case ec_Marshal c X Y of None \<Rightarrow> Panic | Some b \<Rightarrow> Ret b)
           | _ \<Rightarrow> Ret []))"

text \<open>\<^verbatim>\<open>hex.DecodeString\<close> fails unless it used up the whole text.\<close>

definition hex_DecodeString :: "string \<Rightarrow> bytes option" where
  "hex_DecodeString s = (if 2 * length (hexDecode s) = length s then Some (hexDecode s) else None)"

definition HexToECDSA :: "curve \<Rightarrow> string \<Rightarrow> PrivateKey option go" where
  "HexToECDSA c hexkey =
     (case hex_DecodeString hexkey of None \<Rightarrow> Err
      | Some b \<Rightarrow> if length b \<noteq> 32 then Err else Ret (ToECDSA c b))"

definition LoadECDSAByPrk :: "curve \<Rightarrow> string \<Rightarrow> PrivateKey option go" where
  "LoadECDSAByPrk c prk = (case hex_DecodeString prk of None \<Rightarrow> Err | Some key \<Rightarrow> Ret (ToECDSA c key))"

definition Gm_GenerateKey :: "curve \<Rightarrow> bytes list \<Rightarrow> sm2_err + PrivateKey" where
  "Gm_GenerateKey c rnd = GenerateKey c rnd"

definition PubkeyToAddress :: "curve \<Rightarrow> 'a PublicKey_scheme \<Rightarrow> bytes go" where
  "PubkeyToAddress c p =
     (case FromECDSAPub c (Some p) of Panic \<Rightarrow> Panic | Err \<Rightarrow> Err
      | Ret pubBytes \<Rightarrow>
          if pubBytes = [] then Panic
          else case Keccak256 [drop 1 pubBytes] of None \<Rightarrow> Panic | Some h \<Rightarrow> Ret (BytesToAddress (drop 12 h)))"

section \<open>Signatures that carry the key\<close>

definition Gm_Sign :: "curve \<Rightarrow> bytes \<Rightarrow> PrivateKey \<Rightarrow> bytes list \<Rightarrow> bytes go" where
  "Gm_Sign c hash prv rnd =
     (case Sm2_Sign c prv hash rnd of Inl Sm2Panic \<Rightarrow> Panic | Inl _ \<Rightarrow> Err
      | Inr (r, s) \<Rightarrow>
          (case FromECDSAPub c (Some prv) of Panic \<Rightarrow> Panic | Err \<Rightarrow> Err
           | Ret pub \<Rightarrow>
               (case SignDigitToSignData pub (Some r) (Some s) of None \<Rightarrow> Err | Some sig \<Rightarrow> Ret sig)))"

text \<open>A nil key, and a key that is not a point, make the verifier panic.\<close>

definition Gm_Verify :: "curve \<Rightarrow> bytes \<Rightarrow> bytes \<Rightarrow> bool go" where
  "Gm_Verify c hash sig =
     (case SignDataToSignDigit sig of None \<Rightarrow> Ret False
      | Some (pub, r, s) \<Rightarrow>
          (case Sm2_Verify c (ToECDSAPub c pub) hash r s of None \<Rightarrow> Panic | Some b \<Rightarrow> Ret b))"

definition Ecrecover :: "curve \<Rightarrow> bytes \<Rightarrow> bytes \<Rightarrow> bytes go" where
  "Ecrecover c hash sig =
     (case Gm_Verify c hash sig of Panic \<Rightarrow> Panic | Err \<Rightarrow> Err
      | Ret flag \<Rightarrow>
          if \<not> flag then Err
          else case SignDataToSignDigit sig of None \<Rightarrow> Err | Some (pub, r, s) \<Rightarrow> Ret pub)"

text \<open>The methods of \<^verbatim>\<open>sm2.PrivateKey\<close> and \<^verbatim>\<open>sm2.PublicKey\<close>, whose signatures have no key in them.\<close>

definition PrivateKey_Sign :: "curve \<Rightarrow> PrivateKey \<Rightarrow> bytes \<Rightarrow> bytes list \<Rightarrow> bytes go" where
  "PrivateKey_Sign c priv msg rnd =
     (case Sm2_Sign c priv msg rnd of Inl Sm2Panic \<Rightarrow> Panic | Inl _ \<Rightarrow> Err
      | Inr (r, s) \<Rightarrow> (case SignDigitToSignData [] (Some r) (Some s) of None \<Rightarrow> Err | Some sig \<Rightarrow> Ret sig))"

definition PublicKey_Verify :: "curve \<Rightarrow> 'a PublicKey_scheme \<Rightarrow> bytes \<Rightarrow> bytes \<Rightarrow> bool go" where
  "PublicKey_Verify c pub msg sign =
     (case SignDataToSignDigit sign of None \<Rightarrow> Ret False
      | Some (v, r, s) \<Rightarrow> (case Sm2_Verify c (Some pub) msg r s of None \<Rightarrow> Panic | Some b \<Rightarrow> Ret b))"

definition Gm_Encrypt :: "curve \<Rightarrow> 'a PublicKey_scheme \<Rightarrow> bytes \<Rightarrow> bytes list \<Rightarrow> sm2_err + bytes" where
  "Gm_Encrypt c pub message rnd = Sm2_Encrypt c pub message rnd"

text \<open>A nil text is refused; \<^verbatim>\<open>sm2.Decrypt\<close> gives back an empty one as it is.\<close>

definition Gm_Decrypt :: "curve \<Rightarrow> PrivateKey \<Rightarrow> bytes option \<Rightarrow> (sm2_err + bytes) option" where
  "Gm_Decrypt c prv ct = (case ct of None \<Rightarrow> None | Some b \<Rightarrow> Some (Sm2_Decrypt c prv b))"


section \<open>Signing and recovering the key\<close>

text \<open>Besides the group laws: scalars and coordinates of 256 bits, and the multiples of the base point lie on the curve.\<close>

definition ec_curve :: "curve \<Rightarrow> (int \<Rightarrow> int \<times> int) \<Rightarrow> bool" where
  "ec_curve c pt \<longleftrightarrow> sm2_curve c pt \<and> cv_N c \<le> 256 ^ 32 \<and> cv_BitSize c = 256
     \<and> (\<forall>a. fst (pt a) < cv_P c \<and> snd (pt a) < cv_P c \<and> cv_IsOnCurve c (fst (pt a)) (snd (pt a)))"

definition pub_bytes :: "(int \<Rightarrow> int \<times> int) \<Rightarrow> int \<Rightarrow> bytes" where
  "pub_bytes pt d = 4 # pad32 (big_bytes (fst (pt d))) @ pad32 (big_bytes (snd (pt d)))"

lemma sign_verifies:
  assumes "sm2_curve c pt" "coprime (D prv + 1) (cv_N c)" "key_pair pt (D prv) prv" "key_pair pt (D prv) pub"
    and s: "Sm2_Sign c prv hash rnd = Inr (r, s)" and t: "(r + s) mod cv_N c \<noteq> 0"
  shows "Sm2_Verify c (Some pub) hash r s = Some True" "0 < r" "r < cv_N c" "0 < s" "s < cv_N c"
proof -
  have l: "sign_loop c (D prv) (big_val hash) rnd = Inr (r, s)" using s by (simp add: Sm2_Sign_def split: if_splits)
  obtain k where k: "0 < k" "k < cv_N c" "r = (fst (pt k) + big_val hash) mod cv_N c" "0 < r" "r < cv_N c" "0 < s" "s < cv_N c"
    "(s * (D prv + 1)) mod cv_N c = (k - D prv * r) mod cv_N c"
    using sign_loop_sound [OF assms(1,2) l] by blast
  have v: "verify_point c pub (big_val hash) r s = Some (r + k \<noteq> cv_N c)"
    by (rule verify_point_eq [OF assms(1,2,4) k(1,2,4,5,6,8,3)])
  have "r + k \<noteq> cv_N c"
  proof
    assume e: "r + k = cv_N c"
    have "(s * (D prv + 1) + r * (D prv + 1)) mod cv_N c = (k - D prv * r + r * (D prv + 1)) mod cv_N c"
      using k(8) by (rule mod_add_cong) simp
    also have "k - D prv * r + r * (D prv + 1) = cv_N c" using e by (simp add: algebra_simps)
    finally have "((r + s) * (D prv + 1)) mod cv_N c = 0" by (simp add: algebra_simps)
    then have "cv_N c dvd (r + s) * (D prv + 1)" by (simp add: mod_eq_0_iff_dvd)
    then show False using assms(2) t by (simp add: mod_eq_0_iff_dvd coprime_dvd_mult_left_iff coprime_commute)
  qed
  then show "Sm2_Verify c (Some pub) hash r s = Some True" using v k(4-7) by (simp add: Sm2_Verify_def)
  show "0 < r" "r < cv_N c" "0 < s" "s < cv_N c" using k(4-7) by simp_all
qed

lemma pub_bytes_marshal:
  assumes "ec_curve c pt" "key_pair pt d p"
  shows "FromECDSAPub c (Some p) = Ret (pub_bytes pt d)" "length (pub_bytes pt d) = 65"
    "ToECDSAPub c (pub_bytes pt d) = Some \<lparr>pk_X = Some (fst (pt d)), pk_Y = Some (snd (pt d))\<rparr>"
proof -
  let ?x = "fst (pt d)" and ?y = "snd (pt d)"
  have n: "ec_bytelen c = 32" using assms(1) by (simp add: ec_curve_def ec_bytelen_def)
  have r: "0 \<le> ?x" "?x < 256 ^ 32" "0 \<le> ?y" "?y < 256 ^ 32" using assms(1) unfolding ec_curve_def sm2_curve_def by blast+
  have l: "length (big_bytes ?x) \<le> 32" "length (big_bytes ?y) \<le> 32"
    unfolding big_bytes_def using r by (auto intro!: length_be_bytes_le simp: nat_less_iff)
  have p: "pad32 b = replicate (32 - length b) 0 @ b" if "length b \<le> 32" for b
    using that by (auto simp: pad32_def zeroByteSlice_def)
  have m: "ec_Marshal c ?x ?y = Some (pub_bytes pt d)" using l by (simp add: ec_Marshal_def n pub_bytes_def p Let_def)
  then show "FromECDSAPub c (Some p) = Ret (pub_bytes pt d)" using assms(2) by (simp add: FromECDSAPub_def key_pair_def)
  have "ec_Unmarshal c (pub_bytes pt d) = Some (?x, ?y)" "length (pub_bytes pt d) = 1 + 2 * ec_bytelen c"
    using ec_Unmarshal_Marshal [OF m] r assms(1) by (auto simp: ec_curve_def)
  then show "length (pub_bytes pt d) = 65"
    "ToECDSAPub c (pub_bytes pt d) = Some \<lparr>pk_X = Some ?x, pk_Y = Some ?y\<rparr>"
    using n by (auto simp: ToECDSAPub_def split_beta)
qed

lemma Gm_Sign_recovers:
  assumes c: "ec_curve c pt" and "coprime (D prv + 1) (cv_N c)" "key_pair pt (D prv) prv"
    and s: "Sm2_Sign c prv hash rnd = Inr (r, s)" and t: "(r + s) mod cv_N c \<noteq> 0"
  obtains sig where "Gm_Sign c hash prv rnd = Ret sig" "SignDigitToSignData (pub_bytes pt (D prv)) (Some r) (Some s) = Some sig"
    "SignDataToSignDigit sig = Some (pub_bytes pt (D prv), r, s)" "Ecrecover c hash sig = Ret (pub_bytes pt (D prv))"
proof -
  let ?pub = "pub_bytes pt (D prv)" and ?key = "\<lparr>pk_X = Some (fst (pt (D prv))), pk_Y = Some (snd (pt (D prv)))\<rparr>"
  have c2: "sm2_curve c pt" and N: "cv_N c \<le> 256 ^ 32" using c by (simp_all add: ec_curve_def)
  have k: "key_pair pt (D prv) ?key" using assms(3) by (simp add: key_pair_def)
  note v = sign_verifies [OF c2 assms(2,3) k s t]
  obtain sig where sig: "SignDigitToSignData ?pub (Some r) (Some s) = Some sig" by (simp add: SignDigitToSignData_def)
  have rt: "SignDataToSignDigit sig = Some (?pub, r, s)"
    using SignData_roundtrip [OF _ _ _ _ _ sig] pub_bytes_marshal(2) [OF c assms(3)] v(2-5) N by simp
  have "Ecrecover c hash sig = Ret ?pub"
    using v(1) by (simp add: Ecrecover_def Gm_Verify_def rt pub_bytes_marshal(3) [OF c assms(3)])
  moreover have "Gm_Sign c hash prv rnd = Ret sig"
    using s sig by (simp add: Gm_Sign_def pub_bytes_marshal(1) [OF c assms(3)])
  ultimately show ?thesis using that sig rt by blast
qed

end
