(* ===== verification/Pns.thy ===== *)
theory Pns
  imports Crypto_Gm
begin

text \<open>
  \<^verbatim>\<open>src/pns/PNService.go\<close>: the permissioned nodes of a node, read from a file at start, with their public
  keys in base64. The list of nodes in the file is an argument. \<^verbatim>\<open>ReloadPNodes\<close> has only commented-out code
  and returns false.
\<close>

record PNode =
  pn_ID :: string
  pn_Type :: string
  pn_PK :: string

record Node =
  n_NodeID :: string
  n_NodePK :: string
  n_NodeType :: string
  n_NodeStatus :: string

record PermissionedNodeService =
  pNodes :: "(string, PNode) gomap"
  NodePrk :: PrivateKey

definition NewPermissionedNodeService :: "PrivateKey \<Rightarrow> Node list \<Rightarrow> PermissionedNodeService" where
  "NewPermissionedNodeService nodeprk nodes =
     \<lparr> pNodes = foldl (\<lambda>m node. if n_NodeStatus node = ''N_ABLED''
          then gm_put m (n_NodeID node) \<lparr>pn_ID = n_NodeID node, pn_Type = n_NodeType node, pn_PK = n_NodePK node\<rparr>
          else m) gm_empty nodes,
       NodePrk = nodeprk \<rparr>"

definition GetPermissionedNodes :: "PermissionedNodeService \<Rightarrow> (string, string) gomap" where
  "GetPermissionedNodes self = foldl (\<lambda>m (nid, ele). gm_put m nid (pn_PK ele)) gm_empty (pNodes self)"

definition GetPermissionedConNodes :: "PermissionedNodeService \<Rightarrow> (string, string) gomap" where
  "GetPermissionedConNodes self =
     foldl (\<lambda>m (nid, ele). if pn_Type ele = ''ConsensusNode'' then gm_put m nid (pn_PK ele) else m) gm_empty (pNodes self)"

definition JudgeConPermissioned :: "PermissionedNodeService \<Rightarrow> string \<Rightarrow> bool" where
  "JudgeConPermissioned self nid =
     (case gm_get (pNodes self) nid of None \<Rightarrow> False | Some node \<Rightarrow> pn_Type node = ''ConsensusNode'')"

definition JudgePermissioned :: "PermissionedNodeService \<Rightarrow> string \<Rightarrow> bool" where
  "JudgePermissioned self nid = gm_has (pNodes self) nid"

text \<open>\<open>None\<close> is the error, with which the empty text is returned.\<close>

definition GetPKByPID :: "PermissionedNodeService \<Rightarrow> string \<Rightarrow> string option" where
  "GetPKByPID self nid = map_option pn_PK (gm_get (pNodes self) nid)"

definition GetBase64PKByPID :: "PermissionedNodeService \<Rightarrow> string \<Rightarrow> bytes option" where
  "GetBase64PKByPID self nid =
     (case gm_get (pNodes self) nid of None \<Rightarrow> None
      | Some node \<Rightarrow> (case b64_decode (pn_PK node) of (b, fine) \<Rightarrow> if fine then Some b else None))"

text \<open>The two loops that decode every key; one bad key makes the result nil.\<close>

fun decode_keys :: "(string, PNode) gomap \<Rightarrow> (string, bytes) gomap \<Rightarrow> (string, bytes) gomap option" where
  "decode_keys [] m = Some m"
| "decode_keys ((nid, node) # es) m =
     (case b64_decode (pn_PK node) of (b, fine) \<Rightarrow> if fine then decode_keys es (gm_put m nid b) else None)"

definition GetAllNodesPK64 :: "PermissionedNodeService \<Rightarrow> (string, bytes) gomap option" where
  "GetAllNodesPK64 self = decode_keys (pNodes self) gm_empty"

definition GetConNodesPK64 :: "PermissionedNodeService \<Rightarrow> (string, bytes) gomap option" where
  "GetConNodesPK64 self = decode_keys (filter (\<lambda>(nid, node). pn_Type node = ''ConsensusNode'') (pNodes self)) gm_empty"

definition ReloadPNodes :: "PermissionedNodeService \<Rightarrow> u64 \<Rightarrow> bool" where
  "ReloadPNodes self blockHeight = False"

section \<open>The tests and the lists agree\<close>

lemma gm_ok_pNodes: "gm_ok (pNodes (NewPermissionedNodeService prk nodes))"
proof -
  have "gm_ok m \<Longrightarrow> gm_ok (foldl (\<lambda>m node. if n_NodeStatus node = ''N_ABLED''
          then gm_put m (n_NodeID node) \<lparr>pn_ID = n_NodeID node, pn_Type = n_NodeType node, pn_PK = n_NodePK node\<rparr>
          else m) m nodes)" for m
    by (induction nodes arbitrary: m) auto
  then show ?thesis by (simp add: NewPermissionedNodeService_def)
qed

end
