(* ===== verification/Eth_Peer.thy ===== *)
theory Eth_Peer
  imports Pns Pbft_Network
begin

text \<open>
  Peers and signed messages: \<^verbatim>\<open>src/eth/peer.go\<close>, \<^verbatim>\<open>src/eth/MsgED.go\<close> and the message type of
  \<^verbatim>\<open>src/p2p/message.go\<close>. What a peer sends is the RLP encoding of a message, signed over its hash, and
  RLP-encoded once more with the signature.

  The text form of a JSON document is an argument: \<open>jl_text\<close> is what \<^verbatim>\<open>json.Marshal\<close> writes,
  \<open>jl_parse\<close> the document \<^verbatim>\<open>json.Unmarshal\<close> reads for a target of the named message type (a JSON string is a
  time, a byte string or a text according to the field it is for). When \<^verbatim>\<open>Unmarshal\<close> reports an error the code goes
  on with whatever was filled in; the four last fields are that value.
\<close>

record json_lib =
  jl_text :: "json \<Rightarrow> bytes"
  jl_parse :: "string \<Rightarrow> bytes \<Rightarrow> json option"
  jl_bad_Request :: "bytes \<Rightarrow> Request"
  jl_bad_PrePrepare :: "bytes \<Rightarrow> PrePrepare"
  jl_bad_Prepare :: "bytes \<Rightarrow> Prepare"
  jl_bad_Commit :: "bytes \<Rightarrow> Commit"

section \<open>Messages and their RLP types\<close>

record Signature =
  sg_V :: bytes
  sg_R :: "int option"
  sg_S :: "int option"

record CommunicationInfo =
  ci_PayLoad :: bytes
  ci_Sig :: Signature
  ci_VRS :: bytes

definition ci_type :: rtype where
  "ci_type = TStruct [(TBytes, ''''), (TStruct [(TBytes, ''''), (TBigIntPtr, ''''), (TBigIntPtr, '''')], ''''), (TBytes, '''')]"

definition ci_val :: "CommunicationInfo \<Rightarrow> rval" where
  "ci_val ci = VStruct [VBytes (ci_PayLoad ci),
     VStruct [VBytes (sg_V (ci_Sig ci)), VBigPtr (sg_R (ci_Sig ci)), VBigPtr (sg_S (ci_Sig ci))], VBytes (ci_VRS ci)]"

text \<open>Back from the decoded value, which has the shape of its type; other shapes do not occur.\<close>

definition sg_of :: "rval \<Rightarrow> Signature" where
  "sg_of v = (case v of VStruct [VBytes k, VBigPtr r, VBigPtr s] \<Rightarrow> \<lparr>sg_V = k, sg_R = r, sg_S = s\<rparr>
     | _ \<Rightarrow> \<lparr>sg_V = [], sg_R = None, sg_S = None\<rparr>)"

definition ci_of :: "rval \<Rightarrow> CommunicationInfo" where
  "ci_of v = (case v of VStruct [VBytes p, sg, VBytes x] \<Rightarrow> \<lparr>ci_PayLoad = p, ci_Sig = sg_of sg, ci_VRS = x\<rparr>
     | _ \<Rightarrow> \<lparr>ci_PayLoad = [], ci_Sig = sg_of v, ci_VRS = []\<rparr>)"

text \<open>
  A \<^verbatim>\<open>time.Time\<close> has no exported field: it is written as an empty list, and what is read back is the zero time.
\<close>

definition time_type :: rtype where "time_type = TStruct []"

definition cm_type :: rtype where
  "cm_type = TStruct [(TString, ''''), (time_type, ''''), (TString, ''''), (TString, '''')]"

definition cm_val :: "json_lib \<Rightarrow> ConsensusMsg \<Rightarrow> rval" where
  "cm_val jl m = VStruct [VString (jl_text jl (cm_Msg m)), VStruct [], VString (string_bytes (cm_Type m)), VString (string_bytes (cm_Sender m))]"

text \<open>The envelope as it is read: the text of the message, its type, its sender and, in the second one, who forwards it.\<close>

record envelope =
  e_Msg :: bytes
  e_Type :: string
  e_Sender :: string
  e_Newsender :: string

definition cm_of :: "rval \<Rightarrow> envelope" where
  "cm_of v = (case v of VStruct (VString m # t # VString ty # VString sd # rest) \<Rightarrow>
       \<lparr>e_Msg = m, e_Type = bytes_string ty, e_Sender = bytes_string sd,
         e_Newsender = (case rest of VString n # _ \<Rightarrow> bytes_string n | _ \<Rightarrow> [])\<rparr>
     | _ \<Rightarrow> \<lparr>e_Msg = [], e_Type = [], e_Sender = [], e_Newsender = []\<rparr>)"

definition cm2_type :: rtype where
  "cm2_type = TStruct [(TString, ''''), (time_type, ''''), (TString, ''''), (TString, ''''), (TString, ''''), (TString, '''')]"

definition cm2_val :: "json_lib \<Rightarrow> ConsensusMsg2 \<Rightarrow> rval" where
  "cm2_val jl m = VStruct [VString (jl_text jl (cm_Msg m)), VStruct [], VString (string_bytes (cm_Type m)), VString (string_bytes (cm_Sender m)),
     VString (string_bytes (cm_Newsender m)), VString (string_bytes (cm_Other m))]"

definition k_type :: rtype where
  "k_type = TStruct [(TString, ''''), (TUint 64, ''''), (TUint 64, ''''), (TString, '''')]"

definition k_val :: "Checkpoint \<Rightarrow> rval" where
  "k_val k = VStruct [VString (string_bytes (k_Sender k)), VUint (k_BlockHeight k), VUint (k_ReqID k), VString (string_bytes (k_BlockHash k))]"

definition k_of :: "rval \<Rightarrow> Checkpoint" where
  "k_of v = (case v of VStruct [VString a, VUint h, VUint r, VString b] \<Rightarrow>
     \<lparr>k_Sender = bytes_string a, k_BlockHeight = h, k_ReqID = r, k_BlockHash = bytes_string b\<rparr>
     | _ \<Rightarrow> \<lparr>k_Sender = [], k_BlockHeight = 0, k_ReqID = 0, k_BlockHash = []\<rparr>)"

record TestMsg =
  t_Msg :: string
  t_Sender :: string
  t_Time :: string

definition t_type :: rtype where
  "t_type = TStruct [(TString, ''''), (TString, ''''), (TString, '''')]"

definition t_val :: "TestMsg \<Rightarrow> rval" where
  "t_val m = VStruct [VString (string_bytes (t_Msg m)), VString (string_bytes (t_Sender m)), VString (string_bytes (t_Time m))]"

section \<open>Signing\<close>

text \<open>The hash of the list of interface values that holds the payload.\<close>

definition SigHash :: "CommunicationInfo \<Rightarrow> bytes option" where
  "SigHash ci = RlpHash (TSlice TIface) (VList [VIface (Some (TBytes, VBytes (ci_PayLoad ci)))])"

definition unsigned_info :: "bytes \<Rightarrow> CommunicationInfo" where
  "unsigned_info data = \<lparr>ci_PayLoad = data, ci_Sig = \<lparr>sg_V = [], sg_R = None, sg_S = None\<rparr>, ci_VRS = []\<rparr>"

text \<open>
  \<^verbatim>\<open>Sign\<close>: an error of the signing itself is only logged, and the empty signature then fails to parse.
\<close>

definition Sign :: "curve \<Rightarrow> bytes \<Rightarrow> PrivateKey \<Rightarrow> bytes list \<Rightarrow> CommunicationInfo go" where
  "Sign c data prk rnd =
     (let cpy = unsigned_info data in
      case SigHash cpy of None \<Rightarrow> Panic
      | Some hash \<Rightarrow>
          (case Gm_Sign c hash prk rnd of Panic \<Rightarrow> Panic
           | res \<Rightarrow>
               (case SignDataToSignDigit (case res of Ret sdata \<Rightarrow> sdata | _ \<Rightarrow> []) of None \<Rightarrow> Err
                | Some (v, r, s) \<Rightarrow> Ret (cpy\<lparr>ci_Sig := \<lparr>sg_V = v, sg_R = Some r, sg_S = Some s\<rparr>\<rparr>))))"

text \<open>
  \<^verbatim>\<open>ValidateSig\<close>: the key of the peer is decoded from base64 once more, errors ignored.
\<close>

definition ValidateSig :: "curve \<Rightarrow> bytes \<Rightarrow> CommunicationInfo \<Rightarrow> bool go" where
  "ValidateSig c nodepk cinfo =
     (case SigHash cinfo of None \<Rightarrow> Panic
      | Some hash \<Rightarrow>
          (case SignDigitToSignData (sg_V (ci_Sig cinfo)) (sg_R (ci_Sig cinfo)) (sg_S (ci_Sig cinfo)) of
             None \<Rightarrow> Ret False
           | Some sig \<Rightarrow>
               (case Ecrecover c hash sig of Panic \<Rightarrow> Panic | Err \<Rightarrow> Ret False
                | Ret pub \<Rightarrow> Ret (pub = fst (b64_decode (bytes_string nodepk))))))"

definition signRawData :: "curve \<Rightarrow> rtype \<Rightarrow> rval \<Rightarrow> PrivateKey \<Rightarrow> bytes list \<Rightarrow> CommunicationInfo go" where
  "signRawData c t v prk rnd =
     (case EncodeToBytes empty_encbuf (TPtr t) (VPtr (Some v)) of Inl e \<Rightarrow> Err
      | Inr tdata \<Rightarrow> Sign c tdata prk rnd)"

section \<open>p2p messages\<close>

record Msg =
  m_Code :: u64
  m_Size :: u32
  m_Payload :: bytes

text \<open>\<^verbatim>\<open>Send\<close>: the payload is what the reader delivers when the announced size is read from it.\<close>

definition Send :: "u64 \<Rightarrow> rtype \<Rightarrow> rval \<Rightarrow> Msg go" where
  "Send msgcode t v =
     (case EncodeToReader empty_encbuf t v of Inl e \<Rightarrow> Err
      | Inr (n, r) \<Rightarrow> Ret \<lparr>m_Code = msgcode, m_Size = of_nat n, m_Payload = fst (encReader_Read n r)\<rparr>)"

definition Msg_Decode :: "rtype \<Rightarrow> Msg \<Rightarrow> rlp_err + rval" where
  "Msg_Decode t msg = fst (Stream_Decode t (zero_val t) (NewStream (m_Payload msg) True (ucast (m_Size msg))))"

definition ConMsg :: u64 where "ConMsg = 0x08"
definition Checkpoin :: u64 where "Checkpoin = 0x09"
definition Zhuanfa :: u64 where "Zhuanfa = 0x10"
definition TestSendMsg :: u64 where "TestSendMsg = 0x12"
definition TestReciveMsg :: u64 where "TestReciveMsg = 0x13"
definition ProtocolMaxMsgSize :: u32 where "ProtocolMaxMsgSize = 100 * 1024 * 1024"

definition send_signed :: "curve \<Rightarrow> u64 \<Rightarrow> rtype \<Rightarrow> rval \<Rightarrow> PrivateKey \<Rightarrow> bytes list \<Rightarrow> Msg go" where
  "send_signed c code t v prk rnd =
     (case signRawData c t v prk rnd of Panic \<Rightarrow> Panic | Err \<Rightarrow> Err | Ret ci \<Rightarrow> Send code ci_type (ci_val ci))"

definition SendTestSendMsg :: "curve \<Rightarrow> TestMsg \<Rightarrow> PrivateKey \<Rightarrow> bytes list \<Rightarrow> Msg go" where
  "SendTestSendMsg c vc prk rnd = send_signed c TestSendMsg t_type (t_val vc) prk rnd"

definition SendTestReciveMsg :: "curve \<Rightarrow> TestMsg \<Rightarrow> PrivateKey \<Rightarrow> bytes list \<Rightarrow> Msg go" where
  "SendTestReciveMsg c vc prk rnd = send_signed c TestReciveMsg t_type (t_val vc) prk rnd"

definition SendConsSendMsg :: "json_lib \<Rightarrow> curve \<Rightarrow> ConsensusMsg \<Rightarrow> PrivateKey \<Rightarrow> bytes list \<Rightarrow> Msg go" where
  "SendConsSendMsg jl c vc prk rnd = send_signed c ConMsg cm_type (cm_val jl vc) prk rnd"

definition SendCheckPointMsg :: "curve \<Rightarrow> Checkpoint \<Rightarrow> PrivateKey \<Rightarrow> bytes list \<Rightarrow> Msg go" where
  "SendCheckPointMsg c vc prk rnd = send_signed c Checkpoin k_type (k_val vc) prk rnd"

definition SendZhuanfaMsg :: "json_lib \<Rightarrow> curve \<Rightarrow> ConsensusMsg2 \<Rightarrow> PrivateKey \<Rightarrow> bytes list \<Rightarrow> Msg go" where
  "SendZhuanfaMsg jl c vc prk rnd = send_signed c Zhuanfa cm2_type (cm2_val jl vc) prk rnd"


section \<open>Peers\<close>

text \<open>
  A peer with the fields of \<^verbatim>\<open>p2p.Peer\<close> it uses: the node id, the reason \<^verbatim>\<open>Disconnect\<close> was called with.
\<close>

record peer =
  pr_id :: string
  pr_version :: int
  pr_head :: bytes
  pr_td :: "int option"
  pr_NodeType :: u64
  pr_blockheight :: u64
  pr_NodePK :: bytes
  pr_disc :: bool

definition GetPeerID :: "peer \<Rightarrow> string" where "GetPeerID p = pr_id p"

text \<open>\<open>nid\<close> is the node id, \<open>nt\<close> and \<open>pk\<close> the node type and key stored in the \<^verbatim>\<open>p2p.Peer\<close>.\<close>

definition newPeer :: "int \<Rightarrow> bytes \<Rightarrow> u64 \<Rightarrow> bytes \<Rightarrow> peer" where
  "newPeer version nid nt pk =
     \<lparr> pr_id = Bytes2Hex nid, pr_version = version, pr_head = replicate HashLength 0, pr_td = None, pr_NodeType = nt,
       pr_blockheight = 0, pr_NodePK = pk, pr_disc = False \<rparr>"

definition Head :: "peer \<Rightarrow> bytes \<times> int" where
  "Head p = (pr_head p, case pr_td p of None \<Rightarrow> 0 | Some td \<Rightarrow> td)"

record PeerInfo =
  pi_Version :: int
  pi_Difficulty :: int
  pi_Head :: string

definition Info :: "peer \<Rightarrow> PeerInfo" where
  "Info p = (case Head p of (hash, td) \<Rightarrow> \<lparr>pi_Version = pr_version p, pi_Difficulty = td, pi_Head = Hash_Hex hash\<rparr>)"

text \<open>\<^verbatim>\<open>p.td.Set(td)\<close> on a nil pointer panics; nothing in the package ever makes \<^verbatim>\<open>td\<close> point anywhere.\<close>

definition SetHead :: "bytes \<Rightarrow> int \<Rightarrow> peer \<Rightarrow> peer go" where
  "SetHead hash td p = (case pr_td p of None \<Rightarrow> Panic | Some _ \<Rightarrow> Ret (p\<lparr>pr_head := hash, pr_td := Some td\<rparr>))"

definition BlockHeight :: "peer \<Rightarrow> u64" where "BlockHeight p = pr_blockheight p"
definition SetBlockHeight :: "u64 \<Rightarrow> peer \<Rightarrow> peer" where "SetBlockHeight h p = p\<lparr>pr_blockheight := h\<rparr>"

text \<open>\<^verbatim>\<open>%2d\<close> pads the version with a space.\<close>

definition peer_String :: "peer \<Rightarrow> string" where
  "peer_String p = ''Peer '' @ pr_id p @ '' [eth/'' @
     (let v = itoa (pr_version p) in replicate (2 - length v) CHR '' '' @ v) @ '']''"

section \<open>The set of peers\<close>

datatype peer_err = ErrClosed | ErrAlreadyRegistered | ErrNotRegistered

record peerSet =
  ps_peers :: "(string, peer) gomap"
  ps_closed :: bool

definition newPeerSet :: peerSet where "newPeerSet = \<lparr>ps_peers = gm_empty, ps_closed = False\<rparr>"

definition GetPeers :: "peerSet \<Rightarrow> peer list" where "GetPeers ps = map snd (ps_peers ps)"

definition Register :: "peer \<Rightarrow> peerSet \<Rightarrow> peer_err option \<times> peerSet" where
  "Register p ps =
     (if ps_closed ps then (Some ErrClosed, ps)
      else if gm_has (ps_peers ps) (pr_id p) then (Some ErrAlreadyRegistered, ps)
      else (None, ps\<lparr>ps_peers := gm_put (ps_peers ps) (pr_id p) p\<rparr>))"

definition Unregister :: "string \<Rightarrow> peerSet \<Rightarrow> peer_err option \<times> peerSet" where
  "Unregister i ps =
     (if \<not> gm_has (ps_peers ps) i then (Some ErrNotRegistered, ps)
      else (None, ps\<lparr>ps_peers := gm_del (ps_peers ps) i\<rparr>))"

definition Peer :: "string \<Rightarrow> peerSet \<Rightarrow> peer option" where "Peer i ps = gm_get (ps_peers ps) i"

definition lenOfSyncMap :: "('k, 'v) gomap \<Rightarrow> nat" where "lenOfSyncMap m = length m"
definition Len :: "peerSet \<Rightarrow> nat" where "Len ps = lenOfSyncMap (ps_peers ps)"

definition Close :: "peerSet \<Rightarrow> peerSet" where
  "Close ps = ps\<lparr>ps_peers := map (\<lambda>(i, p). (i, p\<lparr>pr_disc := True\<rparr>)) (ps_peers ps), ps_closed := True\<rparr>"

end
