(* ===== verification/Eth_Handler.thy ===== *)
theory Eth_Handler
  imports Eth_Peer
begin

text \<open>
  The protocol manager of \<^verbatim>\<open>src/eth/handler.go\<close>: peers come and go, messages of the consensus are
  broadcast to the permissioned peers, and a message from a peer is decoded, checked and given to the consensus
  engine \<^verbatim>\<open>Node1\<close>.

  \<^verbatim>\<open>handleMsg\<close> decodes the envelope itself and leaves the rest to a goroutine, here a \<open>job\<close>. A job that
  panics ends the process; the error of a job ends the loop of \<^verbatim>\<open>handle\<close> for its peer.
\<close>

section \<open>Reading a message\<close>

datatype eth_err = ErrReadMsg | ErrMsgTooLarge | ErrDecode | ErrInvalidMsgCode | ErrIllegalSig

datatype job = Job u64 CommunicationInfo

definition decode_job :: "Msg \<Rightarrow> eth_err + job" where
  "decode_job msg = (case Msg_Decode ci_type msg of Inl e \<Rightarrow> Inl ErrDecode | Inr v \<Rightarrow> Inr (Job (m_Code msg) (ci_of v)))"

definition handleMsg :: "Msg option \<Rightarrow> eth_err + job" where
  "handleMsg rd =
     (case rd of None \<Rightarrow> Inl ErrReadMsg
      | Some msg \<Rightarrow>
          if m_Size msg > ProtocolMaxMsgSize then Inl ErrMsgTooLarge
          else if m_Code msg = TestSendMsg then decode_job msg
          else if m_Code msg = TestReciveMsg then decode_job msg
          else if m_Code msg = ConMsg then decode_job msg
          else if m_Code msg = Checkpoin then decode_job msg
          else if m_Code msg = Zhuanfa then decode_job msg
          else Inl ErrInvalidMsgCode)"

section \<open>The goroutine of a message\<close>

text \<open>\<^verbatim>\<open>json.Unmarshal\<close> into a fresh struct; its error is printed and the struct used as it is.\<close>

definition unmarshal_or :: "json_lib \<Rightarrow> string \<Rightarrow> 'a field list \<Rightarrow> 'a \<Rightarrow> (bytes \<Rightarrow> 'a) \<Rightarrow> bytes \<Rightarrow> 'a" where
  "unmarshal_or jl ty fs zero bad msg =
     (case jl_parse jl ty msg of None \<Rightarrow> bad msg
      | Some j \<Rightarrow> (case Unmarshal fs j zero of None \<Rightarrow> bad msg | Some a \<Rightarrow> a))"

text \<open>The four comparisons of the message type, with the call each one makes on the engine.\<close>

definition consensus_event :: "json_lib \<Rightarrow> envelope \<Rightarrow> event option" where
  "consensus_event jl m =
     (if e_Type m = ''PBFTRequest''
      then Some (ERequest (unmarshal_or jl ''PBFTRequest'' Request_fields zero_Request (jl_bad_Request jl) (e_Msg m)))
      else if e_Type m = ''PBFTPrePrepare''
      then Some (EPrePrepare (unmarshal_or jl ''PBFTPrePrepare'' PrePrepare_fields zero_PrePrepare (jl_bad_PrePrepare jl) (e_Msg m)))
      else if e_Type m = ''PBFTPrepare''
      then Some (EPrepare (unmarshal_or jl ''PBFTPrepare'' Prepare_fields zero_Prepare (jl_bad_Prepare jl) (e_Msg m)))
      else if e_Type m = ''PBFTCommit''
      then Some (ECommit (unmarshal_or jl ''PBFTCommit'' Commit_fields zero_Commit (jl_bad_Commit jl) (e_Msg m)))
      else None)"

datatype action = Nothing | Call event | Reply

definition payload_action :: "json_lib \<Rightarrow> u64 \<Rightarrow> bytes \<Rightarrow> eth_err + action" where
  "payload_action jl code payload =
     (if code = TestSendMsg
      then (case DecodeBytes payload t_type (zero_val t_type) of Inl e \<Rightarrow> Inl ErrDecode | Inr v \<Rightarrow> Inr Reply)
      else if code = TestReciveMsg
      then (case DecodeBytes payload t_type (zero_val t_type) of Inl e \<Rightarrow> Inl ErrDecode | Inr v \<Rightarrow> Inr Nothing)
      else if code = ConMsg
      then (case DecodeBytes payload cm_type (zero_val cm_type) of Inl e \<Rightarrow> Inl ErrDecode
            | Inr v \<Rightarrow> Inr (case consensus_event jl (cm_of v) of None \<Rightarrow> Nothing | Some e \<Rightarrow> Call e))
      else if code = Checkpoin
      then (case DecodeBytes payload k_type (zero_val k_type) of Inl e \<Rightarrow> Inl ErrDecode
            | Inr v \<Rightarrow> Inr (Call (ECheckpoint (k_of v))))
      else (case DecodeBytes payload cm2_type (zero_val cm2_type) of Inl e \<Rightarrow> Inl ErrDecode
            | Inr v \<Rightarrow> Inr (case consensus_event jl (cm_of v) of None \<Rightarrow> Nothing | Some e \<Rightarrow> Call e)))"

definition job_action :: "json_lib \<Rightarrow> curve \<Rightarrow> peer \<Rightarrow> job \<Rightarrow> (eth_err + action) option" where
  "job_action jl c p j =
     (case j of Job code cd \<Rightarrow>
        (case ValidateSig c (pr_NodePK p) cd of
           Panic \<Rightarrow> None
         | Err \<Rightarrow> Some (Inl ErrIllegalSig)
         | Ret flag \<Rightarrow>
             if \<not> flag then Some (Inl ErrIllegalSig) else Some (payload_action jl code (ci_PayLoad cd))))"

section \<open>The manager\<close>

text \<open>
  The state of the package: the manager, the engine with its goroutines, the messages handed to the network with the
  peer they go to, and the subscriptions of \<^verbatim>\<open>Start\<close>. \<open>pm_Quit\<close> is the closed channel \<^verbatim>\<open>quitSync\<close>.
\<close>

record ProtocolManager =
  pm_networkId :: int
  pm_Peers :: peerSet
  pm_NodeType :: u64
  pm_PNService :: PermissionedNodeService
  pm_Subscribed :: bool
  pm_Quit :: bool
  pm_Node1 :: node
  pm_Sent :: "(string \<times> Msg) list"

definition eth62 :: nat where "eth62 = 62"
definition eth63 :: nat where "eth63 = 63"
definition ProtocolVersions :: "nat list" where "ProtocolVersions = [eth63, eth62]"
definition ProtocolLengths :: "u64 list" where "ProtocolLengths = [27, 8]"

text \<open>\<^verbatim>\<open>SubProtocols\<close>: the versions the manager offers, with their lengths; an empty list is an error.\<close>

definition SubProtocols :: "(nat \<times> u64) list" where
  "SubProtocols = filter (\<lambda>(v, n). \<not> v < eth63) (zip ProtocolVersions ProtocolLengths)"

definition NewProtocolManager :: "int \<Rightarrow> PermissionedNodeService \<Rightarrow> node \<Rightarrow> ProtocolManager option" where
  "NewProtocolManager networkId pns node1 =
     (if SubProtocols = [] then None
      else Some \<lparr> pm_networkId = networkId, pm_Peers = newPeerSet, pm_NodeType = 1, pm_PNService = pns,
        pm_Subscribed = False, pm_Quit = False, pm_Node1 = node1, pm_Sent = [] \<rparr>)"

text \<open>\<^verbatim>\<open>pm.newPeer\<close>: a missing or undecodable key is logged, and what was decoded is used.\<close>

definition pm_newPeer :: "int \<Rightarrow> bytes \<Rightarrow> u64 \<Rightarrow> ProtocolManager \<Rightarrow> peer" where
  "pm_newPeer pv nid nt pm =
     (let pk = (case GetPKByPID (pm_PNService pm) (Bytes2Hex nid) of None \<Rightarrow> '''' | Some pk \<Rightarrow> pk)
      in newPeer pv nid nt (fst (b64_decode pk)))"

text \<open>
  The start of \<^verbatim>\<open>Run\<close>: an error after \<^verbatim>\<open>Stop\<close>, and a panic when the registration fails.
\<close>

definition Run_start :: "int \<Rightarrow> bytes \<Rightarrow> u64 \<Rightarrow> ProtocolManager \<Rightarrow> (peer \<times> ProtocolManager) go" where
  "Run_start version nid nt pm =
     (let p = pm_newPeer version nid nt pm in
      if pm_Quit pm then Err
      else case Register p (pm_Peers pm) of
        (Some err, _) \<Rightarrow> Panic
      | (None, ps) \<Rightarrow> Ret (p, pm\<lparr>pm_Peers := ps\<rparr>))"

definition removePeer :: "string \<Rightarrow> ProtocolManager \<Rightarrow> ProtocolManager" where
  "removePeer i pm =
     (case Peer i (pm_Peers pm) of None \<Rightarrow> pm
      | Some _ \<Rightarrow> pm\<lparr>pm_Peers := snd (Unregister i (pm_Peers pm))\<rparr>)"

text \<open>\<^verbatim>\<open>PeerInfo\<close> of the protocol looks a peer up by the first eight bytes of its id.\<close>

definition PeerInfo_of :: "bytes \<Rightarrow> ProtocolManager \<Rightarrow> PeerInfo option" where
  "PeerInfo_of nid pm = map_option Info (Peer (Bytes2Hex (take 8 nid)) (pm_Peers pm))"

definition Start :: "ProtocolManager \<Rightarrow> ProtocolManager" where
  "Start pm = pm\<lparr>pm_Subscribed := True\<rparr>"

text \<open>
  \<^verbatim>\<open>Stop\<close> of a manager that is not started panics on its nil subscriptions, and a second one on closing the
  channel again.
\<close>

definition Stop :: "ProtocolManager \<Rightarrow> ProtocolManager option" where
  "Stop pm =
     (if \<not> pm_Subscribed pm \<or> pm_Quit pm then None
      else Some (pm\<lparr>pm_Subscribed := False, pm_Quit := True, pm_Peers := Close (pm_Peers pm)\<rparr>))"

section \<open>Broadcasting\<close>

text \<open>
  The loops that send what the engine posts. \<open>rnd\<close> is the random source of the signature for each peer; a message
  that cannot be signed is not sent.
\<close>

definition send_to_permissioned :: "(string \<Rightarrow> Msg go) \<Rightarrow> ProtocolManager \<Rightarrow> (string \<times> Msg) list" where
  "send_to_permissioned f pm =
     List.map_filter (\<lambda>p. if JudgeConPermissioned (pm_PNService pm) (pr_id p)
       then (case f (pr_id p) of Ret m \<Rightarrow> Some (pr_id p, m) | _ \<Rightarrow> None) else None) (GetPeers (pm_Peers pm))"

definition BroadcastLoop_body :: "curve \<Rightarrow> (string \<Rightarrow> bytes list) \<Rightarrow> TestMsg \<Rightarrow> ProtocolManager \<Rightarrow> (string \<times> Msg) list" where
  "BroadcastLoop_body c rnd ev pm = send_to_permissioned (\<lambda>i. SendTestSendMsg c ev (NodePrk (pm_PNService pm)) (rnd i)) pm"

definition ConBroadcastLoop_body :: "json_lib \<Rightarrow> curve \<Rightarrow> (string \<Rightarrow> bytes list) \<Rightarrow> ConsensusMsg \<Rightarrow> ProtocolManager \<Rightarrow> (string \<times> Msg) list" where
  "ConBroadcastLoop_body jl c rnd ev pm = send_to_permissioned (\<lambda>i. SendConsSendMsg jl c ev (NodePrk (pm_PNService pm)) (rnd i)) pm"

definition CheckpointBroadcastLoop_body :: "curve \<Rightarrow> (string \<Rightarrow> bytes list) \<Rightarrow> Checkpoint \<Rightarrow> ProtocolManager \<Rightarrow> (string \<times> Msg) list" where
  "CheckpointBroadcastLoop_body c rnd ev pm = send_to_permissioned (\<lambda>i. SendCheckPointMsg c ev (NodePrk (pm_PNService pm)) (rnd i)) pm"

definition ZhuanfaBroadcastLoop_body :: "json_lib \<Rightarrow> curve \<Rightarrow> (string \<Rightarrow> bytes list) \<Rightarrow> ConsensusMsg2 \<Rightarrow> ProtocolManager \<Rightarrow> (string \<times> Msg) list" where
  "ZhuanfaBroadcastLoop_body jl c rnd ev pm = send_to_permissioned (\<lambda>i. SendZhuanfaMsg jl c ev (NodePrk (pm_PNService pm)) (rnd i)) pm"

text \<open>What one posted event makes the four loops send.\<close>

fun deliver_effect :: "json_lib \<Rightarrow> curve \<Rightarrow> (string \<Rightarrow> bytes list) \<Rightarrow> effect \<Rightarrow> ProtocolManager \<Rightarrow> (string \<times> Msg) list" where
  "deliver_effect jl c rnd (Post m) pm = ConBroadcastLoop_body jl c rnd m pm"
| "deliver_effect jl c rnd (PostTransfer m) pm = ZhuanfaBroadcastLoop_body jl c rnd m pm"
| "deliver_effect jl c rnd (PostCheckpoint k) pm = CheckpointBroadcastLoop_body c rnd k pm"
| "deliver_effect jl c rnd _ pm = []"

section \<open>Running a job\<close>

text \<open>
  The whole goroutine on the state of the package, with the error it reports to \<^verbatim>\<open>handle\<close>. \<open>stamp\<close> is the
  present time as it is printed into the answer to a test message.
\<close>

definition test_reply :: "string \<Rightarrow> TestMsg" where
  "test_reply stamp = \<lparr>t_Msg = ''TestReciveMsg'', t_Sender = ''Node2'', t_Time = stamp\<rparr>"

definition run_job ::
  "json_lib \<Rightarrow> curve \<Rightarrow> (string \<Rightarrow> bytes list) \<Rightarrow> string \<Rightarrow> time \<Rightarrow> time \<Rightarrow> peer \<Rightarrow> job \<Rightarrow> ProtocolManager \<Rightarrow>
     eth_err option \<times> ProtocolManager" where
  "run_job jl c rnd stamp start now p j pm =
     (case job_action jl c p j of
        None \<Rightarrow> (None, pm\<lparr>pm_Node1 := (pm_Node1 pm)\<lparr>nd_crashed := True\<rparr>\<rparr>)
      | Some (Inl e) \<Rightarrow> (Some e, pm)
      | Some (Inr Nothing) \<Rightarrow> (None, pm)
      | Some (Inr (Call e)) \<Rightarrow> (None, pm\<lparr>pm_Node1 := run_event start now e (pm_Node1 pm)\<rparr>)
      | Some (Inr Reply) \<Rightarrow>
          (None, pm\<lparr>pm_Sent := pm_Sent pm
             @ send_to_permissioned (\<lambda>i. SendTestReciveMsg c (test_reply stamp) (NodePrk (pm_PNService pm)) (rnd i)) pm\<rparr>))"

end
