(* ===== verification/Eth_Wire.thy ===== *)
theory Eth_Wire
  imports Eth_Handler
begin

text \<open>
  From one node to the other: what \<^verbatim>\<open>send_signed\<close> hands to the network, the manager of the receiver reads back,
  accepts the signature of and decodes to the message that was sent.
\<close>

section \<open>Sending and reading\<close>

lemma headsize_le: "headsize i \<le> 9"
  using length_putint(2) [of i] by (simp add: headsize_def intsize_putint)

lemma length_rlp_string: "length (rlp_string b) \<le> length b + 9"
  using headsize_le [of "word_of_nat (length b)"] by (simp add: rlp_string_def)

lemma length_rlp_list: "0 < length (rlp_list b)" "length (rlp_list b) \<le> length b + 9"
  using headsize_le [of "word_of_nat (length b)"] by (simp_all add: rlp_list_def headsize_def)

lemma Send_reads:
  assumes g: "genTypeInfo t" and r: "rt t no_tags v" and b: "rlp_of t no_tags v = Inr b" and l: "0 < length b" "length b < 2 ^ 32"
  obtains msg where "Send code t v = Ret msg" "m_Code msg = code" "m_Size msg = of_nat (length b)" "Msg_Decode t msg = Inr v"
proof -
  have f: "fits b" using l by simp
  obtain w where w: "encbuf_encode t v (encbuf_reset empty_encbuf) = Inr w" "appends (encbuf_reset empty_encbuf) w b"
    using encbuf_encode_agrees [of t v "encbuf_reset empty_encbuf"] g b f
    by (cases "encbuf_encode t v (encbuf_reset empty_encbuf)") (auto simp: agrees_def)
  note a = appends_toBytes [OF w(2)]
  let ?r = "\<lparr>buf = Some w, lhpos = 0, strpos = 0, piece = None\<rparr>"
  have "reader_ok ?r" "to_read ?r = b" using a by (simp_all add: reader_ok_def to_read_def toBytes_def)
  then have "fst (encReader_Read (length b) ?r) = b"
    using encReader_Read_spec [of ?r "length b"] by (cases "encReader_Read (length b) ?r") auto
  then have s: "Send code t v = Ret \<lparr>m_Code = code, m_Size = of_nat (length b), m_Payload = b\<rparr>"
    using w(1) a(3) by (simp add: Send_def EncodeToReader_def)
  have "good t no_tags v" using rt_field_good [OF r g] by (simp add: no_tags_def)
  then have d: "reads (decoder t no_tags (zero_val t)) b v" using b f unfolding good_def by auto
  let ?s = "NewStream b True (ucast (of_nat (length b) :: u32))"
  have n: "(ucast (of_nat (length b) :: u32) :: u64) = of_nat (length b)"
    using l(2) by (simp add: word_unat_eq_iff unsigned_ucast_eq unsigned_of_nat take_bit_nat_eq_self)
  have "limited ?s" "remaining ?s = of_nat (length b)" "stack ?s = []" "kind ?s = None" "input ?s = b @ []"
    unfolding n by (auto simp: NewStream_def Reset_def Let_def)
  then have "kind ?s = None" "room ?s (length b)" "input ?s = b @ []" using f unat_length [OF f] by (auto simp: room_def)
  then obtain s' where "decoder t no_tags (zero_val t) ?s = (Inr v, s')" using readsE [OF d] by blast
  then have "Msg_Decode t \<lparr>m_Code = code, m_Size = of_nat (length b), m_Payload = b\<rparr> = Inr v"
    using g by (simp add: Msg_Decode_def Stream_Decode_def)
  then show ?thesis using that s by simp
qed


section \<open>Signing and checking\<close>

text \<open>The hash that is signed: of the payload as the only string of a list.\<close>

definition signed_hash :: "bytes \<Rightarrow> bytes" where
  "signed_hash b = sm3_spec (rlp_list (rlp_string b))"

lemma SigHash_spec:
  assumes "length (ci_PayLoad ci) < 2 ^ 32"
  shows "SigHash ci = Some (signed_hash (ci_PayLoad ci))"
proof -
  let ?b = "ci_PayLoad ci" and ?t = "TSlice TIface" and ?v = "VList [VIface (Some (TBytes, VBytes (ci_PayLoad ci)))]"
  have r: "rlp_of ?t no_tags ?v = Inr (rlp_list (rlp_string ?b))"
    by (simp add: rlp_of.simps [of ?t] rlp_elems.simps rlp_of.simps [of TIface] rlp_of.simps [of TBytes] no_tags_def)
  have "length (rlp_list (rlp_string ?b)) \<le> length ?b + 18"
    using length_rlp_list(2) [of "rlp_string ?b"] length_rlp_string [of ?b] by simp
  then have f: "fits (rlp_list (rlp_string ?b))" using assms by simp
  obtain w where w: "encbuf_encode ?t ?v (encbuf_reset empty_encbuf) = Inr w"
      "appends (encbuf_reset empty_encbuf) w (rlp_list (rlp_string ?b))"
    using encbuf_encode_agrees [of ?t ?v "encbuf_reset empty_encbuf"] r f
    by (cases "encbuf_encode ?t ?v (encbuf_reset empty_encbuf)") (auto simp: agrees_def)
  note a = appends_toBytes [OF w(2)]
  have "concat (toWriter w) = rlp_list (rlp_string ?b)"
    using toWriter_toBytes [OF a(2)] a(1) by (simp add: toWriter_def toBytes_def)
  then show ?thesis
    using w(1) Sum_writes [of "[]" "toWriter w"]
    by (simp add: SigHash_def RlpHash_def Encode_def Sm3_NewKeccak256_def signed_hash_def)
qed

text \<open>The signature of a hash succeeds and is not the one value that does not verify.\<close>

definition good_signature :: "curve \<Rightarrow> PrivateKey \<Rightarrow> bytes \<Rightarrow> bytes list \<Rightarrow> bool" where
  "good_signature c prv hash rnd =
     (case Sm2_Sign c prv hash rnd of Inl _ \<Rightarrow> False | Inr (r, s) \<Rightarrow> (r + s) mod cv_N c \<noteq> 0)"

definition signer :: "curve \<Rightarrow> (int \<Rightarrow> int \<times> int) \<Rightarrow> PrivateKey \<Rightarrow> bool" where
  "signer c pt prv \<longleftrightarrow> ec_curve c pt \<and> coprime (D prv + 1) (cv_N c) \<and> key_pair pt (D prv) prv"

text \<open>The peer knows the public key as the base64 text of its bytes.\<close>

definition knows_key :: "(int \<Rightarrow> int \<times> int) \<Rightarrow> PrivateKey \<Rightarrow> peer \<Rightarrow> bool" where
  "knows_key pt prv p \<longleftrightarrow> pr_NodePK p = string_bytes (b64_encode (pub_bytes pt (D prv)))"

lemma bytes_string_string_bytes: "bytes_string (string_bytes s) = s"
  by (induction s) (simp_all add: bytes_string_def string_bytes_def)

lemma Sign_ValidateSig:
  assumes "signer c pt prv" and "length data < 2 ^ 32" and "good_signature c prv (signed_hash data) rnd"
    and "knows_key pt prv p"
  obtains r s where
    "Sign c data prv rnd = Ret \<lparr>ci_PayLoad = data, ci_Sig = \<lparr>sg_V = pub_bytes pt (D prv), sg_R = Some r, sg_S = Some s\<rparr>, ci_VRS = []\<rparr>"
    "0 < r" "r < 256 ^ 32" "0 < s" "s < 256 ^ 32"
    "ValidateSig c (pr_NodePK p)
       \<lparr>ci_PayLoad = data, ci_Sig = \<lparr>sg_V = pub_bytes pt (D prv), sg_R = Some r, sg_S = Some s\<rparr>, ci_VRS = []\<rparr> = Ret True"
proof -
  have sg: "ec_curve c pt" "coprime (D prv + 1) (cv_N c)" "key_pair pt (D prv) prv" using assms(1) by (simp_all add: signer_def)
  obtain r s where rs: "Sm2_Sign c prv (signed_hash data) rnd = Inr (r, s)" "(r + s) mod cv_N c \<noteq> 0"
    using assms(3) by (auto simp: good_signature_def split: sum.splits)
  obtain sig where sig: "Gm_Sign c (signed_hash data) prv rnd = Ret sig"
    "SignDigitToSignData (pub_bytes pt (D prv)) (Some r) (Some s) = Some sig"
    "SignDataToSignDigit sig = Some (pub_bytes pt (D prv), r, s)" "Ecrecover c (signed_hash data) sig = Ret (pub_bytes pt (D prv))"
    using Gm_Sign_recovers [OF sg rs] by blast
  have "0 < r" "r < 256 ^ 32" "0 < s" "s < 256 ^ 32"
    using sign_verifies(2-5) [OF _ sg(2,3,3) rs] sg(1) by (auto simp: ec_curve_def intro: less_le_trans)
  then show ?thesis
    using assms(2,4) sig that [of r s]
    by (simp add: Sign_def ValidateSig_def SigHash_spec unsigned_info_def knows_key_def bytes_string_string_bytes)
qed


section \<open>A whole message\<close>

lemma rlp_struct:
  "structFields fs = Some gs \<Longrightarrow> rlp_of (TStruct fs) ts (VStruct vs) = map_sum id rlp_list (rlp_fields gs vs)"
  by (simp add: rlp_of.simps [of "TStruct fs"])

lemma rlp_fields_Cons:
  "rlp_fields ((t, ts) # fs) (v # vs) =
     (case rlp_of t ts v of Inl e \<Rightarrow> Inl e | Inr b \<Rightarrow> map_sum id ((@) b) (rlp_fields fs vs))"
  "rlp_fields [] [] = Inr []"
  by (simp_all add: rlp_fields.simps [of "_ # _"] rlp_fields.simps [of "[]"])

lemma rlp_leaves:
  "rlp_of TBytes ts (VBytes b) = Inr (rlp_string b)"
  "rlp_of TString ts (VString b) = Inr (rlp_string b)"
  "0 \<le> i \<Longrightarrow> rlp_of TBigIntPtr ts (VBigPtr (Some i)) = Inr (rlp_string (be_bytes (nat i)))"
  "rlp_of (TUint n) ts (VUint x) = Inr (rlp_string (be_bytes (unat x)))"
  by (simp_all add: rlp_of.simps [of TBytes] rlp_of.simps [of TString] rlp_of.simps [of TBigIntPtr] rlp_of.simps [of "TUint n"])

lemma no_tag: "parseStructTag t fin '''' = Some no_tags"
  by (simp add: parseStructTag_def trim_space_def)

lemmas rlp_shape = rlp_struct rlp_fields_Cons rlp_leaves no_tag

lemma ci_wf: "genTypeInfo ci_type"
  by (simp add: ci_type_def no_tag)

lemma ci_rt:
  assumes "0 \<le> r" "0 \<le> s"
  shows "rt ci_type no_tags (ci_val \<lparr>ci_PayLoad = d, ci_Sig = \<lparr>sg_V = v, sg_R = Some r, sg_S = Some s\<rparr>, ci_VRS = x\<rparr>)"
  using assms by (simp add: ci_type_def ci_val_def rt.simps [of "TStruct _"] rt.simps [of TBytes] rt.simps [of TBigIntPtr] no_tag)

lemma ci_of_val: "ci_of (ci_val ci) = ci"
  by (cases ci, cases "ci_Sig ci") (simp add: ci_of_def ci_val_def sg_of_def)

lemma ci_rlp:
  assumes "0 \<le> r" "r < 256 ^ 32" "0 \<le> s" "s < 256 ^ 32" "length v \<le> 65"
  obtains b where
    "rlp_of ci_type no_tags (ci_val \<lparr>ci_PayLoad = d, ci_Sig = \<lparr>sg_V = v, sg_R = Some r, sg_S = Some s\<rparr>, ci_VRS = []\<rparr>) = Inr b"
    "0 < length b" "length b \<le> length d + 200"
proof -
  let ?sg = "rlp_list (rlp_string v @ rlp_string (be_bytes (nat r)) @ rlp_string (be_bytes (nat s)))"
  let ?b = "rlp_list (rlp_string d @ ?sg @ rlp_string [])"
  have n: "length (be_bytes (nat r)) \<le> 32" "length (be_bytes (nat s)) \<le> 32"
    using assms by (auto intro!: length_be_bytes_le simp: nat_less_iff)
  have "length ?sg \<le> 65 + 32 + 32 + 36"
    using length_rlp_list(2) [of "rlp_string v @ rlp_string (be_bytes (nat r)) @ rlp_string (be_bytes (nat s))"]
      length_rlp_string [of v] length_rlp_string [of "be_bytes (nat r)"] length_rlp_string [of "be_bytes (nat s)"] n assms(5)
    by simp
  then have "length ?b \<le> length d + 200"
    using length_rlp_list(2) [of "rlp_string d @ ?sg @ rlp_string []"] length_rlp_string [of d] by simp
  moreover have
    "rlp_of ci_type no_tags (ci_val \<lparr>ci_PayLoad = d, ci_Sig = \<lparr>sg_V = v, sg_R = Some r, sg_S = Some s\<rparr>, ci_VRS = []\<rparr>) = Inr ?b"
    using assms(1,3) by (simp add: ci_type_def ci_val_def rlp_shape)
  ultimately show ?thesis using that length_rlp_list(1) by blast
qed


text \<open>The codes a job is made for.\<close>

definition known_code :: "u64 \<Rightarrow> bool" where
  "known_code code \<longleftrightarrow> code \<in> {TestSendMsg, TestReciveMsg, ConMsg, Checkpoin, Zhuanfa}"

text \<open>
  Whatever is sent signed, the receiver that knows the key of the signer acts on the payload of.
\<close>

lemma signed_delivery:
  assumes sg: "signer c pt prv" and k: "knows_key pt prv p" and t: "genTypeInfo t" and b: "rlp_of t no_tags v = Inr b"
    and l: "length b \<le> 100000000" and g: "good_signature c prv (signed_hash b) rnd" and code: "known_code code"
  obtains msg j where "send_signed c code t v prv rnd = Ret msg" "handleMsg (Some msg) = Inr j"
    "job_action jl c p j = Some (payload_action jl code b)"
proof -
  have e: "EncodeToBytes empty_encbuf (TPtr t) (VPtr (Some v)) = Inr b"
    using EncodeToBytes_reference [of "TPtr t" "VPtr (Some v)" empty_encbuf] t b l by (simp add: rlp_of.simps [of "TPtr t"])
  have lb: "length b < 2 ^ 32" using l by simp
  obtain r s where rs:
    "Sign c b prv rnd = Ret \<lparr>ci_PayLoad = b, ci_Sig = \<lparr>sg_V = pub_bytes pt (D prv), sg_R = Some r, sg_S = Some s\<rparr>, ci_VRS = []\<rparr>"
    "0 < r" "r < 256 ^ 32" "0 < s" "s < 256 ^ 32"
    "ValidateSig c (pr_NodePK p)
       \<lparr>ci_PayLoad = b, ci_Sig = \<lparr>sg_V = pub_bytes pt (D prv), sg_R = Some r, sg_S = Some s\<rparr>, ci_VRS = []\<rparr> = Ret True"
    using Sign_ValidateSig [OF sg lb g k] by blast
  let ?ci = "\<lparr>ci_PayLoad = b, ci_Sig = \<lparr>sg_V = pub_bytes pt (D prv), sg_R = Some r, sg_S = Some s\<rparr>, ci_VRS = []\<rparr>"
  have "length (pub_bytes pt (D prv)) \<le> 65" using sg pub_bytes_marshal(2) [of c pt "D prv" prv] by (simp add: signer_def)
  then obtain d where d: "rlp_of ci_type no_tags (ci_val ?ci) = Inr d" "0 < length d" "length d \<le> length b + 200"
    using ci_rlp [of r s "pub_bytes pt (D prv)" b] rs(2-5) by (metis order_less_imp_le)
  have "length d < 2 ^ 32" using d(3) l by simp
  then obtain msg where m: "Send code ci_type (ci_val ?ci) = Ret msg" "m_Code msg = code" "m_Size msg = of_nat (length d)"
      "Msg_Decode ci_type msg = Inr (ci_val ?ci)"
    using Send_reads [OF ci_wf ci_rt d(1,2), of code] rs(2,4) by (metis order_less_imp_le)
  have "\<not> ProtocolMaxMsgSize < m_Size msg"
    using d(3) l m(3) by (simp add: ProtocolMaxMsgSize_def word_less_nat_alt unsigned_of_nat take_bit_nat_eq_self)
  then have "handleMsg (Some msg) = Inr (Job code ?ci)"
    using m(2,4) code by (auto simp: handleMsg_def known_code_def decode_job_def ci_of_val)
  moreover have "job_action jl c p (Job code ?ci) = Some (payload_action jl code b)"
    using rs(6) by (simp add: job_action_def)
  ultimately show ?thesis using that m(1) e rs(1) by (simp add: send_signed_def signRawData_def)
qed

section \<open>Consensus messages\<close>

text \<open>The message type and document a consensus event travels as.\<close>

fun wire_type :: "event \<Rightarrow> string" where
  "wire_type (ERequest r) = ''PBFTRequest''"
| "wire_type (EPrePrepare p) = ''PBFTPrePrepare''"
| "wire_type (EPrepare p) = ''PBFTPrepare''"
| "wire_type (ECommit c) = ''PBFTCommit''"
| "wire_type _ = ''''"

fun wire_doc :: "event \<Rightarrow> json" where
  "wire_doc (ERequest r) = Marshal Request_fields r"
| "wire_doc (EPrePrepare p) = Marshal PrePrepare_fields p"
| "wire_doc (EPrepare p) = Marshal Prepare_fields p"
| "wire_doc (ECommit c) = Marshal Commit_fields c"
| "wire_doc _ = JNull"

fun wf_event :: "event \<Rightarrow> bool" where
  "wf_event (ERequest r) = wf_Request r"
| "wf_event (EPrePrepare p) = pred_option wf_Request (pp_Request p)"
| "wf_event (EPrepare p) = pred_option wf_TxsExe (p_RealTxsExeSeqs p)"
| "wf_event (ECommit c) = wf_Commit c"
| "wf_event _ = False"

text \<open>
  What \<^verbatim>\<open>encoding/json\<close> promises of one message: its text is read as its document. Checkpoints do not travel as
  JSON.
\<close>

definition json_reads :: "json_lib \<Rightarrow> event \<Rightarrow> bool" where
  "json_reads jl e \<longleftrightarrow>
     (case e of ECheckpoint _ \<Rightarrow> True | _ \<Rightarrow> jl_parse jl (wire_type e) (jl_text jl (wire_doc e)) = Some (wire_doc e))"

lemma consensus_event_reads:
  assumes "wf_event e" "json_reads jl e" "e_Type m = wire_type e" "e_Msg m = jl_text jl (wire_doc e)"
  shows "consensus_event jl m = Some e"
  using assms by (cases e) (simp_all add: consensus_event_def unmarshal_or_def json_reads_def
    Request_json PrePrepare_json Prepare_json Commit_json)

lemma cm_wf: "genTypeInfo cm_type" "genTypeInfo cm2_type" "genTypeInfo k_type"
  by (simp_all add: cm_type_def cm2_type_def k_type_def time_type_def no_tag)

lemma u64_less: "unat (x :: u64) < 18446744073709551616"
  using unsigned_less [of x, where 'a = nat] by simp

lemma cm_rt: "rt cm_type no_tags (cm_val jl m)" "rt cm2_type no_tags (cm2_val jl m2)" "rt k_type no_tags (k_val k)"
  by (simp_all add: cm_type_def cm_val_def cm2_type_def cm2_val_def k_type_def k_val_def time_type_def
    rt.simps [of "TStruct _"] rt.simps [of TString] rt.simps [of "TUint 64"] no_tag u64_less)


section \<open>From engine to engine\<close>

text \<open>What an effect of one engine is to the engine of a receiver.\<close>

fun carries :: "effect \<Rightarrow> event \<Rightarrow> bool" where
  "carries (Post m) e \<longleftrightarrow> wf_event e \<and> cm_Type m = wire_type e \<and> cm_Msg m = wire_doc e"
| "carries (PostTransfer m) e \<longleftrightarrow> wf_event e \<and> cm_Type m = wire_type e \<and> cm_Msg m = wire_doc e"
| "carries (PostCheckpoint k) e \<longleftrightarrow> e = ECheckpoint k"
| "carries _ e \<longleftrightarrow> False"

text \<open>The bytes that are signed for it.\<close>

definition effect_payload :: "json_lib \<Rightarrow> effect \<Rightarrow> bytes" where
  "effect_payload jl eff =
     (case eff of
        Post m \<Rightarrow> (case rlp_of cm_type no_tags (cm_val jl m) of Inr b \<Rightarrow> b | _ \<Rightarrow> [])
      | PostTransfer m \<Rightarrow> (case rlp_of cm2_type no_tags (cm2_val jl m) of Inr b \<Rightarrow> b | _ \<Rightarrow> [])
      | PostCheckpoint k \<Rightarrow> (case rlp_of k_type no_tags (k_val k) of Inr b \<Rightarrow> b | _ \<Rightarrow> [])
      | _ \<Rightarrow> [])"

fun send_effect :: "json_lib \<Rightarrow> curve \<Rightarrow> effect \<Rightarrow> PrivateKey \<Rightarrow> bytes list \<Rightarrow> Msg go" where
  "send_effect jl c (Post m) prv rnd = SendConsSendMsg jl c m prv rnd"
| "send_effect jl c (PostTransfer m) prv rnd = SendZhuanfaMsg jl c m prv rnd"
| "send_effect jl c (PostCheckpoint k) prv rnd = SendCheckPointMsg c k prv rnd"
| "send_effect jl c _ prv rnd = Err"

lemma deliver_effect_mem:
  assumes "q \<in> set (GetPeers (pm_Peers pm))" "JudgeConPermissioned (pm_PNService pm) (pr_id q)"
    and "send_effect jl c eff (NodePrk (pm_PNService pm)) (rnd (pr_id q)) = Ret msg"
  shows "(pr_id q, msg) \<in> set (deliver_effect jl c rnd eff pm)"
proof -
  have "(pr_id q, msg) \<in> set (send_to_permissioned f pm)" if "f (pr_id q) = Ret msg" for f
    using assms(1,2) that by (force simp: send_to_permissioned_def List.map_filter_def)
  then show ?thesis using assms(3)
    by (cases eff) (simp_all add: ConBroadcastLoop_body_def ZhuanfaBroadcastLoop_body_def CheckpointBroadcastLoop_body_def)
qed

lemma cm_rlp:
  "\<exists>b. rlp_of cm_type no_tags (cm_val jl m) = Inr b" "\<exists>b. rlp_of cm2_type no_tags (cm2_val jl m2) = Inr b"
  "\<exists>b. rlp_of k_type no_tags (k_val k) = Inr b"
  by (simp_all add: cm_type_def cm_val_def cm2_type_def cm2_val_def k_type_def k_val_def time_type_def rlp_shape)

lemma payload_reads:
  assumes "genTypeInfo t" "rt t no_tags v" "rlp_of t no_tags v = Inr b" "length b \<le> 100000000"
  shows "DecodeBytes b t (zero_val t) = Inr v"
proof -
  have "\<And>b'. rlp_of t no_tags v = Inr b' \<Longrightarrow> fits b'" using assms(3,4) by simp
  from DecodeBytes_EncodeToBytes [OF assms(1,2) this, of empty_encbuf]
  obtain b' where "EncodeToBytes empty_encbuf t v = Inr b'" "DecodeBytes b' t (zero_val t) = Inr v" by blast
  moreover have "EncodeToBytes empty_encbuf t v = Inr b"
    using EncodeToBytes_reference [of t v empty_encbuf] assms by simp
  ultimately show ?thesis by simp
qed

lemma cm_of_val:
  "e_Type (cm_of (cm_val jl m)) = cm_Type m" "e_Msg (cm_of (cm_val jl m)) = jl_text jl (cm_Msg m)"
  "e_Type (cm_of (cm2_val jl m2)) = cm_Type m2" "e_Msg (cm_of (cm2_val jl m2)) = jl_text jl (cm_Msg m2)"
  by (simp_all add: cm_of_def cm_val_def cm2_val_def bytes_string_string_bytes)

lemma k_of_val: "k_of (k_val k) = k"
  by (cases k) (simp add: k_of_def k_val_def bytes_string_string_bytes)

lemmas codes = ConMsg_def Checkpoin_def Zhuanfa_def TestSendMsg_def TestReciveMsg_def

lemma effect_action:
  assumes "carries eff e" "json_reads jl e" "length (effect_payload jl eff) \<le> 100000000"
  obtains t v code where "genTypeInfo t" "rlp_of t no_tags v = Inr (effect_payload jl eff)" "known_code code"
    "send_effect jl c eff prv rnd = send_signed c code t v prv rnd"
    "payload_action jl code (effect_payload jl eff) = Inr (Call e)"
proof (cases eff)
  case (Post m)
  obtain b where b: "rlp_of cm_type no_tags (cm_val jl m) = Inr b" using cm_rlp by blast
  then have p: "effect_payload jl eff = b" by (simp add: effect_payload_def Post)
  have l: "length b \<le> 100000000" using assms(3) unfolding p .
  have "payload_action jl ConMsg b = Inr (Call e)"
    using payload_reads [OF cm_wf(1) cm_rt(1) b l] assms(1,2) consensus_event_reads [of e jl "cm_of (cm_val jl m)"]
    by (simp add: payload_action_def codes Post cm_of_val)
  then show ?thesis using that [OF cm_wf(1), of "cm_val jl m" ConMsg] b p
    by (simp add: Post SendConsSendMsg_def known_code_def)
next
  case (PostTransfer m)
  obtain b where b: "rlp_of cm2_type no_tags (cm2_val jl m) = Inr b" using cm_rlp by blast
  then have p: "effect_payload jl eff = b" by (simp add: effect_payload_def PostTransfer)
  have l: "length b \<le> 100000000" using assms(3) unfolding p .
  have "payload_action jl Zhuanfa b = Inr (Call e)"
    using payload_reads [OF cm_wf(2) cm_rt(2) b l] assms(1,2) consensus_event_reads [of e jl "cm_of (cm2_val jl m)"]
    by (simp add: payload_action_def codes PostTransfer cm_of_val)
  then show ?thesis using that [OF cm_wf(2), of "cm2_val jl m" Zhuanfa] b p
    by (simp add: PostTransfer SendZhuanfaMsg_def known_code_def)
next
  case (PostCheckpoint k)
  obtain b where b: "rlp_of k_type no_tags (k_val k) = Inr b" using cm_rlp by blast
  then have p: "effect_payload jl eff = b" by (simp add: effect_payload_def PostCheckpoint)
  have l: "length b \<le> 100000000" using assms(3) unfolding p .
  have "payload_action jl Checkpoin b = Inr (Call e)"
    using payload_reads [OF cm_wf(3) cm_rt(3) b l] assms(1,2) by (simp add: payload_action_def codes PostCheckpoint k_of_val)
  then show ?thesis using that [OF cm_wf(3), of "k_val k" Checkpoin] b p
    by (simp add: PostCheckpoint SendCheckPointMsg_def known_code_def)
qed (use assms in auto)

end
