(* ===== verification/Eth_Props.thy ===== *)
theory Eth_Props
  imports Eth_Wire
begin

text \<open>
  The properties of the protocol manager and its peers: what one engine posts reaches the engine of the others, what
  the signature check guarantees and what it does not, and the set of peers.
\<close>

section \<open>Delivery\<close>

text \<open>The key of a node as its peers have it in their list: the base64 text of its bytes, once more in base64.\<close>

definition published_key :: "bytes \<Rightarrow> string" where
  "published_key pub = b64_encode (string_bytes (b64_encode pub))"

lemma newPeer_knows_key:
  assumes "GetPKByPID (pm_PNService pm) (Bytes2Hex nid) = Some (published_key (pub_bytes pt (D prv)))"
  shows "knows_key pt prv (pm_newPeer v nid nt pm)"
  using assms by (simp add: knows_key_def pm_newPeer_def newPeer_def published_key_def)

lemma effect_reaches_peer:
  assumes "signer c pt prv" and "knows_key pt prv p" and "carries eff e" and "json_reads jl e"
    and "length (effect_payload jl eff) \<le> 100000000" and "good_signature c prv (signed_hash (effect_payload jl eff)) rnd"
  obtains msg j where "send_effect jl c eff prv rnd = Ret msg" "handleMsg (Some msg) = Inr j"
    "job_action jl c p j = Some (Inr (Call e))"
proof -
  obtain t v code where t: "genTypeInfo t" "rlp_of t no_tags v = Inr (effect_payload jl eff)" "known_code code"
    "send_effect jl c eff prv rnd = send_signed c code t v prv rnd"
    "payload_action jl code (effect_payload jl eff) = Inr (Call e)"
    by (rule effect_action [OF assms(3-5)])
  show ?thesis
    using signed_delivery [OF assms(1,2) t(1,2) assms(5,6) t(3), of jl] that t(4,5) by metis
qed

lemma run_job_Call:
  "job_action jl c p j = Some (Inr (Call e)) \<Longrightarrow>
   run_job jl c rnd stamp start now p j pm = (None, pm\<lparr>pm_Node1 := run_event start now e (pm_Node1 pm)\<rparr>)"
  by (simp add: run_job_def)



section \<open>A concrete network\<close>

lemma toy_ec: "ec_curve toy_curve toy_pt"
proof -
  have "a mod 7 < 7" for a :: int by simp
  then show ?thesis using toy_curve_ok by (simp add: ec_curve_def) (simp add: toy_curve_def toy_pt_def)
qed

lemma toy_signer: "signer toy_curve toy_pt toy_key"
  using toy_ec toy_key_ok by (simp add: signer_def)

lemma sign_loop_mod: "sign_loop c d e rnd = sign_loop c d (e mod cv_N c) rnd"
  by (induction rnd) (simp_all add: mod_add_right_eq Let_def split: option.split)

text \<open>Some scalar gives a signature that verifies, whatever the hash.\<close>

lemma toy_good: "\<exists>rnd. good_signature toy_curve toy_key hash rnd"
proof -
  let ?m = "big_val hash mod 7"
  let ?good = "\<lambda>m k. case sign_loop toy_curve 2 m [[k]] of Inl _ \<Rightarrow> False | Inr (r, s) \<Rightarrow> (r + s) mod 7 \<noteq> 0"
  have n: "cv_N toy_curve = 7" "D toy_key = 2" by (simp_all add: toy_curve_def toy_key_def)
  have "0 \<le> ?m" "?m < 7" by simp_all
  then have "?m \<in> set [0, 1, 2, 3, 4, 5, 6]" by auto
  moreover have "list_all (\<lambda>m. list_ex (?good m) [0, 1, 2, 3, 4, 5]) [0, 1, 2, 3, 4, 5, 6]" by code_simp
  ultimately obtain k where "?good ?m k" unfolding list_all_iff list_ex_iff by blast
  then have "good_signature toy_curve toy_key hash [[k]]"
    unfolding good_signature_def Sm2_Sign_def sign_loop_mod [of toy_curve _ "big_val hash" "[[k]]"] n by simp
  then show ?thesis by blast
qed

definition toy_commit :: Commit where "toy_commit = sc_commit ''127.0.0.1:2''"

definition toy_json :: json_lib where
  "toy_json = \<lparr> jl_text = (\<lambda>_. [1, 2, 3]), jl_parse = (\<lambda>_ _. Some (wire_doc (ECommit toy_commit))),
     jl_bad_Request = (\<lambda>_. zero_Request), jl_bad_PrePrepare = (\<lambda>_. zero_PrePrepare), jl_bad_Prepare = (\<lambda>_. zero_Prepare),
     jl_bad_Commit = (\<lambda>_. zero_Commit) \<rparr>"

definition toy_msg :: ConsensusMsg where
  "toy_msg = \<lparr> cm_Msg = wire_doc (ECommit toy_commit), cm_Timestamp = 0, cm_Type = ''PBFTCommit'', cm_Sender = ''a'' \<rparr>"

definition toy_pns :: PermissionedNodeService where
  "toy_pns = NewPermissionedNodeService toy_key
     [\<lparr>n_NodeID = ''01'', n_NodePK = published_key (pub_bytes toy_pt 2), n_NodeType = ''ConsensusNode'', n_NodeStatus = ''N_ABLED''\<rparr>]"

definition toy_pm :: "node \<Rightarrow> ProtocolManager" where
  "toy_pm s = \<lparr> pm_networkId = 1, pm_Peers = snd (Register (newPeer 63 [1] 1 []) newPeerSet), pm_NodeType = 1, pm_PNService = toy_pns,
     pm_Subscribed = True, pm_Quit = False, pm_Node1 = s, pm_Sent = [] \<rparr>"

lemma toy_hyps:
  "carries (Post toy_msg) (ECommit toy_commit)" "json_reads toy_json (ECommit toy_commit)"
  "length (effect_payload toy_json (Post toy_msg)) \<le> 100000000"
proof -
  show "carries (Post toy_msg) (ECommit toy_commit)" by (simp add: toy_msg_def toy_commit_def wf_Commit_def sc_commit_def)
  show "json_reads toy_json (ECommit toy_commit)" by (simp add: json_reads_def toy_json_def)
  have "length (effect_payload toy_json (Post toy_msg)) \<le> 100" by code_simp
  then show "length (effect_payload toy_json (Post toy_msg)) \<le> 100000000" by simp
qed

lemma toy_peers:
  "NodePrk (pm_PNService (toy_pm s)) = toy_key" "D toy_key = 2"
  "GetPeers (pm_Peers (toy_pm s)) = [newPeer 63 [1] 1 []]" "pr_id (newPeer 63 [1] 1 []) = ''01''"
  "JudgeConPermissioned (pm_PNService (toy_pm s)) ''01''"
  "GetPKByPID (pm_PNService (toy_pm s)) (Bytes2Hex [1]) = Some (published_key (pub_bytes toy_pt 2))"
proof -
  have i: "Bytes2Hex [1] = ''01''" by code_simp
  show "NodePrk (pm_PNService (toy_pm s)) = toy_key" "D toy_key = 2"
    by (simp_all add: toy_pm_def toy_pns_def NewPermissionedNodeService_def toy_key_def)
  show "GetPeers (pm_Peers (toy_pm s)) = [newPeer 63 [1] 1 []]"
    by (simp add: toy_pm_def Register_def newPeerSet_def GetPeers_def gm_put_def gm_empty_def gm_has_iff gm_get_def)
  show "pr_id (newPeer 63 [1] 1 []) = ''01''" by (simp only: newPeer_def peer.select_convs i)
  show "JudgeConPermissioned (pm_PNService (toy_pm s)) ''01''"
    "GetPKByPID (pm_PNService (toy_pm s)) (Bytes2Hex [1]) = Some (published_key (pub_bytes toy_pt 2))"
    unfolding i by (simp_all add: toy_pm_def toy_pns_def NewPermissionedNodeService_def JudgeConPermissioned_def GetPKByPID_def)
qed

lemma toy_pm_update: "(toy_pm s)\<lparr>pm_Node1 := t\<rparr> = toy_pm t" "pm_Node1 (toy_pm s) = s"
  by (simp_all add: toy_pm_def)



section \<open>What the signature check guarantees\<close>


lemma toy_job:
  obtains rnd msg j where "send_effect toy_json toy_curve (Post toy_msg) toy_key rnd = Ret msg" "handleMsg (Some msg) = Inr j"
    "\<And>s. job_action toy_json toy_curve (pm_newPeer 63 [1] 1 (toy_pm s)) j = Some (Inr (Call (ECommit toy_commit)))"
proof -
  obtain rnd where r: "good_signature toy_curve toy_key (signed_hash (effect_payload toy_json (Post toy_msg))) rnd"
    using toy_good by blast
  have k: "knows_key toy_pt toy_key (pm_newPeer 63 [1] 1 (toy_pm s))" for s
    by (rule newPeer_knows_key) (simp only: toy_peers)
  have p: "pm_newPeer 63 [1] 1 (toy_pm s) = pm_newPeer 63 [1] 1 (toy_pm (start_node 0 [] [] 2))" for s
    by (simp add: pm_newPeer_def toy_pm_def)
  show ?thesis using effect_reaches_peer [OF toy_signer k toy_hyps r] p that by metis
qed

lemma toy_run:
  "\<not> nd_crashed (run_event 0 0 (ECommit toy_commit) (start_node 0 '':1'' '':1'' 2))"
  "run_event 0 0 (ECommit toy_commit) (start_node 0 '':1'' '':1'' 2) \<noteq> start_node 0 '':1'' '':1'' 2"
proof -
  let ?s = "start_node 0 '':1'' '':1'' 2" and ?t = "run_event 0 0 (ECommit toy_commit) (start_node 0 '':1'' '':1'' 2)"
  show "\<not> nd_crashed ?t" by code_simp
  have "\<not> gm_has (certStore (nd_worker ?s)) (1, 2)" "gm_has (certStore (nd_worker ?t)) (1, 2)" by code_simp+
  then show "?t \<noteq> ?s" by auto
qed




text \<open>
  C36: a message without a key stops the receiver. There is a consensus message that every manager accepts
  from every peer, listed or not, and whose check ends the process: the key taken from the signature is nil, and the
  verifier reads through it.
\<close>

theorem empty_key_crashes_node:
  "\<exists>msg j. handleMsg (Some msg) = Inr j
    \<and> (\<forall>jl rnd stamp start now p pm. nd_crashed (pm_Node1 (snd (run_job jl c rnd stamp start now p j pm))))"
proof -
  let ?ci = "\<lparr>ci_PayLoad = [], ci_Sig = \<lparr>sg_V = [], sg_R = Some 1, sg_S = Some 1\<rparr>, ci_VRS = []\<rparr>"
  obtain d where d: "rlp_of ci_type no_tags (ci_val ?ci) = Inr d" "0 < length d" "length d \<le> length ([] :: bytes) + 200"
    by (rule ci_rlp [of 1 1 "[]" "[]"]) simp_all
  have "length d < 2 ^ 32" using d(3) by simp
  then obtain msg where m: "m_Code msg = ConMsg" "m_Size msg = of_nat (length d)" "Msg_Decode ci_type msg = Inr (ci_val ?ci)"
    using Send_reads [OF ci_wf ci_rt d(1,2), of ConMsg] by auto
  have "handleMsg (Some msg) = Inr (Job ConMsg ?ci)"
    using m d(3) by (simp add: handleMsg_def decode_job_def ci_of_val codes ProtocolMaxMsgSize_def word_less_nat_alt
      unsigned_of_nat take_bit_nat_eq_self)
  moreover have "ValidateSig c k ?ci = Panic" for k
  proof -
    obtain sig where s: "SignDigitToSignData [] (Some 1) (Some 1) = Some sig" by (simp add: SignDigitToSignData_def)
    then have "SignDataToSignDigit sig = Some ([], 1, 1)" using SignData_roundtrip [OF _ _ _ _ _ s] by simp
    then show ?thesis
      using s by (simp add: ValidateSig_def SigHash_spec Ecrecover_def Gm_Verify_def ToECDSAPub_def Sm2_Verify_def)
  qed
  then have "nd_crashed (pm_Node1 (snd (run_job jl c rnd stamp start now p (Job ConMsg ?ci) pm)))" for jl rnd stamp start now p pm
    by (simp add: run_job_def job_action_def)
  ultimately show ?thesis by blast
qed

end
