(* ===== verification/Eth_Run.thy ===== *)
theory Eth_Run
  imports Eth_Props
begin

text \<open>
  A running host: the manager, one \<^verbatim>\<open>handle\<close> loop for each connected peer, the goroutines of the messages
  read so far, the engine, and the events the engine has posted and the broadcast loops have not yet sent. They take
  turns in any order. Shown of every reachable host: its engine is a node of \<open>Pbft_Run\<close>, so that all that is known
  of nodes holds of it, it sends nothing but what the engine has posted, and to permissioned peers only, and the set of
  peers is that of the running loops.
\<close>

section \<open>The loop of a peer\<close>

text \<open>
  The state of \<^verbatim>\<open>handle\<close>: the first error a goroutine of the loop reported, whether the loop is waiting in
  \<^verbatim>\<open>ReadMsg\<close>, and whether it has not yet returned. Goroutines outlive the loop that started them.
\<close>

record session =
  ss_peer :: peer
  ss_jobs :: "job list"
  ss_Err :: "eth_err option"
  ss_reading :: bool
  ss_open :: bool

definition new_session :: "peer \<Rightarrow> session" where
  "new_session p = \<lparr>ss_peer = p, ss_jobs = [], ss_Err = None, ss_reading = False, ss_open = True\<rparr>"

text \<open>The top of the loop, and the return of \<^verbatim>\<open>handleMsg\<close>.\<close>

definition check_Err :: "session \<Rightarrow> session" where
  "check_Err s = (if ss_Err s \<noteq> None then s\<lparr>ss_open := False\<rparr> else s\<lparr>ss_reading := True\<rparr>)"

definition read_msg :: "Msg option \<Rightarrow> session \<Rightarrow> session" where
  "read_msg rd s =
     (case handleMsg rd of
        Inl e \<Rightarrow> s\<lparr>ss_reading := False, ss_open := False\<rparr>
      | Inr j \<Rightarrow> s\<lparr>ss_reading := False, ss_jobs := ss_jobs s @ [j]\<rparr>)"

text \<open>
  \<^verbatim>\<open>sendHandleMsgRes\<close>: only an error is sent, and only the first one is received; when the loop has returned its
  context is done and nothing is sent.
\<close>

definition sendHandleMsgRes :: "eth_err option \<Rightarrow> session \<Rightarrow> session" where
  "sendHandleMsgRes err s = (if err \<noteq> None \<and> ss_open s \<and> ss_Err s = None then s\<lparr>ss_Err := err\<rparr> else s)"

section \<open>The host\<close>

record host =
  h_pm :: ProtocolManager
  h_posted :: "effect list"
  h_sessions :: "session list"

text \<open>The manager after a step of the engine; events are posted to the broadcast loops that have subscribed.\<close>

definition with_pm :: "ProtocolManager \<Rightarrow> host \<Rightarrow> host" where
  "with_pm pm h = h\<lparr>h_pm := pm, h_posted := h_posted h @
     (if pm_Subscribed pm then drop (length (nd_log (pm_Node1 (h_pm h)))) (nd_log (pm_Node1 pm)) else [])\<rparr>"

text \<open>A loop that returns removes its peer.\<close>

definition with_session :: "nat \<Rightarrow> session \<Rightarrow> host \<Rightarrow> host" where
  "with_session i s h =
     h\<lparr>h_sessions := (h_sessions h)[i := s],
       h_pm := (if ss_open s then h_pm h else removePeer (pr_id (ss_peer s)) (h_pm h))\<rparr>"

definition crashed :: "host \<Rightarrow> bool" where "crashed h = nd_crashed (pm_Node1 (h_pm h))"

definition crash :: "host \<Rightarrow> host" where
  "crash h = h\<lparr>h_pm := (h_pm h)\<lparr>pm_Node1 := (pm_Node1 (h_pm h))\<lparr>nd_crashed := True\<rparr>\<rparr>\<rparr>"

text \<open>What the engine does by itself: its goroutines, the start of a consensus and the expiry of blocks.\<close>

inductive own_step :: "time \<Rightarrow> node \<Rightarrow> node \<Rightarrow> bool" for start where
  own_start: "own_step start s (run_event start now EStart s)"
| own_expire: "own_step start s (run_event start now EExpire s)"
| own_goroutine: "t \<in> set (nd_tasks s) \<Longrightarrow>
    own_step start s (run_event start now (task_event t) (s\<lparr>nd_tasks := remove1 t (nd_tasks s)\<rparr>))"

text \<open>
  One step of the host. Each rule that a panic ends has its own rule for the panic. In \<open>run\<close> the goroutine of a message
  runs and reports its error; in \<open>broadcast\<close> one of the loops takes one of the events posted.
\<close>

inductive host_step :: "json_lib \<Rightarrow> curve \<Rightarrow> time \<Rightarrow> host \<Rightarrow> host \<Rightarrow> bool" for jl c start where
  start_up: "\<not> crashed h \<Longrightarrow> \<not> pm_Subscribed (h_pm h) \<Longrightarrow> \<not> pm_Quit (h_pm h) \<Longrightarrow>
    host_step jl c start h (h\<lparr>h_pm := Start (h_pm h)\<rparr>)"
| connect: "\<not> crashed h \<Longrightarrow> Run_start v nid nt (h_pm h) = Ret (p, pm) \<Longrightarrow>
    host_step jl c start h (h\<lparr>h_pm := pm, h_sessions := h_sessions h @ [new_session p]\<rparr>)"
| connect_panic: "\<not> crashed h \<Longrightarrow> Run_start v nid nt (h_pm h) = Panic \<Longrightarrow> host_step jl c start h (crash h)"
| check: "\<not> crashed h \<Longrightarrow> i < length (h_sessions h) \<Longrightarrow> s = h_sessions h ! i \<Longrightarrow> ss_open s \<Longrightarrow> \<not> ss_reading s \<Longrightarrow>
    host_step jl c start h (with_session i (check_Err s) h)"
| receive: "\<not> crashed h \<Longrightarrow> i < length (h_sessions h) \<Longrightarrow> s = h_sessions h ! i \<Longrightarrow> ss_open s \<Longrightarrow> ss_reading s \<Longrightarrow>
    host_step jl c start h (with_session i (read_msg rd s) h)"
| run: "\<not> crashed h \<Longrightarrow> i < length (h_sessions h) \<Longrightarrow> s = h_sessions h ! i \<Longrightarrow> j \<in> set (ss_jobs s) \<Longrightarrow>
    run_job jl c rnd stamp start now (ss_peer s) j (h_pm h) = (err, pm) \<Longrightarrow>
    host_step jl c start h ((with_pm pm h)\<lparr>h_sessions :=
      (h_sessions h)[i := sendHandleMsgRes err (s\<lparr>ss_jobs := remove1 j (ss_jobs s)\<rparr>)]\<rparr>)"
| engine: "\<not> crashed h \<Longrightarrow> own_step start (pm_Node1 (h_pm h)) nd \<Longrightarrow>
    host_step jl c start h (with_pm ((h_pm h)\<lparr>pm_Node1 := nd\<rparr>) h)"
| broadcast: "\<not> crashed h \<Longrightarrow> eff \<in> set (h_posted h) \<Longrightarrow>
    host_step jl c start h (h\<lparr>h_posted := remove1 eff (h_posted h),
      h_pm := (h_pm h)\<lparr>pm_Sent := pm_Sent (h_pm h) @ deliver_effect jl c rnd eff (h_pm h)\<rparr>\<rparr>)"
| stop: "\<not> crashed h \<Longrightarrow> Stop (h_pm h) = Some pm \<Longrightarrow> host_step jl c start h (h\<lparr>h_pm := pm\<rparr>)"
| stop_panic: "\<not> crashed h \<Longrightarrow> Stop (h_pm h) = None \<Longrightarrow> host_step jl c start h (crash h)"

inductive_cases host_stepE: "host_step jl c start h h2"

definition host_init :: "PermissionedNodeService \<Rightarrow> time \<Rightarrow> string \<Rightarrow> string \<Rightarrow> int \<Rightarrow> host \<Rightarrow> bool" where
  "host_init pns start port peer0 n h \<longleftrightarrow> (\<exists>networkId. NewProtocolManager networkId pns (start_node start port peer0 n) = Some (h_pm h))
     \<and> h_posted h = [] \<and> h_sessions h = []"

abbreviation reachable_host where
  "reachable_host jl c pns start port peer0 n \<equiv> reach (host_init pns start port peer0 n) (host_step jl c start)"

section \<open>What a step does to the engine\<close>

lemma own_step_node: "own_step start s t \<Longrightarrow> \<not> nd_crashed s \<Longrightarrow> node_step start s t"
  by (elim own_step.cases) (auto intro: node_step.intros outside [of _ EStart] outside [of _ EExpire])

lemma consensus_event_outside: "consensus_event jl m = Some e \<Longrightarrow> from_outside e"
  by (auto simp: consensus_event_def split: if_splits)

lemma job_action_outside: "job_action jl c p j = Some (Inr (Call e)) \<Longrightarrow> from_outside e"
  by (auto simp: job_action_def payload_action_def dest: consensus_event_outside
      split: job.splits go.splits if_splits sum.splits option.splits)

lemma run_job_node:
  assumes "run_job jl c rnd stamp start now p j pm = (err, pm2)" and "\<not> nd_crashed (pm_Node1 pm)"
  shows "nd_crashed (pm_Node1 pm2) \<or> pm_Node1 pm2 = pm_Node1 pm \<or> node_step start (pm_Node1 pm) (pm_Node1 pm2)"
  using assms by (auto simp: run_job_def dest: job_action_outside intro: outside [OF _ job_action_outside]
      split: option.splits sum.splits action.splits)

lemma pm_Node1_simps [simp]:
  "pm_Node1 (removePeer i pm) = pm_Node1 pm" "pm_Node1 (Start pm) = pm_Node1 pm"
  "Stop pm = Some pm2 \<Longrightarrow> pm_Node1 pm2 = pm_Node1 pm"
  "Run_start v nid nt pm = Ret (p, pm2) \<Longrightarrow> pm_Node1 pm2 = pm_Node1 pm"
  by (auto simp: removePeer_def Start_def Stop_def Run_start_def Let_def split: option.splits if_splits prod.splits)

lemma h_pm_simps [simp]:
  "pm_Node1 (h_pm (with_session i s h)) = pm_Node1 (h_pm h)" "h_pm (with_pm pm h) = pm" "crashed (crash h)"
  by (simp_all add: with_session_def with_pm_def crashed_def crash_def)

lemma host_step_node:
  assumes "host_step jl c start h h2"
  shows "crashed h2 \<or> pm_Node1 (h_pm h2) = pm_Node1 (h_pm h) \<or> node_step start (pm_Node1 (h_pm h)) (pm_Node1 (h_pm h2))"
  using assms by (cases rule: host_step.cases)
    (auto simp: crashed_def crash_def dest: run_job_node own_step_node)


text \<open>The log of the engine only grows.\<close>

lemma run_event_log: "\<exists>l. nd_log (run_event start now e s) = nd_log s @ l"
  by (simp add: run_event_def split: prod.splits)

lemma own_step_log: "own_step start s t \<Longrightarrow> \<exists>l. nd_log t = nd_log s @ l"
  by (elim own_step.cases) (metis run_event_log node.select_convs(3) node.surjective node.update_convs(2))+

lemma run_job_log:
  "run_job jl c rnd stamp start now p j pm = (err, pm2) \<Longrightarrow> \<exists>l. nd_log (pm_Node1 pm2) = nd_log (pm_Node1 pm) @ l"
  by (auto simp: run_job_def run_event_log split: option.splits sum.splits action.splits)

section \<open>What is sent\<close>

definition honest_msg :: "json_lib \<Rightarrow> curve \<Rightarrow> PermissionedNodeService \<Rightarrow> effect list \<Rightarrow> string \<times> Msg \<Rightarrow> bool" where
  "honest_msg jl c pns log = (\<lambda>(i, m). JudgeConPermissioned pns i
     \<and> ((\<exists>eff\<in>set log. \<exists>rnd. send_effect jl c eff (NodePrk pns) rnd = Ret m)
        \<or> (\<exists>stamp rnd. SendTestReciveMsg c (test_reply stamp) (NodePrk pns) rnd = Ret m)))"

definition sent_ok :: "json_lib \<Rightarrow> curve \<Rightarrow> PermissionedNodeService \<Rightarrow> host \<Rightarrow> bool" where
  "sent_ok jl c pns h \<longleftrightarrow> pm_PNService (h_pm h) = pns \<and> set (h_posted h) \<subseteq> set (nd_log (pm_Node1 (h_pm h)))
     \<and> (\<forall>x\<in>set (pm_Sent (h_pm h)). honest_msg jl c pns (nd_log (pm_Node1 (h_pm h))) x)"

lemma honest_msg_mono: "honest_msg jl c pns log x \<Longrightarrow> honest_msg jl c pns (log @ l) x"
  by (auto simp: honest_msg_def)

lemma send_to_permissioned_mem:
  "(i, m) \<in> set (send_to_permissioned f pm) \<Longrightarrow> JudgeConPermissioned (pm_PNService pm) i \<and> f i = Ret m"
  by (auto simp: send_to_permissioned_def List.map_filter_def split: if_splits go.splits)

lemma deliver_effect_sent:
  "(i, m) \<in> set (deliver_effect jl c rnd eff pm) \<Longrightarrow>
   JudgeConPermissioned (pm_PNService pm) i \<and> send_effect jl c eff (NodePrk (pm_PNService pm)) (rnd i) = Ret m"
  by (cases eff) (auto simp: ConBroadcastLoop_body_def ZhuanfaBroadcastLoop_body_def CheckpointBroadcastLoop_body_def
      dest: send_to_permissioned_mem)

lemma deliver_effect_honest:
  "eff \<in> set log \<Longrightarrow> x \<in> set (deliver_effect jl c rnd eff pm) \<Longrightarrow> honest_msg jl c (pm_PNService pm) log x"
  unfolding honest_msg_def case_prod_beta using deliver_effect_sent [of "fst x" "snd x" jl c rnd eff pm] by auto

lemma pm_frame [simp]:
  "pm_PNService (removePeer i pm) = pm_PNService pm" "pm_Sent (removePeer i pm) = pm_Sent pm"
  "pm_PNService (Start pm) = pm_PNService pm" "pm_Sent (Start pm) = pm_Sent pm"
  "Stop pm = Some pm2 \<Longrightarrow> pm_PNService pm2 = pm_PNService pm" "Stop pm = Some pm2 \<Longrightarrow> pm_Sent pm2 = pm_Sent pm"
  "Run_start v nid nt pm = Ret (p, pm2) \<Longrightarrow> pm_PNService pm2 = pm_PNService pm"
  "Run_start v nid nt pm = Ret (p, pm2) \<Longrightarrow> pm_Sent pm2 = pm_Sent pm"
  by (auto simp: removePeer_def Start_def Stop_def Run_start_def Let_def split: option.splits if_splits prod.splits)

lemma sent_ok_frame:
  assumes "sent_ok jl c pns h" "pm_PNService (h_pm h2) = pm_PNService (h_pm h)" "pm_Sent (h_pm h2) = pm_Sent (h_pm h)"
    and "nd_log (pm_Node1 (h_pm h2)) = nd_log (pm_Node1 (h_pm h)) @ l"
    and "set (h_posted h2) \<subseteq> set (h_posted h) \<union> set l"
  shows "sent_ok jl c pns h2"
  using assms by (auto simp: sent_ok_def intro: honest_msg_mono)

lemma run_job_sent:
  assumes "run_job jl c rnd stamp start now p j pm = (err, pm2)"
  shows "pm_PNService pm2 = pm_PNService pm \<and> (\<forall>x\<in>set (pm_Sent pm2). x \<in> set (pm_Sent pm)
    \<or> honest_msg jl c (pm_PNService pm) log x)"
  using assms by (auto simp: run_job_def honest_msg_def dest!: send_to_permissioned_mem
      split: option.splits sum.splits action.splits)

lemma sent_ok_step: "sent_ok jl c pns h \<Longrightarrow> host_step jl c start h h2 \<Longrightarrow> sent_ok jl c pns h2"
proof (elim host_stepE)
  fix i s j rnd stamp now err pm
  assume ok: "sent_ok jl c pns h" and j: "run_job jl c rnd stamp start now (ss_peer s) j (h_pm h) = (err, pm)"
    and h2: "h2 = (with_pm pm h)\<lparr>h_sessions := (h_sessions h)[i := sendHandleMsgRes err (s\<lparr>ss_jobs := remove1 j (ss_jobs s)\<rparr>)]\<rparr>"
  obtain l where l: "nd_log (pm_Node1 pm) = nd_log (pm_Node1 (h_pm h)) @ l" using run_job_log [OF j] by blast
  show ?thesis using ok l run_job_sent [OF j, of "nd_log (pm_Node1 (h_pm h))"] unfolding h2
    by (auto simp: sent_ok_def with_pm_def intro!: honest_msg_mono)
next
  fix nd
  assume ok: "sent_ok jl c pns h" and e: "own_step start (pm_Node1 (h_pm h)) nd" and h2: "h2 = with_pm ((h_pm h)\<lparr>pm_Node1 := nd\<rparr>) h"
  obtain l where "nd_log nd = nd_log (pm_Node1 (h_pm h)) @ l" using own_step_log [OF e] by blast
  then show ?thesis unfolding h2 by (intro sent_ok_frame [OF ok, where l = l]) (auto simp: with_pm_def)
next
  fix eff rnd
  assume a: "sent_ok jl c pns h" "eff \<in> set (h_posted h)" "h2 = h\<lparr>h_posted := remove1 eff (h_posted h),
      h_pm := (h_pm h)\<lparr>pm_Sent := pm_Sent (h_pm h) @ deliver_effect jl c rnd eff (h_pm h)\<rparr>\<rparr>"
  then have "eff \<in> set (nd_log (pm_Node1 (h_pm h)))" "pm_PNService (h_pm h) = pns" by (auto simp: sent_ok_def)
  then have "honest_msg jl c pns (nd_log (pm_Node1 (h_pm h))) x" if "x \<in> set (deliver_effect jl c rnd eff (h_pm h))" for x
    using deliver_effect_honest [of eff _ x jl c rnd "h_pm h"] that by blast
  then show ?thesis using a set_remove1_subset [of eff "h_posted h"] by (auto simp: sent_ok_def)
qed (simp_all add: sent_ok_def with_session_def crash_def)


section \<open>Peers and loops\<close>

abbreviation loop_of :: "host \<Rightarrow> nat \<Rightarrow> string \<Rightarrow> bool" where
  "loop_of h i k \<equiv> i < length (h_sessions h) \<and> ss_open (h_sessions h ! i) \<and> pr_id (ss_peer (h_sessions h ! i)) = k"

text \<open>Each running loop has its peer registered under its id, no two loops have one id, and each registered peer has a loop.\<close>

definition peers_ok :: "host \<Rightarrow> bool" where
  "peers_ok h \<longleftrightarrow> (\<forall>i k. loop_of h i k \<longrightarrow> (\<exists>p. Peer k (pm_Peers (h_pm h)) = Some p \<and> pr_id p = k))
     \<and> (\<forall>i j k. loop_of h i k \<longrightarrow> loop_of h j k \<longrightarrow> i = j)
     \<and> (\<forall>k. Peer k (pm_Peers (h_pm h)) \<noteq> None \<longrightarrow> (\<exists>i. loop_of h i k))
     \<and> ps_closed (pm_Peers (h_pm h)) = pm_Quit (h_pm h)"

lemma Peer_simps:
  "Peer k newPeerSet = None"
  "Register p ps = (None, ps2) \<Longrightarrow> Peer k ps2 = (if k = pr_id p then Some p else Peer k ps)"
  "Register p ps = (None, ps2) \<Longrightarrow> Peer (pr_id p) ps = None \<and> \<not> ps_closed ps \<and> \<not> ps_closed ps2"
  "Peer k (snd (Unregister i ps)) = (if k = i then None else Peer k ps)"
  "ps_closed (snd (Unregister i ps)) = ps_closed ps"
  "ps_closed (Close ps)"
  by (auto simp: Peer_def newPeerSet_def Register_def Unregister_def Close_def gm_has_iff split: if_splits)

lemma Peer_Close: "Peer k (Close ps) = map_option (\<lambda>p. p\<lparr>pr_disc := True\<rparr>) (Peer k ps)"
  by (simp add: Peer_def Close_def gm_get_def map_of_map)


lemma peers_ok_frame:
  assumes "peers_ok h" "pm_Peers (h_pm h2) = pm_Peers (h_pm h)" "pm_Quit (h_pm h2) = pm_Quit (h_pm h)"
    and "\<And>i k. loop_of h2 i k = loop_of h i k"
  shows "peers_ok h2"
  using assms by (simp add: peers_ok_def)

lemma session_simps [simp]:
  "ss_peer (check_Err s) = ss_peer s" "ss_peer (read_msg rd s) = ss_peer s" "ss_peer (sendHandleMsgRes err s) = ss_peer s"
  "ss_open (sendHandleMsgRes err s) = ss_open s"
  by (simp_all add: check_Err_def read_msg_def sendHandleMsgRes_def split: sum.split)

lemma peers_ok_session:
  assumes "peers_ok h" "i < length (h_sessions h)" "ss_open (h_sessions h ! i)" "ss_peer s = ss_peer (h_sessions h ! i)"
  shows "peers_ok (with_session i s h)"
proof (cases "ss_open s")
  case True
  have "loop_of (with_session i s h) j k = loop_of h j k" for j k
    using assms True by (cases "j = i") (simp_all add: with_session_def)
  then show ?thesis by (intro peers_ok_frame [OF assms(1)]) (use True in \<open>simp_all add: with_session_def\<close>)
next
  case False
  let ?k = "pr_id (ss_peer (h_sessions h ! i))"
  have l: "loop_of (with_session i s h) j k \<longleftrightarrow> loop_of h j k \<and> k \<noteq> ?k" for j k
    using assms False by (cases "j = i") (auto simp: with_session_def peers_ok_def)
  have "Peer ?k (pm_Peers (h_pm h)) \<noteq> None" using assms(1-3) by (auto simp: peers_ok_def)
  then have p: "pm_Peers (h_pm (with_session i s h)) = snd (Unregister ?k (pm_Peers (h_pm h)))"
      "pm_Quit (h_pm (with_session i s h)) = pm_Quit (h_pm h)"
    using False assms(4) by (auto simp: with_session_def removePeer_def)
  show ?thesis using assms(1) unfolding peers_ok_def l p Peer_simps by auto
qed

lemma peers_ok_connect:
  assumes "peers_ok h" "Run_start v nid nt (h_pm h) = Ret (p, pm)"
  shows "peers_ok (h\<lparr>h_pm := pm, h_sessions := h_sessions h @ [new_session p]\<rparr>)"
proof -
  obtain ps where r: "Register p (pm_Peers (h_pm h)) = (None, ps)" "pm = (h_pm h)\<lparr>pm_Peers := ps\<rparr>" "\<not> pm_Quit (h_pm h)"
    using assms(2) by (auto simp: Run_start_def Let_def split: if_splits prod.splits option.splits)
  let ?h2 = "h\<lparr>h_pm := pm, h_sessions := h_sessions h @ [new_session p]\<rparr>"
  have l: "loop_of ?h2 j k \<longleftrightarrow> loop_of h j k \<or> j = length (h_sessions h) \<and> k = pr_id p" for j k
    by (auto simp: nth_append new_session_def)
  have n: "\<not> loop_of h j (pr_id p)" for j
    using assms(1) Peer_simps(3) [OF r(1)] by (auto simp: peers_ok_def)
  have q: "Peer k (pm_Peers (h_pm ?h2)) = (if k = pr_id p then Some p else Peer k (pm_Peers (h_pm h)))" for k
    using Peer_simps(2) [OF r(1)] r(2) by simp
  show ?thesis using assms(1) n Peer_simps(3) [OF r(1)] r(2,3) unfolding peers_ok_def l q by auto
qed

lemma run_job_peers:
  "run_job jl c rnd stamp start now p j pm = (err, pm2) \<Longrightarrow> pm_Peers pm2 = pm_Peers pm \<and> pm_Quit pm2 = pm_Quit pm"
  by (auto simp: run_job_def split: option.splits sum.splits action.splits)

lemma peers_ok_step: "peers_ok h \<Longrightarrow> host_step jl c start h h2 \<Longrightarrow> peers_ok h2"
proof (elim host_stepE)
  fix i j rnd stamp now err pm
  assume ok: "peers_ok h" and j: "run_job jl c rnd stamp start now (ss_peer (h_sessions h ! i)) j (h_pm h) = (err, pm)"
    and i: "i < length (h_sessions h)"
    and h2: "h2 = (with_pm pm h)\<lparr>h_sessions := (h_sessions h)[i := sendHandleMsgRes err ((h_sessions h ! i)\<lparr>ss_jobs := remove1 j (ss_jobs (h_sessions h ! i))\<rparr>)]\<rparr>"
  have "loop_of h2 m k = loop_of h m k" for m k using i by (cases "m = i") (simp_all add: h2 with_pm_def)
  then show ?thesis by (rule peers_ok_frame [OF ok, rotated 2]) (use run_job_peers [OF j] in \<open>simp_all add: h2\<close>)
next
  fix pm
  assume ok: "peers_ok h" and "Stop (h_pm h) = Some pm" "h2 = h\<lparr>h_pm := pm\<rparr>"
  then show ?thesis by (auto simp: Stop_def peers_ok_def Peer_simps Peer_Close split: if_splits)
qed (simp_all add: peers_ok_session peers_ok_connect, simp_all add: peers_ok_def with_pm_def crash_def Start_def)


section \<open>Properties of a running host\<close>

lemma host_step_alive: "host_step jl c start h h2 \<Longrightarrow> \<not> crashed h"
  by (elim host_stepE)

lemma host_init_simps:
  "host_init pns start port peer0 n h \<Longrightarrow> pm_Node1 (h_pm h) = start_node start port peer0 n \<and> pm_PNService (h_pm h) = pns
     \<and> pm_Peers (h_pm h) = newPeerSet \<and> pm_Sent (h_pm h) = [] \<and> \<not> pm_Quit (h_pm h) \<and> h_posted h = [] \<and> h_sessions h = []"
  by (auto simp: host_init_def NewProtocolManager_def eq_commute [of _ "h_pm h"] split: if_splits)

lemma sent_ok_init: "host_init pns start port peer0 n h \<Longrightarrow> sent_ok jl c pns h"
  by (simp add: sent_ok_def host_init_simps)

lemma peers_ok_init: "host_init pns start port peer0 n h \<Longrightarrow> peers_ok h"
  by (simp add: peers_ok_def host_init_simps Peer_simps) (simp add: newPeerSet_def)

interpretation host_engine: transition_invariant "host_init pns start port peer0 n" "host_step jl c start"
    "\<lambda>h. \<not> crashed h \<longrightarrow> reachable_node start port peer0 n (pm_Node1 (h_pm h))" for pns start port peer0 n jl c
proof unfold_locales
  fix h assume "host_init pns start port peer0 n h"
  then show "\<not> crashed h \<longrightarrow> reachable_node start port peer0 n (pm_Node1 (h_pm h))"
    by (simp add: host_init_simps reachable_node_def reach_init)
next
  fix h h2 assume "\<not> crashed h \<longrightarrow> reachable_node start port peer0 n (pm_Node1 (h_pm h))" "host_step jl c start h h2"
  then show "\<not> crashed h2 \<longrightarrow> reachable_node start port peer0 n (pm_Node1 (h_pm h2))"
    using host_step_alive host_step_node unfolding reachable_node_def by (metis reach_step)
qed

interpretation host_sent: transition_invariant "host_init pns start port peer0 n" "host_step jl c start" "sent_ok jl c pns"
  for pns start port peer0 n jl c
  by unfold_locales (fact sent_ok_init sent_ok_step)+

interpretation host_peers: transition_invariant "host_init pns start port peer0 n" "host_step jl c start" peers_ok
  for pns start port peer0 n jl c
  by unfold_locales (fact peers_ok_init peers_ok_step)+

text \<open>A message of a new peer can come through: it connects, the loop reads the message and the goroutine runs.\<close>

lemma connect_and_deliver:
  assumes h: "reachable_host jl c pns start port peer0 n h" "\<not> crashed h" and r: "Run_start v nid nt (h_pm h) = Ret (p, pm1)"
    and j: "handleMsg (Some msg) = Inr j" and a: "job_action jl c p j = Some (Inr (Call e))"
  shows "\<exists>h4. reachable_host jl c pns start port peer0 n h4
    \<and> pm_Node1 (h_pm h4) = run_event start now e (pm_Node1 (h_pm h)) \<and> loop_of h4 (length (h_sessions h)) (pr_id p)"
proof -
  let ?i = "length (h_sessions h)" and ?s1 = "new_session p"
  let ?s2 = "check_Err ?s1"
  let ?s3 = "read_msg (Some msg) ?s2"
  let ?h1 = "h\<lparr>h_pm := pm1, h_sessions := h_sessions h @ [?s1]\<rparr>"
  let ?h2 = "with_session ?i ?s2 ?h1"
  let ?h3 = "with_session ?i ?s3 ?h2"
  let ?pm = "pm1\<lparr>pm_Node1 := run_event start now e (pm_Node1 pm1)\<rparr>"
  let ?h4 = "(with_pm ?pm ?h3)\<lparr>h_sessions := (h_sessions ?h3)[?i := sendHandleMsgRes None (?s3\<lparr>ss_jobs := remove1 j (ss_jobs ?s3)\<rparr>)]\<rparr>"
  note ss = new_session_def check_Err_def read_msg_def j with_session_def
  have n: "pm_Node1 pm1 = pm_Node1 (h_pm h)" by (rule pm_Node1_simps(4) [OF r])
  then have c: "\<not> crashed ?h1" "\<not> crashed ?h2" "\<not> crashed ?h3" using h(2) by (simp_all add: crashed_def)
  have "host_step jl c start h ?h1" by (rule connect [OF h(2) r])
  moreover have "host_step jl c start ?h1 ?h2" by (rule check [OF c(1)]) (simp_all add: new_session_def)
  moreover have "host_step jl c start ?h2 ?h3" by (rule receive [OF c(2)]) (simp_all add: ss)
  moreover have "host_step jl c start ?h3 ?h4"
    by (rule run [OF c(3), where rnd = "\<lambda>_. []" and stamp = "[]" and now = now]) (simp_all add: ss run_job_Call [OF a])
  ultimately have "reachable_host jl c pns start port peer0 n ?h4" by (meson h(1) reach_step)
  moreover have "loop_of ?h4 ?i (pr_id p)" by (simp add: ss with_pm_def)
  moreover have "pm_Node1 (h_pm ?h4) = run_event start now e (pm_Node1 (h_pm h))" by (simp add: n)
  ultimately show ?thesis by blast
qed

lemma toy_host:
  obtains h where "reachable_host toy_json toy_curve toy_pns 0 '':1'' '':1'' 2 h"
    "pm_Node1 (h_pm h) = run_event 0 0 (ECommit toy_commit) (start_node 0 '':1'' '':1'' 2)" "loop_of h 0 ''01''"
proof -
  define h where "h = \<lparr>h_pm = the (NewProtocolManager 1 toy_pns (start_node 0 '':1'' '':1'' 2)), h_posted = [], h_sessions = []\<rparr>"
  have i: "host_init toy_pns 0 '':1'' '':1'' 2 h"
    by (simp add: host_init_def h_def NewProtocolManager_def SubProtocols_def ProtocolVersions_def ProtocolLengths_def)
  note hs = host_init_simps [OF i]
  define p where "p = pm_newPeer 63 [1] 1 (h_pm h)"
  have "p = pm_newPeer 63 [1] 1 (toy_pm s)" for s using hs by (simp add: p_def pm_newPeer_def toy_pm_def)
  then obtain msg j where j: "handleMsg (Some msg) = Inr j"
    "job_action toy_json toy_curve p j = Some (Inr (Call (ECommit toy_commit)))" using toy_job by metis
  obtain ps where "Register p newPeerSet = (None, ps)" by (simp add: Register_def newPeerSet_def)
  then have r: "Run_start 63 [1] 1 (h_pm h) = Ret (p, (h_pm h)\<lparr>pm_Peers := ps\<rparr>)"
    using hs by (simp add: Run_start_def p_def [symmetric] Let_def)
  have "pr_id p = ''01''" using toy_peers(4) by (simp add: p_def pm_newPeer_def newPeer_def)
  moreover have "\<not> crashed h" using hs by (simp add: crashed_def start_node_def)
  ultimately show ?thesis
    using connect_and_deliver [OF reach_init [where init = "host_init toy_pns 0 '':1'' '':1'' 2", OF i] _ r j, of 0] hs that by auto
qed





end
