(* ===== verification/Galois.thy ===== *)
theory Galois
  imports Prelude
begin

text \<open>
  The arithmetic of \<^verbatim>\<open>crypto-gm/shamir/shamir.go\<close> (and of the same file under \<^verbatim>\<open>crypto\<close>): bytes are the
  field of 256 elements, multiplied and divided with the tables of logarithms and powers of \<^verbatim>\<open>0xe5\<close>. The type
  \<open>gf256\<close> of bytes with these operations is shown to be a field.
\<close>

unbundle bit_operations_syntax

section \<open>Tables\<close>

definition logTable :: "u8 list" where
  "logTable =
     [0x00, 0xff, 0xc8, 0x08, 0x91, 0x10, 0xd0, 0x36, 0x5a, 0x3e, 0xd8, 0x43, 0x99, 0x77, 0xfe, 0x18,
      0x23, 0x20, 0x07, 0x70, 0xa1, 0x6c, 0x0c, 0x7f, 0x62, 0x8b, 0x40, 0x46, 0xc7, 0x4b, 0xe0, 0x0e,
      0xeb, 0x16, 0xe8, 0xad, 0xcf, 0xcd, 0x39, 0x53, 0x6a, 0x27, 0x35, 0x93, 0xd4, 0x4e, 0x48, 0xc3,
      0x2b, 0x79, 0x54, 0x28, 0x09, 0x78, 0x0f, 0x21, 0x90, 0x87, 0x14, 0x2a, 0xa9, 0x9c, 0xd6, 0x74,
      0xb4, 0x7c, 0xde, 0xed, 0xb1, 0x86, 0x76, 0xa4, 0x98, 0xe2, 0x96, 0x8f, 0x02, 0x32, 0x1c, 0xc1,
      0x33, 0xee, 0xef, 0x81, 0xfd, 0x30, 0x5c, 0x13, 0x9d, 0x29, 0x17, 0xc4, 0x11, 0x44, 0x8c, 0x80,
      0xf3, 0x73, 0x42, 0x1e, 0x1d, 0xb5, 0xf0, 0x12, 0xd1, 0x5b, 0x41, 0xa2, 0xd7, 0x2c, 0xe9, 0xd5,
      0x59, 0xcb, 0x50, 0xa8, 0xdc, 0xfc, 0xf2, 0x56, 0x72, 0xa6, 0x65, 0x2f, 0x9f, 0x9b, 0x3d, 0xba,
      0x7d, 0xc2, 0x45, 0x82, 0xa7, 0x57, 0xb6, 0xa3, 0x7a, 0x75, 0x4f, 0xae, 0x3f, 0x37, 0x6d, 0x47,
      0x61, 0xbe, 0xab, 0xd3, 0x5f, 0xb0, 0x58, 0xaf, 0xca, 0x5e, 0xfa, 0x85, 0xe4, 0x4d, 0x8a, 0x05,
      0xfb, 0x60, 0xb7, 0x7b, 0xb8, 0x26, 0x4a, 0x67, 0xc6, 0x1a, 0xf8, 0x69, 0x25, 0xb3, 0xdb, 0xbd,
      0x66, 0xdd, 0xf1, 0xd2, 0xdf, 0x03, 0x8d, 0x34, 0xd9, 0x92, 0x0d, 0x63, 0x55, 0xaa, 0x49, 0xec,
      0xbc, 0x95, 0x3c, 0x84, 0x0b, 0xf5, 0xe6, 0xe7, 0xe5, 0xac, 0x7e, 0x6e, 0xb9, 0xf9, 0xda, 0x8e,
      0x9a, 0xc9, 0x24, 0xe1, 0x0a, 0x15, 0x6b, 0x3a, 0xa0, 0x51, 0xf4, 0xea, 0xb2, 0x97, 0x9e, 0x5d,
      0x22, 0x88, 0x94, 0xce, 0x19, 0x01, 0x71, 0x4c, 0xa5, 0xe3, 0xc5, 0x31, 0xbb, 0xcc, 0x1f, 0x2d,
      0x3b, 0x52, 0x6f, 0xf6, 0x2e, 0x89, 0xf7, 0xc0, 0x68, 0x1b, 0x64, 0x04, 0x06, 0xbf, 0x83, 0x38]"

definition expTable :: "u8 list" where
  "expTable =
     [0x01, 0xe5, 0x4c, 0xb5, 0xfb, 0x9f, 0xfc, 0x12, 0x03, 0x34, 0xd4, 0xc4, 0x16, 0xba, 0x1f, 0x36,
      0x05, 0x5c, 0x67, 0x57, 0x3a, 0xd5, 0x21, 0x5a, 0x0f, 0xe4, 0xa9, 0xf9, 0x4e, 0x64, 0x63, 0xee,
      0x11, 0x37, 0xe0, 0x10, 0xd2, 0xac, 0xa5, 0x29, 0x33, 0x59, 0x3b, 0x30, 0x6d, 0xef, 0xf4, 0x7b,
      0x55, 0xeb, 0x4d, 0x50, 0xb7, 0x2a, 0x07, 0x8d, 0xff, 0x26, 0xd7, 0xf0, 0xc2, 0x7e, 0x09, 0x8c,
      0x1a, 0x6a, 0x62, 0x0b, 0x5d, 0x82, 0x1b, 0x8f, 0x2e, 0xbe, 0xa6, 0x1d, 0xe7, 0x9d, 0x2d, 0x8a,
      0x72, 0xd9, 0xf1, 0x27, 0x32, 0xbc, 0x77, 0x85, 0x96, 0x70, 0x08, 0x69, 0x56, 0xdf, 0x99, 0x94,
      0xa1, 0x90, 0x18, 0xbb, 0xfa, 0x7a, 0xb0, 0xa7, 0xf8, 0xab, 0x28, 0xd6, 0x15, 0x8e, 0xcb, 0xf2,
      0x13, 0xe6, 0x78, 0x61, 0x3f, 0x89, 0x46, 0x0d, 0x35, 0x31, 0x88, 0xa3, 0x41, 0x80, 0xca, 0x17,
      0x5f, 0x53, 0x83, 0xfe, 0xc3, 0x9b, 0x45, 0x39, 0xe1, 0xf5, 0x9e, 0x19, 0x5e, 0xb6, 0xcf, 0x4b,
      0x38, 0x04, 0xb9, 0x2b, 0xe2, 0xc1, 0x4a, 0xdd, 0x48, 0x0c, 0xd0, 0x7d, 0x3d, 0x58, 0xde, 0x7c,
      0xd8, 0x14, 0x6b, 0x87, 0x47, 0xe8, 0x79, 0x84, 0x73, 0x3c, 0xbd, 0x92, 0xc9, 0x23, 0x8b, 0x97,
      0x95, 0x44, 0xdc, 0xad, 0x40, 0x65, 0x86, 0xa2, 0xa4, 0xcc, 0x7f, 0xec, 0xc0, 0xaf, 0x91, 0xfd,
      0xf7, 0x4f, 0x81, 0x2f, 0x5b, 0xea, 0xa8, 0x1c, 0x02, 0xd1, 0x98, 0x71, 0xed, 0x25, 0xe3, 0x24,
      0x06, 0x68, 0xb3, 0x93, 0x2c, 0x6f, 0x3e, 0x6c, 0x0a, 0xb8, 0xce, 0xae, 0x74, 0xb1, 0x42, 0xb4,
      0x1e, 0xd3, 0x49, 0xe9, 0x9c, 0xc8, 0xc6, 0xc7, 0x22, 0x6e, 0xdb, 0x20, 0xbf, 0x43, 0x51, 0x52,
      0x66, 0xb2, 0x76, 0x60, 0xda, 0xc5, 0xf3, 0xf6, 0xaa, 0xcd, 0x9a, 0xa0, 0x75, 0x54, 0x0e, 0x01]"

section \<open>Operations\<close>

text \<open>\<^verbatim>\<open>subtle.ConstantTimeByteEq\<close> is equality; the assignments that only keep the timing even have no effect.
  \<open>go_rem\<close> is \<^verbatim>\<open>%\<close>, which rounds towards zero.\<close>

definition go_rem :: "int \<Rightarrow> int \<Rightarrow> int" where
  "go_rem a b = (if a < 0 then - (- a mod b) else a mod b)"

definition gf_div :: "u8 \<Rightarrow> u8 \<Rightarrow> u8 option" where
  "gf_div a b =
     (if b = 0 then None
      else let diff = go_rem (int (unat (logTable ! unat a)) - int (unat (logTable ! unat b))) 255;
               diff = (if diff < 0 then diff + 255 else diff);
               ret = expTable ! nat diff
           in Some (if a = 0 then 0 else ret))"

definition gf_mult :: "u8 \<Rightarrow> u8 \<Rightarrow> u8" where
  "gf_mult a b =
     (let s = (unat (logTable ! unat a) + unat (logTable ! unat b)) mod 255;
          ret = expTable ! s;
          ret = (if a = 0 then 0 else ret)
      in if b = 0 then 0 else ret)"

definition gf_add :: "u8 \<Rightarrow> u8 \<Rightarrow> u8" where "gf_add a b = a XOR b"

section \<open>Logarithms\<close>

definition lg :: "u8 \<Rightarrow> nat" where "lg a = unat (logTable ! unat a)"
definition ex :: "nat \<Rightarrow> u8" where "ex i = expTable ! (i mod 255)"

text \<open>The multiplication by the generator, as a linear map on the bits.\<close>

definition times_g :: "u8 \<Rightarrow> u8" where
  "times_g x = (if bit x 0 then 0xe5 else 0) XOR (if bit x 1 then 0xd1 else 0) XOR (if bit x 2 then 0xb9 else 0) XOR (if bit x 3 then 0x69 else 0)
     XOR (if bit x 4 then 0xd2 else 0) XOR (if bit x 5 then 0xbf else 0) XOR (if bit x 6 then 0x65 else 0) XOR (if bit x 7 then 0xca else 0)"

lemma ex_lg_all: "list_all (\<lambda>a. expTable ! (unat (logTable ! a) mod 255) = word_of_nat a) [1..<256]"
  by code_simp

lemma lg_ex_all: "list_all (\<lambda>i. unat (logTable ! unat (expTable ! i)) mod 255 = i \<and> expTable ! i \<noteq> 0) [0..<255]"
  by code_simp

lemma times_g_all: "list_all (\<lambda>i. times_g (expTable ! i) = expTable ! (Suc i mod 255)) [0..<255]"
  by code_simp


lemma ex_lg [simp]: "a \<noteq> 0 \<Longrightarrow> ex (lg a) = a"
proof -
  assume "a \<noteq> 0"
  then have "unat a \<in> set [1..<256]" using unat_u8_less [of a] by (simp add: Suc_le_eq unat_gt_0)
  then show ?thesis using ex_lg_all by (simp add: list_all_iff ex_def lg_def)
qed

lemma ex_props: "i < 255 \<Longrightarrow> lg (ex i) mod 255 = i" "ex i \<noteq> 0" "times_g (ex i) = ex (Suc i)"
proof -
  have "j \<in> set [0..<255]" if "j < 255" for j :: nat using that by simp
  then have a: "lg (expTable ! j) mod 255 = j \<and> expTable ! j \<noteq> 0 \<and> times_g (expTable ! j) = expTable ! (Suc j mod 255)"
    if "j < 255" for j using lg_ex_all times_g_all that unfolding list_all_iff lg_def by blast
  show "i < 255 \<Longrightarrow> lg (ex i) mod 255 = i" using a [of i] by (simp add: ex_def)
  have "i mod 255 < 255" by simp
  from a [OF this] show "ex i \<noteq> 0" "times_g (ex i) = ex (Suc i)" by (simp_all add: ex_def mod_Suc_eq)
qed

lemma lg_ex: "lg (ex i) mod 255 = i mod 255"
  using ex_props(1) [of "i mod 255"] by (simp add: ex_def)

lemma ex_cong: "i mod 255 = j mod 255 \<Longrightarrow> ex i = ex j"
  by (simp add: ex_def)

lemma gf_mult_alt: "gf_mult a b = (if a = 0 \<or> b = 0 then 0 else ex (lg a + lg b))"
  by (simp add: gf_mult_def Let_def ex_def lg_def)

lemma gf_mult_ex: "gf_mult (ex i) (ex j) = ex (i + j)"
  by (simp add: gf_mult_alt ex_props(2)) (rule ex_cong, metis lg_ex mod_add_cong)

text \<open>Multiplication by a power of the generator is that many steps of a linear map.\<close>

lemma times_g_xor: "times_g (x XOR y) = times_g x XOR times_g y"
proof -
  have i: "(if p \<noteq> q then c else 0) = (if p then c else 0) XOR (if q then c else 0)" for p q and c :: u8 by simp
  show ?thesis unfolding times_g_def bit_xor_iff i by (simp only: xor.assoc xor.commute xor.left_commute)
qed

lemma times_g_0 [simp]: "times_g 0 = 0"
  by (simp add: times_g_def)

lemma gf_mult_iter: "gf_mult (ex i) b = (times_g ^^ i) b"
proof (cases "b = 0")
  case True
  have "(times_g ^^ i) 0 = 0" by (induction i) simp_all
  then show ?thesis using True by (simp add: gf_mult_alt)
next
  case False
  have "(times_g ^^ i) (ex k) = ex (i + k)" for k by (induction i) (simp_all add: ex_props(3))
  from this [of "lg b"] show ?thesis using gf_mult_ex [of i "lg b"] False by simp
qed

lemma gf_mult_xor: "gf_mult a (b XOR c) = gf_mult a b XOR gf_mult a c"
proof (cases "a = 0")
  case False
  have "(times_g ^^ i) (b XOR c) = (times_g ^^ i) b XOR (times_g ^^ i) c" for i by (induction i) (simp_all add: times_g_xor)
  then show ?thesis using gf_mult_iter [of "lg a"] False by simp
qed (simp add: gf_mult_alt)

lemma gf_mult_0 [simp]: "gf_mult 0 a = 0" "gf_mult a 0 = 0"
  by (simp_all add: gf_mult_alt)

lemma gf_cases [case_names zero power]:
  obtains "a = 0" | i where "a = ex i"
  using ex_lg by metis

lemma gf_mult_commute: "gf_mult a b = gf_mult b a"
  by (simp add: gf_mult_alt add.commute)

lemma gf_mult_assoc: "gf_mult (gf_mult a b) c = gf_mult a (gf_mult b c)"
  by (cases a rule: gf_cases; cases b rule: gf_cases; cases c rule: gf_cases) (simp_all add: gf_mult_ex add.assoc)

lemma gf_mult_1 [simp]: "gf_mult 1 a = a"
proof -
  have "ex 0 = 1" by (simp add: ex_def expTable_def)
  then show ?thesis using gf_mult_iter [of 0] by simp
qed

lemma go_rem_mod: "0 < b \<Longrightarrow> (if go_rem a b < 0 then go_rem a b + b else go_rem a b) = a mod b"
proof (cases "a < 0")
  case True
  assume b: "0 < b"
  then show ?thesis using True zmod_zminus1_eq_if [of "- a" b] by (auto simp: go_rem_def not_less intro: antisym)
qed (simp add: go_rem_def not_less)

lemma gf_div_mult: "b \<noteq> 0 \<Longrightarrow> \<exists>q. gf_div a b = Some q \<and> gf_mult q b = a"
proof -
  assume b: "b \<noteq> 0"
  let ?d = "nat ((int (lg a) - int (lg b)) mod 255)"
  have d: "gf_div a b = Some (if a = 0 then 0 else expTable ! ?d)"
    using b by (simp add: gf_div_def Let_def go_rem_mod lg_def)
  have "int ((?d + lg b) mod 255) = int (lg a mod 255)" by (simp add: zmod_int mod_add_left_eq)
  then have "ex (?d + lg b) = ex (lg a)" by (intro ex_cong) linarith
  moreover have "?d < 255" by (simp add: nat_less_iff)
  then have "expTable ! ?d = ex ?d" by (simp add: ex_def)
  ultimately show ?thesis using d b gf_mult_ex [of ?d "lg b"] by (cases "a = 0") simp_all
qed

section \<open>The field\<close>

datatype gf256 = GF (gf_byte: u8)

instantiation gf256 :: field
begin

definition zero_gf256 :: gf256 where "0 = GF 0"
definition one_gf256 :: gf256 where "1 = GF 1"
definition plus_gf256 :: "gf256 \<Rightarrow> gf256 \<Rightarrow> gf256" where "a + b = GF (gf_add (gf_byte a) (gf_byte b))"
definition uminus_gf256 :: "gf256 \<Rightarrow> gf256" where "- a = (a :: gf256)"
definition minus_gf256 :: "gf256 \<Rightarrow> gf256 \<Rightarrow> gf256" where "a - b = a + (b :: gf256)"
definition times_gf256 :: "gf256 \<Rightarrow> gf256 \<Rightarrow> gf256" where "a * b = GF (gf_mult (gf_byte a) (gf_byte b))"
definition inverse_gf256 :: "gf256 \<Rightarrow> gf256" where
  "inverse a = GF (case gf_div 1 (gf_byte a) of None \<Rightarrow> 0 | Some b \<Rightarrow> b)"
definition divide_gf256 :: "gf256 \<Rightarrow> gf256 \<Rightarrow> gf256" where
  "a div b = GF (case gf_div (gf_byte a) (gf_byte b) of None \<Rightarrow> 0 | Some c \<Rightarrow> c)"

lemmas gf_defs = zero_gf256_def one_gf256_def plus_gf256_def uminus_gf256_def minus_gf256_def times_gf256_def
  inverse_gf256_def divide_gf256_def gf_add_def

instance
proof
  fix a b c :: gf256
  show "a * b * c = a * (b * c)" by (simp add: gf_defs gf_mult_assoc)
  show "a * b = b * a" by (simp add: gf_defs gf_mult_commute)
  show "1 * a = a" "a + b + c = a + (b + c)" "a + b = b + a" "0 + a = a" "- a + a = 0" "a - b = a + - b"
    by (simp_all add: gf_defs ac_simps)
  show "(a + b) * c = a * c + b * c"
    by (simp add: gf_defs gf_mult_commute [of _ "gf_byte c"] gf_mult_xor)
  show "(0 :: gf256) \<noteq> 1" by (simp add: gf_defs)
  show "inverse (0 :: gf256) = 0" by (simp add: gf_defs gf_div_def)
  show "inverse a * a = 1" if "a \<noteq> 0"
    using that gf_div_mult [of "gf_byte a" 1] by (cases a) (auto simp: gf_defs)
  show "a div b = a * inverse b"
  proof (cases "gf_byte b = 0")
    case False
    then obtain q r where "gf_div (gf_byte a) (gf_byte b) = Some q" "gf_mult q (gf_byte b) = gf_byte a"
      "gf_div 1 (gf_byte b) = Some r" "gf_mult r (gf_byte b) = 1" using gf_div_mult by blast
    then show ?thesis by (simp add: gf_defs) (metis gf_mult_1 gf_mult_assoc gf_mult_commute)
  qed (simp add: gf_defs gf_div_def)
qed

end

end
