(* ===== verification/Shamir.thy ===== *)
theory Shamir
  imports Galois Complex_Main
begin

text \<open>
  Secret sharing of \<^verbatim>\<open>crypto-gm/shamir/shamir.go\<close> (the file under \<^verbatim>\<open>crypto\<close> is the same): every byte of
  the secret is the value at zero of a random polynomial, a share holds the values at one point. The random bytes of
  \<^verbatim>\<open>crypto/rand\<close> and the permutation of \<^verbatim>\<open>mathrand.Perm(255)\<close> are arguments. Shown: enough shares give the
  secret back, and fewer are compatible with every secret of that length.
\<close>

section \<open>Polynomials\<close>

text \<open>The errors of the package; the last two are panics.\<close>

datatype shamir_err = ErrParts | ErrRandom | ErrTooFew | ErrShort | ErrLengths | ErrDuplicate | IndexPanic | DivideByZero

text \<open>
  \<^verbatim>\<open>makePolynomial\<close> takes its coefficients from the random bytes and returns those still to be read. The length
  \<^verbatim>\<open>degree+1\<close> is computed in a byte, and is zero for the highest degree.
\<close>

definition makePolynomial :: "u8 \<Rightarrow> u8 \<Rightarrow> bytes \<Rightarrow> shamir_err + bytes \<times> bytes" where
  "makePolynomial intercept degree rnd =
     (let len = unat (degree + 1) in
      if len = 0 then Inl IndexPanic
      else if length rnd < len - 1 then Inl ErrRandom
      else Inr (intercept # take (len - 1) rnd, drop (len - 1) rnd))"

fun horner_loop :: "u8 \<Rightarrow> u8 \<Rightarrow> bytes \<Rightarrow> u8" where
  "horner_loop x out [] = out"
| "horner_loop x out (coeff # cs) = horner_loop x (gf_add (gf_mult out x) coeff) cs"

text \<open>The loop goes down from the highest coefficient.\<close>

definition evaluate :: "bytes \<Rightarrow> u8 \<Rightarrow> u8" where
  "evaluate coefficients x =
     (if x = 0 then hd coefficients else horner_loop x (last coefficients) (rev (butlast coefficients)))"

text \<open>The inner loop of \<^verbatim>\<open>interpolatePolynomial\<close> for the sample \<open>i\<close>, and the outer one; a division by zero is a panic.\<close>

fun basis_loop :: "bytes \<Rightarrow> u8 \<Rightarrow> nat \<Rightarrow> nat list \<Rightarrow> u8 \<Rightarrow> u8 option" where
  "basis_loop xs x i [] basis = Some basis"
| "basis_loop xs x i (j # js) basis =
     (if i = j then basis_loop xs x i js basis
      else let num = gf_add x (xs ! j); denom = gf_add (xs ! i) (xs ! j)
           in case gf_div num denom of None \<Rightarrow> None | Some term \<Rightarrow> basis_loop xs x i js (gf_mult basis term))"

fun interpolate_loop :: "bytes \<Rightarrow> bytes \<Rightarrow> u8 \<Rightarrow> nat list \<Rightarrow> u8 \<Rightarrow> u8 option" where
  "interpolate_loop xs ys x [] result = Some result"
| "interpolate_loop xs ys x (i # is) result =
     (case basis_loop xs x i [0..<length xs] 1 of None \<Rightarrow> None
      | Some basis \<Rightarrow> interpolate_loop xs ys x is (gf_add result (gf_mult (ys ! i) basis)))"

definition interpolatePolynomial :: "bytes \<Rightarrow> bytes \<Rightarrow> u8 \<Rightarrow> u8 option" where
  "interpolatePolynomial x_samples y_samples x = interpolate_loop x_samples y_samples x [0..<length x_samples] 0"

section \<open>Splitting and combining\<close>

text \<open>The columns of the output: for each byte of the secret the values at all coordinates.\<close>

fun split_loop :: "u8 list \<Rightarrow> u8 \<Rightarrow> bytes \<Rightarrow> bytes \<Rightarrow> shamir_err + bytes list" where
  "split_loop xs degree [] rnd = Inr []"
| "split_loop xs degree (val # secret) rnd =
     (case makePolynomial val degree rnd of Inl e \<Rightarrow> Inl e
      | Inr (p, rnd1) \<Rightarrow>
          (case split_loop xs degree secret rnd1 of Inl e \<Rightarrow> Inl e | Inr cols \<Rightarrow> Inr (map (evaluate p) xs # cols)))"

definition shares :: "u8 list \<Rightarrow> bytes list \<Rightarrow> bytes list" where
  "shares xs cols = map (\<lambda>i. map (\<lambda>col. col ! i) cols @ [xs ! i]) [0..<length xs]"

definition Shamir_Split :: "bytes \<Rightarrow> int \<Rightarrow> int \<Rightarrow> nat list \<Rightarrow> bytes \<Rightarrow> shamir_err + bytes list" where
  "Shamir_Split secret parts threshold perm rnd =
     (if parts < threshold then Inl ErrParts
      else if parts > 255 then Inl ErrParts
      else if threshold < 2 then Inl ErrParts
      else if threshold > 255 then Inl ErrParts
      else if length secret = 0 then Inl ErrParts
      else let xs = map (\<lambda>x. word_of_nat x + 1) (take (nat parts) perm)
           in case split_loop xs (word_of_int (threshold - 1)) secret rnd of
                Inl e \<Rightarrow> Inl e
              | Inr cols \<Rightarrow> Inr (shares xs cols))"

fun combine_loop :: "bytes list \<Rightarrow> bytes \<Rightarrow> nat list \<Rightarrow> bytes option" where
  "combine_loop parts xs [] = Some []"
| "combine_loop parts xs (idx # is) =
     (case interpolatePolynomial xs (map (\<lambda>part. part ! idx) parts) 0 of None \<Rightarrow> None
      | Some val \<Rightarrow> map_option (Cons val) (combine_loop parts xs is))"

definition Combine :: "bytes list \<Rightarrow> shamir_err + bytes" where
  "Combine parts =
     (if length parts < 2 then Inl ErrTooFew
      else let firstPartLen = length (hd parts) in
      if firstPartLen < 2 then Inl ErrShort
      else if \<not> list_all (\<lambda>p. length p = firstPartLen) (tl parts) then Inl ErrLengths
      else let x_samples = map (\<lambda>p. p ! (firstPartLen - 1)) parts in
      if \<not> distinct x_samples then Inl ErrDuplicate
      else case combine_loop parts x_samples [0..<firstPartLen - 1] of
             None \<Rightarrow> Inl DivideByZero | Some secret \<Rightarrow> Inr secret)"

section \<open>Polynomials over a field\<close>

fun horner :: "'a :: field list \<Rightarrow> 'a \<Rightarrow> 'a" where
  "horner [] x = 0"
| "horner (c # cs) x = c + x * horner cs x"

text \<open>The functions given by \<open>n\<close> coefficients.\<close>

definition poly_fun :: "nat \<Rightarrow> ('a :: field \<Rightarrow> 'a) \<Rightarrow> bool" where
  "poly_fun n f \<longleftrightarrow> (\<exists>cs. length cs = n \<and> f = horner cs)"

lemma poly_fun_0: "poly_fun n (\<lambda>_. 0)"
proof -
  have "horner (replicate n 0) = (\<lambda>_. 0 :: 'a)" by (induction n) (simp_all add: fun_eq_iff)
  then show ?thesis unfolding poly_fun_def by (metis length_replicate)
qed

lemma poly_fun_Suc: "poly_fun (Suc n) f \<longleftrightarrow> (\<exists>c g. poly_fun n g \<and> f = (\<lambda>x. c + x * g x))"
proof
  assume "poly_fun (Suc n) f"
  then obtain c cs where "length cs = n" "f = horner (c # cs)" by (auto simp: poly_fun_def length_Suc_conv)
  then have "poly_fun n (horner cs)" "f = (\<lambda>x. c + x * horner cs x)" by (auto simp: poly_fun_def)
  then show "\<exists>c g. poly_fun n g \<and> f = (\<lambda>x. c + x * g x)" by blast
next
  assume "\<exists>c g. poly_fun n g \<and> f = (\<lambda>x. c + x * g x)"
  then obtain c cs where "length cs = n" "f = (\<lambda>x. c + x * horner cs x)" by (auto simp: poly_fun_def)
  then have "length (c # cs) = Suc n" "f = horner (c # cs)" by auto
  then show "poly_fun (Suc n) f" unfolding poly_fun_def by blast
qed

lemma poly_fun_add: "poly_fun n f \<Longrightarrow> poly_fun n g \<Longrightarrow> poly_fun n (\<lambda>x. f x + g x)"
proof (induction n arbitrary: f g)
  case 0
  then show ?case by (simp add: poly_fun_def fun_eq_iff)
next
  case (Suc n)
  then obtain c f1 d g1 where "poly_fun n f1" "f = (\<lambda>x. c + x * f1 x)" "poly_fun n g1" "g = (\<lambda>x. d + x * g1 x)"
    by (auto simp: poly_fun_Suc)
  then have "poly_fun n (\<lambda>x. f1 x + g1 x)" "(\<lambda>x. f x + g x) = (\<lambda>x. (c + d) + x * (f1 x + g1 x))"
    using Suc.IH by (simp_all add: fun_eq_iff algebra_simps)
  then show ?case by (auto simp: poly_fun_Suc)
qed

lemma poly_fun_scale: "poly_fun n f \<Longrightarrow> poly_fun n (\<lambda>x. a * f x)"
proof (induction n arbitrary: f)
  case 0
  then show ?case by (simp add: poly_fun_def fun_eq_iff)
next
  case (Suc n)
  then obtain c f1 where "poly_fun n f1" "f = (\<lambda>x. c + x * f1 x)" by (auto simp: poly_fun_Suc)
  then have "poly_fun n (\<lambda>x. a * f1 x)" "(\<lambda>x. a * f x) = (\<lambda>x. a * c + x * (a * f1 x))"
    using Suc.IH by (simp_all add: fun_eq_iff algebra_simps)
  then show ?case by (auto simp: poly_fun_Suc)
qed

lemma poly_fun_mono: "poly_fun n f \<Longrightarrow> poly_fun (Suc n) f"
proof (induction n arbitrary: f)
  case 0
  then show ?case using poly_fun_0 [of 1] by (simp add: poly_fun_def)
next
  case (Suc n)
  then show ?case by (metis poly_fun_Suc)
qed

lemma poly_fun_le: "n \<le> m \<Longrightarrow> poly_fun n f \<Longrightarrow> poly_fun m f"
  by (induction rule: dec_induct) (auto intro: poly_fun_mono)

lemma poly_fun_linear: "poly_fun n f \<Longrightarrow> poly_fun (Suc n) (\<lambda>x. (x - a) * f x)"
proof -
  assume f: "poly_fun n f"
  have "poly_fun (Suc n) (\<lambda>x. 0 + x * f x)" using f by (auto simp: poly_fun_Suc simp del: add_0)
  from poly_fun_add [OF this poly_fun_scale [OF poly_fun_mono [OF f], of "- a"]]
  show ?thesis by (simp add: algebra_simps)
qed

text \<open>Division by a root, and the number of roots.\<close>

lemma horner_divide: "\<exists>qs. length qs = length cs \<and> (\<forall>x. horner (c # cs) x - horner (c # cs) a = (x - a) * horner qs x)"
proof (induction cs arbitrary: c)
  case (Cons d cs)
  then obtain qs where q: "length qs = length cs" "\<And>x. horner (d # cs) x - horner (d # cs) a = (x - a) * horner qs x"
    by blast
  have "horner (c # d # cs) x - horner (c # d # cs) a = (x - a) * horner (horner (d # cs) a # qs) x" for x
  proof -
    have e: "horner (d # cs) x = horner (d # cs) a + (x - a) * horner qs x" using q(2) [of x] by (simp only: algebra_simps)
    show ?thesis unfolding horner.simps(2) [of c "d # cs"] horner.simps(2) [of _ qs] e by (simp only: algebra_simps)
  qed
  then show ?case using q(1) by (metis length_Cons)
qed simp

lemma poly_fun_roots:
  assumes "poly_fun n f" "finite X" "n \<le> card X" "\<And>x. x \<in> X \<Longrightarrow> f x = 0"
  shows "f x = 0"
  using assms
proof (induction n arbitrary: f X x)
  case 0
  then show ?case by (simp add: poly_fun_def)
next
  case (Suc n)
  then obtain a where a: "a \<in> X" by fastforce
  obtain c cs where f: "f = horner (c # cs)" "length cs = n" using Suc.prems(1) by (auto simp: poly_fun_def length_Suc_conv)
  then obtain qs where q: "length qs = n" "\<And>x. f x - f a = (x - a) * horner qs x" using horner_divide [of cs c a] by auto
  have "horner qs y = 0" if "y \<in> X - {a}" for y
    using q(2) [of y] Suc.prems(4) a that by simp
  moreover have "poly_fun n (horner qs)" using q(1) by (auto simp: poly_fun_def)
  moreover have "n \<le> card (X - {a})" using Suc.prems(2,3) a by simp
  ultimately have "horner qs x = 0" using Suc.IH [of "horner qs" "X - {a}"] Suc.prems(2) by blast
  then show ?case using q(2) [of x] Suc.prems(4) [OF a] by simp
qed


text \<open>Interpolation.\<close>

definition lagrange :: "nat \<Rightarrow> (nat \<Rightarrow> 'a :: field) \<Rightarrow> (nat \<Rightarrow> 'a) \<Rightarrow> 'a \<Rightarrow> 'a" where
  "lagrange n xs ys x = (\<Sum>i<n. ys i * (\<Prod>j\<in>{..<n} - {i}. (x - xs j) / (xs i - xs j)))"

lemma poly_fun_prod:
  fixes xs :: "'b \<Rightarrow> 'a :: field"
  shows "finite J \<Longrightarrow> poly_fun (Suc (card J)) (\<lambda>x. \<Prod>j\<in>J. (x - xs j) / d j)"
proof (induction J rule: finite_induct)
  case empty
  have "length [1] = 1" "(\<lambda>x. 1) = horner [1 :: 'a]" by auto
  then show ?case unfolding poly_fun_def prod.empty card.empty by (metis One_nat_def)
next
  case (insert k J)
  have "(\<Prod>j\<in>insert k J. (x - xs j) / d j) = inverse (d k) * ((x - xs k) * (\<Prod>j\<in>J. (x - xs j) / d j))" for x
    using insert by (simp add: divide_inverse)
  then show ?case
    using poly_fun_scale [OF poly_fun_linear [OF insert.IH, of "xs k"], of "inverse (d k)"] insert by simp
qed

lemma poly_fun_sum: "finite I \<Longrightarrow> (\<And>i. i \<in> I \<Longrightarrow> poly_fun n (f i)) \<Longrightarrow> poly_fun n (\<lambda>x. \<Sum>i\<in>I. f i x)"
  by (induction I rule: finite_induct) (simp_all add: poly_fun_0 poly_fun_add)

lemma poly_fun_lagrange: "poly_fun n (lagrange n xs ys)"
  unfolding lagrange_def [abs_def]
proof (intro poly_fun_sum poly_fun_scale)
  fix i assume i: "i \<in> {..<n}"
  then have "Suc (card ({..<n} - {i})) = n" by simp
  then show "poly_fun n (\<lambda>x. \<Prod>j\<in>{..<n} - {i}. (x - xs j) / (xs i - xs j))"
    using poly_fun_prod [of "{..<n} - {i}" xs "\<lambda>j. xs i - xs j"] by simp
qed simp

lemma lagrange_sample:
  assumes "inj_on xs {..<n}" "k < n"
  shows "lagrange n xs ys (xs k) = ys k"
proof -
  have o: "(\<Prod>j\<in>{..<n} - {i}. (xs k - xs j) / (xs i - xs j)) = (if i = k then 1 else 0)" if "i < n" for i
  proof (cases "i = k")
    case True
    then have "(xs k - xs j) / (xs i - xs j) = 1" if "j \<in> {..<n} - {i}" for j
      using assms that inj_onD [OF assms(1), of k j] by auto
    then show ?thesis using True by (simp add: prod.neutral)
  next
    case False
    then have "k \<in> {..<n} - {i}" using assms(2) by simp
    then show ?thesis using False by (subst prod_zero) auto
  qed
  then have "lagrange n xs ys (xs k) = (\<Sum>i<n. ys i * (if i = k then 1 else 0))" unfolding lagrange_def by (intro sum.cong) simp_all
  then show ?thesis using assms(2) by (simp add: if_distrib cong: if_cong)
qed

lemma lagrange_poly:
  assumes "inj_on xs {..<n}" "poly_fun m p" "m \<le> n"
  shows "lagrange n xs (\<lambda>i. p (xs i)) x = p x"
proof -
  define d where "d x = lagrange n xs (\<lambda>i. p (xs i)) x + (- 1) * p x" for x
  have "poly_fun n d" unfolding d_def [abs_def]
    by (intro poly_fun_add poly_fun_lagrange poly_fun_scale poly_fun_le [OF assms(3,2)])
  moreover have "n \<le> card (xs ` {..<n})" using assms(1) by (simp add: card_image)
  moreover have "d y = 0" if "y \<in> xs ` {..<n}" for y using lagrange_sample [OF assms(1)] that by (auto simp: d_def)
  ultimately have "d x = 0" by (metis poly_fun_roots finite_imageI finite_lessThan)
  then show ?thesis by (simp add: d_def)
qed


lemma horner_zero:
  assumes "finite X" "length ds \<le> card X" "\<And>x. x \<in> X \<Longrightarrow> horner ds x = 0"
  shows "ds = replicate (length ds) 0"
  using assms
proof (induction ds arbitrary: X)
  case (Cons c ds)
  have "poly_fun (length (c # ds)) (horner (c # ds))" unfolding poly_fun_def by blast
  then have z: "horner (c # ds) x = 0" for x by (rule poly_fun_roots [OF _ Cons.prems])
  from this [of 0] have "c = 0" by simp
  moreover have "horner ds x = 0" if "x \<in> X - {0}" for x using z [of x] \<open>c = 0\<close> that by simp
  moreover have "length ds \<le> card (X - {0})" using Cons.prems(1,2) by (cases "0 \<in> X") simp_all
  ultimately show ?case using Cons.IH [of "X - {0}"] Cons.prems(1) by simp
qed simp

lemma horner_diff: "length as = length bs \<Longrightarrow> horner (map2 (-) as bs) x = horner as x - horner bs x"
  by (induction as bs rule: list_induct2) (simp_all add: right_diff_distrib)

lemma horner_unique:
  assumes "finite X" "length as \<le> card X" "length as = length bs" "\<And>x. x \<in> X \<Longrightarrow> horner as x = horner bs x"
  shows "as = bs"
proof -
  let ?ds = "map2 (-) as bs"
  have "?ds = replicate (length ?ds) 0" using assms by (intro horner_zero [OF assms(1)]) (simp_all add: horner_diff)
  then have "i < length as \<Longrightarrow> ?ds ! i = 0" for i using assms(3) by (metis length_map length_zip min.idem nth_replicate)
  then show ?thesis using assms(3) by (intro nth_equalityI) auto
qed

text \<open>There is exactly one polynomial with a given value at zero and at the points of \<open>I\<close>.\<close>

lemma polynomial_through:
  assumes "finite I" "inj_on xs I" "0 \<notin> xs ` I" "card I = n"
  shows "\<exists>!cs. length cs = n \<and> (\<forall>i\<in>I. horner (c # cs) (xs i) = ys i)"
proof -
  obtain f where f: "bij_betw f {..<n} I" using assms(1,4) by (metis finite_lessThan card_lessThan finite_same_card_bij)
  let ?xs = "\<lambda>k. if k = 0 then 0 else xs (f (k - 1))" and ?ys = "\<lambda>k. if k = 0 then c else ys (f (k - 1))"
  have fI: "k < n \<Longrightarrow> f k \<in> I" for k using f by (auto simp: bij_betw_def)
  have inj: "inj_on ?xs {..<Suc n}"
  proof (rule inj_onI)
    fix k l assume "k \<in> {..<Suc n}" "l \<in> {..<Suc n}" "?xs k = ?xs l"
    then show "k = l" using assms(2,3) f fI [of "k - 1"] fI [of "l - 1"]
      by (cases k; cases l) (auto simp: inj_on_def bij_betw_def image_iff)
  qed
  obtain ds where ds: "length ds = Suc n" "lagrange (Suc n) ?xs ?ys = horner ds"
    using poly_fun_lagrange [of "Suc n" ?xs ?ys] by (auto simp: poly_fun_def)
  then obtain d cs where cs: "ds = d # cs" "length cs = n" by (auto simp: length_Suc_conv)
  have v: "horner ds (?xs k) = ?ys k" if "k < Suc n" for k using lagrange_sample [OF inj that, of ?ys] ds(2) by simp
  from v [of 0] have "d = c" by (simp add: cs)
  have v': "horner (c # cs) (xs i) = ys i" if "i \<in> I" for i
  proof -
    have "i \<in> f ` {..<n}" using f that by (simp add: bij_betw_def)
    then obtain k where "k < n" "f k = i" by auto
    then show ?thesis using v [of "Suc k"] \<open>d = c\<close> by (simp add: cs)
  qed
  moreover have "cs' = cs" if cs': "length cs' = n" "\<forall>i\<in>I. horner (c # cs') (xs i) = ys i" for cs'
  proof -
    have "finite (insert 0 (xs ` I))" "length (c # cs') \<le> card (insert 0 (xs ` I))"
      using assms cs' by (simp_all add: card_image)
    moreover have "horner (c # cs') x = horner (c # cs) x" if x: "x \<in> insert 0 (xs ` I)" for x
    proof (cases "x = 0")
      case False
      then obtain i where "i \<in> I" "x = xs i" using x by auto
      then show ?thesis using v' cs'(2) by metis
    qed simp
    ultimately have "c # cs' = c # cs" using cs'(1) cs(2) by (intro horner_unique [of "insert 0 (xs ` I)" "c # cs'" "c # cs"]) (simp_all only: length_Cons)
    then show ?thesis by simp
  qed
  ultimately show ?thesis using cs(2) v' by blast
qed


section \<open>The code computes in the field\<close>

lemma GF_ops: "GF (gf_add a b) = GF a + GF b" "GF (gf_mult a b) = GF a * GF b" "GF 0 = 0" "GF 1 = 1"
  by (simp_all add: gf_defs)

lemma GF_sub: "GF (gf_add a b) = GF a - GF b"
  by (simp add: gf_defs)

lemma gf_add_eq_0: "gf_add a b = 0 \<longleftrightarrow> a = b"
proof -
  have "gf_add a b = 0 \<longleftrightarrow> GF a - GF b = 0" unfolding GF_sub [symmetric] by (simp add: zero_gf256_def)
  then show ?thesis by simp
qed

lemma gf_div_GF: "gf_div a b = Some q \<Longrightarrow> GF q = GF a / GF b"
  by (simp add: divide_gf256_def)

lemma horner_snoc: "horner (as @ [c + x * out]) x = horner (as @ [c, out]) x"
  by (induction as) simp_all

lemma horner_loop_GF: "GF (horner_loop x out cs) = horner (rev (map GF cs) @ [GF out]) (GF x)"
proof (induction cs arbitrary: out)
  case (Cons c cs)
  have "GF (gf_add (gf_mult out x) c) = GF c + GF x * GF out" by (simp add: GF_ops add.commute mult.commute)
  then show ?case using Cons horner_snoc [of "rev (map GF cs)" "GF c" "GF x" "GF out"] by simp
qed simp

lemma evaluate_GF: "cs \<noteq> [] \<Longrightarrow> GF (evaluate cs x) = horner (map GF cs) (GF x)"
proof (cases "x = 0")
  case True
  assume "cs \<noteq> []"
  then show ?thesis using True by (cases cs) (simp_all add: evaluate_def GF_ops)
next
  case False
  assume "cs \<noteq> []"
  then have "map GF cs = map GF (butlast cs @ [last cs])" by simp
  then have "map GF cs = rev (map GF (rev (butlast cs))) @ [GF (last cs)]" by (simp add: rev_map)
  then show ?thesis using False by (simp add: evaluate_def horner_loop_GF)
qed

lemma basis_loop_GF:
  assumes "distinct xs" "i < length xs" "distinct js" "set js \<subseteq> {..<length xs}"
  shows "\<exists>b. basis_loop xs x i js basis = Some b
    \<and> GF b = GF basis * (\<Prod>j\<in>set js - {i}. (GF x - GF (xs ! j)) / (GF (xs ! i) - GF (xs ! j)))"
  using assms(3,4)
proof (induction js arbitrary: basis)
  case (Cons j js)
  show ?case
  proof (cases "i = j")
    case True
    then have "set (j # js) - {i} = set js - {i}" by auto
    moreover obtain b where "basis_loop xs x i js basis = Some b"
        "GF b = GF basis * (\<Prod>j\<in>set js - {i}. (GF x - GF (xs ! j)) / (GF (xs ! i) - GF (xs ! j)))"
      using Cons.IH [of basis] Cons.prems by auto
    ultimately show ?thesis using True by simp
  next
    case False
    then have "gf_add (xs ! i) (xs ! j) \<noteq> 0" using assms(1,2) Cons.prems(2) by (simp add: gf_add_eq_0 nth_eq_iff_index_eq)
    then obtain q where q: "gf_div (gf_add x (xs ! j)) (gf_add (xs ! i) (xs ! j)) = Some q" by (auto simp: gf_div_def Let_def)
    have "GF q = (GF x - GF (xs ! j)) / (GF (xs ! i) - GF (xs ! j))" using gf_div_GF [OF q] by (simp only: GF_sub)
    moreover have "set (j # js) - {i} = insert j (set js - {i})" "j \<notin> set js - {i}" using False Cons.prems(1) by auto
    moreover obtain b where "basis_loop xs x i js (gf_mult basis q) = Some b" "GF b = GF (gf_mult basis q)
        * (\<Prod>j\<in>set js - {i}. (GF x - GF (xs ! j)) / (GF (xs ! i) - GF (xs ! j)))"
      using Cons.IH [of "gf_mult basis q"] Cons.prems by auto
    ultimately show ?thesis using False q by (simp add: Let_def GF_ops(2) mult.assoc del: set_simps)
  qed
qed simp

lemma interpolate_loop_GF:
  assumes "distinct xs" "distinct is" "set is \<subseteq> {..<length xs}"
  shows "\<exists>r. interpolate_loop xs ys x is result = Some r \<and> GF r = GF result + (\<Sum>i\<in>set is.
    GF (ys ! i) * (\<Prod>j\<in>{..<length xs} - {i}. (GF x - GF (xs ! j)) / (GF (xs ! i) - GF (xs ! j))))"
  using assms(2,3)
proof (induction "is" arbitrary: result)
  case (Cons i "is")
  obtain b where "basis_loop xs x i [0..<length xs] 1 = Some b"
    "GF b = (\<Prod>j\<in>{..<length xs} - {i}. (GF x - GF (xs ! j)) / (GF (xs ! i) - GF (xs ! j)))"
    using basis_loop_GF [OF assms(1), of i "[0..<length xs]" x 1] Cons.prems(2)
    by (auto simp: GF_ops atLeast0LessThan subset_eq)
  then show ?case using Cons.IH [of "gf_add result (gf_mult (ys ! i) b)"] Cons.prems by (auto simp: GF_ops add.assoc)
qed simp

lemma interpolatePolynomial_GF:
  assumes "distinct xs"
  shows "\<exists>r. interpolatePolynomial xs ys x = Some r
    \<and> GF r = lagrange (length xs) (\<lambda>i. GF (xs ! i)) (\<lambda>i. GF (ys ! i)) (GF x)"
  using interpolate_loop_GF [OF assms, of "[0..<length xs]" ys x 0]
  by (simp add: interpolatePolynomial_def lagrange_def GF_ops atLeast0LessThan)

text \<open>Interpolation at zero recovers the intercept.\<close>

lemma interpolate_evaluate:
  assumes "distinct xs" "p \<noteq> []" "length p \<le> length xs"
  shows "interpolatePolynomial xs (map (evaluate p) xs) 0 = Some (hd p)"
proof -
  let ?X = "\<lambda>i. GF (xs ! i)" and ?n = "length xs"
  obtain r where r: "interpolatePolynomial xs (map (evaluate p) xs) 0 = Some r"
    "GF r = lagrange ?n ?X (\<lambda>i. GF (map (evaluate p) xs ! i)) 0"
    using interpolatePolynomial_GF [OF assms(1)] by (metis GF_ops(3))
  have "poly_fun (length p) (horner (map GF p))" unfolding poly_fun_def by (metis length_map)
  moreover have "inj_on ?X {..<?n}" using assms(1) by (auto simp: inj_on_def nth_eq_iff_index_eq)
  moreover have "lagrange ?n ?X (\<lambda>i. GF (map (evaluate p) xs ! i)) 0 = lagrange ?n ?X (\<lambda>i. horner (map GF p) (?X i)) 0"
    unfolding lagrange_def by (intro sum.cong) (simp_all add: evaluate_GF [OF assms(2)])
  ultimately have "GF r = horner (map GF p) 0" using r(2) lagrange_poly assms(3) by metis
  then show ?thesis using r(1) assms(2) by (cases p) simp_all
qed


section \<open>Splitting and combining\<close>

lemma split_loop_columns:
  assumes "split_loop xs degree secret rnd = Inr cols"
  shows "length cols = length secret \<and> (\<forall>k<length secret. \<exists>p. p \<noteq> [] \<and> length p = unat (degree + 1) \<and> hd p = secret ! k
    \<and> cols ! k = map (evaluate p) xs)"
  using assms
proof (induction secret arbitrary: rnd cols)
  case (Cons val secret)
  then obtain p rnd1 cols1 where p: "makePolynomial val degree rnd = Inr (p, rnd1)" "split_loop xs degree secret rnd1 = Inr cols1"
      "cols = map (evaluate p) xs # cols1" by (auto split: sum.splits)
  have "p \<noteq> []" "length p = unat (degree + 1)" "hd p = val" using p(1) by (auto simp: makePolynomial_def Let_def split: if_splits)
  then show ?case using Cons.IH [OF p(2)] p(3) by (auto simp: nth_Cons' less_Suc_eq_0_disj)
qed simp

lemma combine_loop_map:
  assumes "\<And>k. k \<in> set ks \<Longrightarrow> interpolatePolynomial xs (map (\<lambda>part. part ! k) parts) 0 = Some (f k)"
  shows "combine_loop parts xs ks = Some (map f ks)"
  using assms by (induction ks) simp_all

text \<open>The coordinates are different and not zero.\<close>

lemma coordinates:
  assumes "distinct perm" "set perm \<subseteq> {..<255}"
  shows "distinct (map (\<lambda>x. word_of_nat x + 1 :: u8) perm)" "0 \<notin> set (map (\<lambda>x. word_of_nat x + 1 :: u8) perm)"
proof -
  have u: "unat (word_of_nat x + 1 :: u8) = Suc x" if "x < 255" for x
    using that by (simp add: unat_word_ariths unsigned_of_nat take_bit_nat_eq_self)
  have "inj_on (\<lambda>x. word_of_nat x + 1 :: u8) {..<255}"
    by (rule inj_on_inverseI [where g = "\<lambda>w. unat w - 1"]) (simp add: u)
  then show "distinct (map (\<lambda>x. word_of_nat x + 1 :: u8) perm)" using assms by (simp add: distinct_map inj_on_subset)
  show "0 \<notin> set (map (\<lambda>x. word_of_nat x + 1 :: u8) perm)"
    using assms(2) u by (metis (no_types, lifting) imageE lessThan_iff list.set_map nat.distinct(1) subsetD unsigned_0)
qed

lemma Split_shape:
  assumes "Shamir_Split secret parts threshold perm rnd = Inr out" "distinct perm" "set perm \<subseteq> {..<255}" "nat parts \<le> length perm"
  obtains xs cols where "distinct xs" "0 \<notin> set xs" "length xs = nat parts" "secret \<noteq> []"
    "2 \<le> threshold" "threshold \<le> parts" "threshold \<le> 255" "xs = map (\<lambda>x. word_of_nat x + 1) (take (nat parts) perm)"
    "split_loop xs (word_of_int (threshold - 1)) secret rnd = Inr cols" "out = shares xs cols"
proof -
  let ?xs = "map (\<lambda>x. word_of_nat x + 1 :: u8) (take (nat parts) perm)"
  have "set (take (nat parts) perm) \<subseteq> {..<255}" using assms(3) set_take_subset by fastforce
  then have "distinct ?xs" "0 \<notin> set ?xs" using coordinates [of "take (nat parts) perm"] assms(2) by auto
  moreover have "length ?xs = nat parts" using assms(4) by simp
  ultimately show ?thesis using assms(1) that [of ?xs] by (auto simp: Shamir_Split_def Let_def split: if_splits sum.splits)
qed

lemma degree_length: "2 \<le> t \<Longrightarrow> t \<le> 255 \<Longrightarrow> unat (word_of_int (t - 1) + 1 :: u8) = nat t"
proof -
  assume t: "2 \<le> t" "t \<le> 255"
  have "word_of_int (t - 1) + 1 = (word_of_int t :: u8)" by (simp add: word_of_int_minus)
  then show ?thesis using t by (simp add: unsigned_of_int take_bit_int_eq_self)
qed


lemma shares_nth: "i < length xs \<Longrightarrow> shares xs cols ! i = map (\<lambda>col. col ! i) cols @ [xs ! i]"
  by (simp add: shares_def)

text \<open>
  C39: enough shares give the secret back. Of the shares that \<^verbatim>\<open>Split\<close> returns, take any number that reaches the
  threshold, in any order: \<^verbatim>\<open>Combine\<close> returns the secret. The random bytes are arbitrary; of \<^verbatim>\<open>Perm(255)\<close> it is
  used that its numbers are different and below 255.
\<close>

theorem shares_give_secret:
  assumes "Shamir_Split secret parts threshold perm rnd = Inr out" and "distinct perm" "set perm \<subseteq> {..<255}" "nat parts \<le> length perm"
    and "distinct ks" "set ks \<subseteq> {..<nat parts}" "threshold \<le> int (length ks)"
  shows "Combine (map ((!) out) ks) = Inr secret"
proof -
  obtain xs cols where x: "distinct xs" "0 \<notin> set xs" "length xs = nat parts" "secret \<noteq> []" "2 \<le> threshold" "threshold \<le> parts"
    "threshold \<le> 255" "xs = map (\<lambda>x. word_of_nat x + 1) (take (nat parts) perm)"
    "split_loop xs (word_of_int (threshold - 1)) secret rnd = Inr cols" "out = shares xs cols" by (rule Split_shape [OF assms(1-4)])
  note c = split_loop_columns [OF x(9), unfolded degree_length [OF x(5,7)]]
  let ?xk = "map ((!) xs) ks" and ?parts = "map ((!) out) ks" and ?n = "length secret"
  have o: "out ! k = map (\<lambda>col. col ! k) cols @ [xs ! k]" if "k \<in> set ks" for k using that assms(6) x(3,10) by (auto simp: shares_nth)
  then have len: "length (out ! k) = Suc ?n" "out ! k ! ?n = xs ! k" if "k \<in> set ks" for k
    using that c by (simp_all add: nth_append)
  have ne: "ks \<noteq> []" "2 \<le> length ks" using assms(7) x(5) by auto
  have first: "length (hd ?parts) = Suc ?n" using ne len(1) by (cases ks) simp_all
  have samples: "map (\<lambda>p. p ! ?n) ?parts = ?xk" using len by simp
  have d: "distinct ?xk" using x(1,3) assms(5,6) by (auto simp: distinct_map inj_on_def nth_eq_iff_index_eq subset_eq)
  have "interpolatePolynomial ?xk (map (\<lambda>part. part ! j) ?parts) 0 = Some (secret ! j)" if j: "j \<in> set [0..<?n]" for j
  proof -
    obtain p where p: "p \<noteq> []" "length p = nat threshold" "hd p = secret ! j" "cols ! j = map (evaluate p) xs"
      using c j by auto
    have e: "map (\<lambda>part. part ! j) ?parts = map (evaluate p) ?xk"
      using j o c p(4) x(3) assms(6) by (auto simp: nth_append)
    have "length p \<le> length ?xk" using p(2) assms(7) by simp
    from interpolate_evaluate [OF d p(1) this] show ?thesis unfolding e p(3) .
  qed
  then have "combine_loop ?parts ?xk [0..<?n] = Some (map ((!) secret) [0..<?n])" by (rule combine_loop_map)
  then have "combine_loop ?parts ?xk [0..<?n] = Some secret" by (simp only: map_nth)
  moreover have "list_all (\<lambda>p. length p = Suc ?n) (tl ?parts)" using len(1) by (cases ks) (simp_all add: list_all_iff)
  ultimately show ?thesis using d ne x(4)
    unfolding Combine_def Let_def first diff_Suc_1 samples by simp
qed

lemma toy_split: "Shamir_Split [0x53, 0xca] 3 2 [4, 0, 2] [0x17, 0x9c] = Inr [[0x18, 0x10, 0x05], [0x44, 0x56, 0x01], [0x6a, 0x75, 0x03]]"
  by code_simp

theorem shares_give_secret_witness: "Combine [[0x6a, 0x75, 0x03], [0x18, 0x10, 0x05]] = Inr [0x53, 0xca]"
  using shares_give_secret [OF toy_split, of "[2, 0]"] by simp

section \<open>Secrecy\<close>

lemma tail_unique:
  assumes "finite I" "inj_on (\<lambda>i. xs ! i) I" "\<forall>i\<in>I. xs ! i \<noteq> 0" "card I = n"
  shows "\<exists>!tail. length tail = n \<and> (\<forall>i\<in>I. evaluate (v # tail) (xs ! i) = col i)"
proof -
  let ?X = "\<lambda>i. GF (xs ! i)"
  have e: "evaluate (v # tail) (xs ! i) = col i \<longleftrightarrow> horner (GF v # map GF tail) (?X i) = GF (col i)" for tail i
    using evaluate_GF [of "v # tail" "xs ! i"] by (metis gf256.inject list.distinct(1) list.simps(9))
  have "inj_on ?X I" "0 \<notin> ?X ` I" using assms(2,3) by (auto simp: inj_on_def zero_gf256_def)
  then obtain cs where cs: "length cs = n" "\<forall>i\<in>I. horner (GF v # cs) (?X i) = GF (col i)"
      "\<And>cs'. length cs' = n \<Longrightarrow> \<forall>i\<in>I. horner (GF v # cs') (?X i) = GF (col i) \<Longrightarrow> cs' = cs"
    using polynomial_through [OF assms(1) _ _ assms(4), of ?X "GF v" "\<lambda>i. GF (col i)"] by blast
  show ?thesis
  proof (rule ex1I [of _ "map gf_byte cs"])
    have "map GF (map gf_byte cs) = cs" by (simp add: comp_def)
    then show "length (map gf_byte cs) = n \<and> (\<forall>i\<in>I. evaluate (v # map gf_byte cs) (xs ! i) = col i)" using cs(1,2) unfolding e by simp
    fix tail assume "length tail = n \<and> (\<forall>i\<in>I. evaluate (v # tail) (xs ! i) = col i)"
    then have "map GF tail = cs" using cs(3) e by (metis length_map)
    then show "tail = map gf_byte cs" by (auto simp: comp_def)
  qed
qed


lemma split_unique:
  assumes "finite I" "inj_on (\<lambda>i. xs ! i) I" "\<forall>i\<in>I. xs ! i \<noteq> 0" "I \<subseteq> {..<length xs}" "unat (degree + 1) = Suc (card I)"
  shows "\<exists>!rnd. length rnd = length secret * card I
    \<and> (\<exists>cols. split_loop xs degree secret rnd = Inr cols \<and> (\<forall>k<length secret. \<forall>i\<in>I. cols ! k ! i = col k i))"
proof (induction secret arbitrary: col)
  case (Cons v secret)
  let ?n = "card I"
  let ?tail = "\<lambda>t. length t = ?n \<and> (\<forall>i\<in>I. evaluate (v # t) (xs ! i) = col 0 i)"
  let ?rest = "\<lambda>r. length r = length secret * ?n \<and> (\<exists>cols. split_loop xs degree secret r = Inr cols
    \<and> (\<forall>k<length secret. \<forall>i\<in>I. cols ! k ! i = col (Suc k) i))"
  let ?all = "\<lambda>r. length r = length (v # secret) * ?n \<and> (\<exists>cols. split_loop xs degree (v # secret) r = Inr cols
    \<and> (\<forall>k<length (v # secret). \<forall>i\<in>I. cols ! k ! i = col k i))"
  have iff: "?all r \<longleftrightarrow> ?tail (take ?n r) \<and> ?rest (drop ?n r) \<and> ?n \<le> length r" for r
  proof (cases "length r = length (v # secret) * ?n")
    case True
    then have "makePolynomial v degree r = Inr (v # take ?n r, drop ?n r)" using assms(5) by (simp add: makePolynomial_def Let_def)
    then have "(\<exists>cols. split_loop xs degree (v # secret) r = Inr cols \<and> (\<forall>k<length (v # secret). \<forall>i\<in>I. cols ! k ! i = col k i))
      \<longleftrightarrow> (\<exists>cs. split_loop xs degree secret (drop ?n r) = Inr cs \<and> (\<forall>i\<in>I. map (evaluate (v # take ?n r)) xs ! i = col 0 i)
           \<and> (\<forall>k<length secret. \<forall>i\<in>I. cs ! k ! i = col (Suc k) i))"
      by (auto simp: All_less_Suc2 split: sum.splits)
    moreover have "map (evaluate (v # take ?n r)) xs ! i = evaluate (v # take ?n r) (xs ! i)" if "i \<in> I" for i
      using that assms(4) by auto
    ultimately show ?thesis using True by auto
  qed auto
  obtain t where t: "?tail t" "\<And>t'. ?tail t' \<Longrightarrow> t' = t" using tail_unique [OF assms(1-3) refl, of v "col 0"] by blast
  obtain r where r: "?rest r" "\<And>r'. ?rest r' \<Longrightarrow> r' = r" using Cons.IH [of "\<lambda>k. col (Suc k)"] by blast
  show ?case
  proof (rule ex1I [of _ "t @ r"])
    show "?all (t @ r)" unfolding iff using t(1) r(1) by simp
    fix q assume "?all q"
    then have "take ?n q = t" "drop ?n q = r" using t(2) r(2) unfolding iff by blast+
    then show "q = t @ r" by (metis append_take_drop_id)
  qed
qed simp

text \<open>
  C40: one share less tells nothing. Take any shares, one fewer than the threshold, and any other secret of the same length:
  there is exactly one choice of the random bytes for which \<^verbatim>\<open>Split\<close> of the other secret, at the same coordinates,
  gives the very same shares. With uniform random bytes those shares are thus as likely for every secret.
\<close>

theorem fewer_shares_tell_nothing:
  assumes "Shamir_Split secret parts threshold perm rnd = Inr out" and "distinct perm" "set perm \<subseteq> {..<255}" "nat parts \<le> length perm"
    and "I \<subseteq> {..<nat parts}" "int (card I) = threshold - 1" "length secret2 = length secret"
  shows "\<exists>!rnd2. length rnd2 = length secret2 * card I
    \<and> (\<exists>out2. Shamir_Split secret2 parts threshold perm rnd2 = Inr out2 \<and> (\<forall>i\<in>I. out2 ! i = out ! i))"
proof -
  obtain xs cols where x: "distinct xs" "0 \<notin> set xs" "length xs = nat parts" "secret \<noteq> []" "2 \<le> threshold" "threshold \<le> parts"
    "threshold \<le> 255" "xs = map (\<lambda>x. word_of_nat x + 1) (take (nat parts) perm)"
    "split_loop xs (word_of_int (threshold - 1)) secret rnd = Inr cols" "out = shares xs cols" by (rule Split_shape [OF assms(1-4)])
  have parts: "parts \<le> 255" using assms(1) by (auto simp: Shamir_Split_def split: if_splits)
  have i: "finite I" "inj_on (\<lambda>i. xs ! i) I" "\<forall>i\<in>I. xs ! i \<noteq> 0" "I \<subseteq> {..<length xs}"
    using assms(5) x(1-3) by (auto simp: inj_on_def nth_eq_iff_index_eq subset_eq in_set_conv_nth intro: finite_subset [OF assms(5)])
  have "unat (word_of_int (threshold - 1) + 1 :: u8) = Suc (card I)" using degree_length [OF x(5,7)] assms(6) x(5) by simp
  note u = split_unique [OF i this, of secret2 "\<lambda>k i. cols ! k ! i"]
  have "secret2 \<noteq> []" using assms(7) x(4) by auto
  then have s: "Shamir_Split secret2 parts threshold perm r = Inr out2 \<longleftrightarrow>
      (\<exists>cols2. split_loop xs (word_of_int (threshold - 1)) secret2 r = Inr cols2 \<and> out2 = shares xs cols2)" for r out2
    using x(5-7) parts unfolding x(8) by (auto simp: Shamir_Split_def Let_def split: sum.split)
  have "(\<forall>i\<in>I. shares xs cols2 ! i = out ! i) \<longleftrightarrow> (\<forall>k<length secret2. \<forall>i\<in>I. cols2 ! k ! i = cols ! k ! i)"
    if "split_loop xs (word_of_int (threshold - 1)) secret2 r = Inr cols2" for r cols2
  proof -
    have "length cols2 = length cols" "length cols = length secret2" using split_loop_columns [OF that] split_loop_columns [OF x(9)] assms(7) by auto
    moreover have "(shares xs cols2 ! i = out ! i) \<longleftrightarrow> map (\<lambda>col. col ! i) cols2 = map (\<lambda>col. col ! i) cols" if "i \<in> I" for i
      using that i(4) x(10) by (auto simp: shares_nth)
    ultimately show ?thesis by (auto simp: list_eq_iff_nth_eq)
  qed
  then have "(\<exists>out2. Shamir_Split secret2 parts threshold perm r = Inr out2 \<and> (\<forall>i\<in>I. out2 ! i = out ! i)) \<longleftrightarrow>
    (\<exists>cols2. split_loop xs (word_of_int (threshold - 1)) secret2 r = Inr cols2
      \<and> (\<forall>k<length secret2. \<forall>i\<in>I. cols2 ! k ! i = cols ! k ! i))" for r
    unfolding s by blast
  then show ?thesis using u by simp
qed

theorem fewer_shares_tell_nothing_witness:
  "\<exists>!rnd2. length rnd2 = 2 \<and> (\<exists>out2. Shamir_Split [0, 0] 3 2 [4, 0, 2] rnd2 = Inr out2 \<and> out2 ! 1 = [0x44, 0x56, 0x01])"
  using fewer_shares_tell_nothing [OF toy_split, of "{1}" "[0, 0]"] by (simp add: numeral_2_eq_2)

end
