(* ===== verification/Spec2Isabelle.thy ===== *)
theory Spec2Isabelle
  imports Pbft_Props Common Rlp_Props Sm3 Sm4 Eth_Run Shamir
begin

text \<open>
  \<^bold>\<open>PBFT-block.\<close> The program is a permissioned chain node: a leader proposes a block, the nodes
  prepare and commit it by PBFT, and each node raises its chain height once a quorum of commits
  supports the block. The consensus is in \<^verbatim>\<open>src/eth\<close>, on top of a copy of the go-ethereum
  network stack. This library models the parts of the code listed here as HOL functions and states
  what makes them correct.

  \<^bold>\<open>Parts and theories.\<close>

  \<^item> \<^verbatim>\<open>Prelude\<close>: words, byte strings, Go maps as association lists with the locale
    \<^verbatim>\<open>keyed_store\<close>, \<^verbatim>\<open>strconv.Itoa\<close>.
  \<^item> \<^verbatim>\<open>Common\<close>: \<^verbatim>\<open>common/bytes.go\<close>, \<^verbatim>\<open>types.go\<close>, \<^verbatim>\<open>big.go\<close>: hex text, padding, hashes and
    addresses. Hex text round-trips; \<^verbatim>\<open>BytesToNumber\<close> is right only on four bytes.
  \<^item> \<^verbatim>\<open>Json\<close>: what \<^verbatim>\<open>encoding/json\<close> does on the structs of the messages, as documents and a
    generic field-by-field codec.
  \<^item> \<^verbatim>\<open>Pbft_Types\<close>, \<^verbatim>\<open>Pbft_Codec\<close>: blocks, messages, the record of the worker with the package
    variables of \<^verbatim>\<open>pbft-core.go\<close>, and the JSON form of each message.
  \<^item> \<^verbatim>\<open>Quorum\<close>: \<^verbatim>\<open>getQuorum\<close> and \<^verbatim>\<open>getElectionQuorum\<close> with the locale \<^verbatim>\<open>quorum_system\<close>.
  \<^item> \<^verbatim>\<open>Pbft_Basic\<close>: \<^verbatim>\<open>pbft-core_basic.go\<close>: the pool of possible blocks, the certificates, the
    tests \<^verbatim>\<open>prePrepared\<close>, \<^verbatim>\<open>prepared\<close>, \<^verbatim>\<open>committed\<close>, the tally, the resets.
    \<^verbatim>\<open>Pbft_Pool\<close> and \<^verbatim>\<open>Pbft_Exec\<close> hold the lemmas on the pool and on the execution sequences.
  \<^item> \<^verbatim>\<open>Pbft_Core\<close>: the handlers of \<^verbatim>\<open>pbft-core.go\<close>, from \<^verbatim>\<open>SendRequest\<close> to
    \<^verbatim>\<open>RecvCheckpoint\<close>. A handler takes the clock, the message and the worker and returns an error or
    none, the new worker and its effects: the messages posted to the network and the goroutines
    started. \<^verbatim>\<open>Pbft_Frame\<close> and \<^verbatim>\<open>Pbft_Handlers\<close> describe each handler on every branch.
  \<^item> \<^verbatim>\<open>Pbft_Mine\<close>: \<^verbatim>\<open>StartConsensus\<close>, the expiry tick, the work in progress of \<^verbatim>\<open>worker.go\<close>, the
    state \<^verbatim>\<open>Initt\<close> builds. \<^verbatim>\<open>Pbft_Expiry\<close> says what the two timers do.
  \<^item> \<^verbatim>\<open>Pbft_Run\<close>: a node as a step relation. A step runs one handler on a message from outside, on
    a goroutine started before, or on a timer; the effects are logged. The locale
    \<^verbatim>\<open>node_invariant\<close> turns one-step facts into facts on every reachable state and is interpreted
    for the pool, the certificates and (in \<^verbatim>\<open>Pbft_Votes\<close>) the votes cast.
  \<^item> \<^verbatim>\<open>Pbft_Scenario\<close>, \<^verbatim>\<open>Pbft_Network\<close>: executable runs, and networks of nodes with faulty members.
  \<^item> \<^verbatim>\<open>Pbft_Props\<close> and this theory: the properties of the consensus.
  \<^item> \<^verbatim>\<open>Rlp_Head\<close>, \<^verbatim>\<open>Rlp_Raw\<close>: headers and raw items of \<^verbatim>\<open>rlp/encode.go\<close> and \<^verbatim>\<open>rlp/raw.go\<close>. The
    locale \<^verbatim>\<open>prefix_codec\<close>, interpreted on \<^verbatim>\<open>Split\<close>, gives unique decomposition into items.
  \<^item> \<^verbatim>\<open>Rlp_Encode\<close>, \<^verbatim>\<open>Rlp_Buffer\<close>: the encoder over a datatype of Go types and one of Go values, with
    its buffer, and the proof that the buffer holds the documented encoding \<open>rlp_of\<close>.
  \<^item> \<^verbatim>\<open>Rlp_Stream\<close>, \<^verbatim>\<open>Rlp_Decode\<close>: the input stream and the decoder of each type of
    \<^verbatim>\<open>rlp/decode.go\<close>; an operation maps a stream to a result or an error and the new stream.
    \<^verbatim>\<open>Rlp_Reads\<close> and \<^verbatim>\<open>Rlp_Roundtrip\<close> show that the decoder reads encodings back,
    \<^verbatim>\<open>Rlp_Types\<close> that it is type safe on every input, \<^verbatim>\<open>Rlp_Fuel\<close> that it ends.
    \<^verbatim>\<open>Rlp_Props\<close> states the properties of the package.
  \<^item> \<^verbatim>\<open>Words32\<close>, \<^verbatim>\<open>Sm3\<close>, \<^verbatim>\<open>Sm4\<close>: the hash and the block cipher of \<^verbatim>\<open>crypto-gm\<close>. The running hash
    is the hash of the whole message; the table-driven cipher is that of the standard and inverts.
  \<^item> \<^verbatim>\<open>Sm2\<close>: keys, signatures and encryption of \<^verbatim>\<open>crypto-gm/sm2/sm2.go\<close> over a record of the curve
    operations, with the group laws as the predicate \<^verbatim>\<open>sm2_curve\<close>; a random source is the list of the
    byte strings it will return. Signatures verify and ciphertexts decrypt. \<^verbatim>\<open>Encodings\<close>: base64, the DER
    form of signatures and the encoding of points; each reads back. \<^verbatim>\<open>Crypto_Gm\<close>: \<^verbatim>\<open>crypto-gm/crypto.go\<close>.
  \<^item> \<^verbatim>\<open>Pns\<close>: the table of permissioned nodes of \<^verbatim>\<open>pns/PNService.go\<close>.
  \<^item> \<^verbatim>\<open>Eth_Peer\<close>: \<^verbatim>\<open>eth/peer.go\<close>, \<^verbatim>\<open>eth/MsgED.go\<close> and the messages of \<^verbatim>\<open>p2p/message.go\<close>: payloads are
    encoded by the RLP model, hashed by the SM3 model and signed by the SM2 model. \<^verbatim>\<open>Eth_Handler\<close>: the
    protocol manager of \<^verbatim>\<open>eth/handler.go\<close>; \<^verbatim>\<open>handleMsg\<close> turns a message into a job, the goroutine it
    starts, and a job checks the signature and calls the engine of \<^verbatim>\<open>Pbft_Run\<close>. \<^verbatim>\<open>Eth_Wire\<close> shows that
    what is sent is read back, and \<^verbatim>\<open>Eth_Props\<close> states what a message of a peer can and cannot do.
    \<^verbatim>\<open>Eth_Run\<close> is the host as a step relation: the loops of the peers, the goroutines, the engine and the
    broadcast loops take turns; its engine refines the node of \<^verbatim>\<open>Pbft_Run\<close> and its peers are its loops.
    The text form of JSON is a parameter (\<^verbatim>\<open>json_lib\<close>) with the hypothesis that what was written is
    read back.

  \<^item> \<^verbatim>\<open>Galois\<close>, \<^verbatim>\<open>Shamir\<close>: secret sharing of \<^verbatim>\<open>crypto-gm/shamir\<close>. The tables make the bytes a field, shown
    as an instance of the class of fields; enough shares give the secret and fewer tell nothing of it.

  \<^bold>\<open>Correspondence.\<close> \<^verbatim>\<open>uint64\<close> is a 64-bit word, so that heights and request numbers wrap as in Go;
  a pointer is an option; a nil dereference is the error \<^verbatim>\<open>Crash\<close>, or \<^verbatim>\<open>CatchPanic\<close> where the
  handler recovers; a Go map is an association list, whose order stands for one iteration order. The
  handlers hold the mutexes of the fields they touch, and a handler run is one atomic step. Time is
  an integer of nanoseconds read once per handler. Loops are structural recursions or have a
  termination proof. Fuel is used in two places, the loop over the elements of a slice and the
  nesting of interfaces in \<^verbatim>\<open>Rlp_Decode\<close>: the bytes left plus two, which \<^verbatim>\<open>Rlp_Fuel\<close> shows to be
  enough, except for slices of \<^verbatim>\<open>[1]byte\<close>, on which the code itself does not end.

  \<^bold>\<open>Not modelled.\<close> Printing and logging; sockets, files and the goroutine scheduler below the level
  of handler steps; the certificate code and the field arithmetic of the curve; code that is commented
  out in the source. The manifest lists the remaining packages.
\<close>

section \<open>Networks\<close>



end
